theory Spec2Isabelle
  imports Main "HOL-Library.Word"
begin

section \<open>Machine integers, status values and abnormal termination\<close>

type_synonym u32 = "32 word"
type_synonym u64 = "64 word"

text \<open>
  \<^verbatim>\<open>ErrorCodes\<close> as the specification lists them (the header is not part of the
  sources); a \<^verbatim>\<open>Status\<close> is a code with a message, and \<^verbatim>\<open>Expected<T>\<close> is the sum
  \<open>Status + T\<close> with the error on the left.
\<close>

datatype ErrorCodes =
  ERR_OK | ERR_NOTFOUND | ERR_INTERNAL | ERR_BUSY | ERR_PARSEPKT | ERR_AUTH
  | ERR_NETWORK | ERR_COMMIT_RETRY

type_synonym Status = "ErrorCodes \<times> string"

definition ok :: "Status \<Rightarrow> bool" where
  "ok s = (fst s = ERR_OK)"

text \<open>
  The ways in which a member function does not return: \<^verbatim>\<open>LOG(FATAL)\<close> and a failed
  \<^verbatim>\<open>INVARIANT\<close> abort the process; reading an array out of range, dereferencing a
  null pointer, taking \<^verbatim>\<open>value()\<close> of a failed \<^verbatim>\<open>Expected\<close> and dividing by zero have
  no defined behaviour.
\<close>

datatype abort = Fatal | InvariantFailed | Undefined

section \<open>ServerStat: the instantaneous metrics\<close>

text \<open>
  Modelled from the spec: the constant \<^verbatim>\<open>STATS_METRIC_SAMPLES\<close> and the layout of one
  entry of \<^verbatim>\<open>instMetric\<close> come from \<^verbatim>\<open>server_entry.h\<close>, which is not part of the
  sources. The specification gives a ring of 16 samples tagged by
  \<^verbatim>\<open>{lastSampleTime, lastSampleCount, idx}\<close>; the source computes every sample as a
  \<^verbatim>\<open>uint64_t\<close>. The index is kept as an integer, read with C++'s truncating \<^verbatim>\<open>%\<close>.
\<close>

definition STATS_METRIC_SAMPLES :: nat where
  "STATS_METRIC_SAMPLES = 16"

record InstMetric =
  lastSampleTime :: u64
  lastSampleCount :: u64
  samples :: "u64 list"
  idx :: int

record ServerStat =
  instMetric :: "InstMetric list"
  expiredkeys :: u64
  keyspaceHits :: u64
  keyspaceMisses :: u64
  keyspaceIncorrectEp :: u64
  rejectedConn :: u64
  syncFull :: u64
  syncPartialOk :: u64
  syncPartialErr :: u64
  netInputBytes :: u64
  netOutputBytes :: u64

text \<open>C++'s remainder on signed integers truncates towards zero.\<close>

definition c_rem :: "int \<Rightarrow> int \<Rightarrow> int" where
  "c_rem a b = sgn a * (\<bar>a\<bar> mod \<bar>b\<bar>)"

text \<open>\<^verbatim>\<open>memset(&instMetric, 0, sizeof(instMetric))\<close> for an array of \<open>n\<close> metrics.\<close>

definition zeroInstMetric :: InstMetric where
  "zeroInstMetric =
     \<lparr>lastSampleTime = 0, lastSampleCount = 0,
      samples = replicate STATS_METRIC_SAMPLES 0, idx = 0\<rparr>"

definition newServerStat :: "nat \<Rightarrow> ServerStat" where
  "newServerStat n =
     \<lparr>instMetric = replicate n zeroInstMetric,
      expiredkeys = 0, keyspaceHits = 0, keyspaceMisses = 0, keyspaceIncorrectEp = 0,
      rejectedConn = 0, syncFull = 0, syncPartialOk = 0, syncPartialErr = 0,
      netInputBytes = 0, netOutputBytes = 0\<rparr>"

text \<open>
  An array access is defined when the index lies inside the array: the metric number
  inside \<^verbatim>\<open>instMetric\<close>, the ring index inside \<^verbatim>\<open>samples\<close>.
\<close>

definition metricAt :: "ServerStat \<Rightarrow> int \<Rightarrow> InstMetric option" where
  "metricAt st metric =
     (if 0 \<le> metric \<and> nat metric < length (instMetric st)
      then Some (instMetric st ! nat metric) else None)"

text \<open>
  \<^verbatim>\<open>ServerStat::getInstantaneousMetric\<close>: the loop
  \<^verbatim>\<open>for (j = 0; j < STATS_METRIC_SAMPLES; j++) sum += samples[j]\<close> on a \<^verbatim>\<open>uint64_t\<close>
  accumulator, then \<^verbatim>\<open>sum / STATS_METRIC_SAMPLES\<close>.
\<close>

fun sumSamples :: "u64 list \<Rightarrow> nat \<Rightarrow> u64 \<Rightarrow> u64 option" where
  "sumSamples xs 0 acc = Some acc"
| "sumSamples xs (Suc k) acc =
     (let j = STATS_METRIC_SAMPLES - Suc k in
      if j < length xs then sumSamples xs k (acc + xs ! j) else None)"

definition getInstantaneousMetric :: "ServerStat \<Rightarrow> int \<Rightarrow> abort + u64" where
  "getInstantaneousMetric st metric =
     (case metricAt st metric of
        None \<Rightarrow> Inl Undefined
      | Some m \<Rightarrow>
          (case sumSamples (samples m) STATS_METRIC_SAMPLES 0 of
             None \<Rightarrow> Inl Undefined
           | Some s \<Rightarrow> Inr (s div of_nat STATS_METRIC_SAMPLES)))"

text \<open>
  \<^verbatim>\<open>ServerStat::trackInstantaneousMetric\<close>. The clock \<^verbatim>\<open>msSinceEpoch()\<close> is read
  twice, once for the elapsed time and once for the stored time stamp: \<open>now1\<close> and
  \<open>now2\<close>. All arithmetic is on \<^verbatim>\<open>uint64_t\<close>.
\<close>

definition trackInstantaneousMetric ::
  "ServerStat \<Rightarrow> int \<Rightarrow> u64 \<Rightarrow> u64 \<Rightarrow> u64 \<Rightarrow> abort + ServerStat" where
  "trackInstantaneousMetric st metric current_reading now1 now2 =
     (case metricAt st metric of
        None \<Rightarrow> Inl Undefined
      | Some m \<Rightarrow>
          (let t = now1 - lastSampleTime m;
               ops = current_reading - lastSampleCount m;
               ops_sec = (if t > 0 then ops * 1000 div t else 0)
           in if 0 \<le> idx m \<and> nat (idx m) < length (samples m)
              then
                (let m1 = m\<lparr>samples := (samples m)[nat (idx m) := ops_sec]\<rparr>;
                     m2 = m1\<lparr>idx := idx m1 + 1\<rparr>;
                     m3 = m2\<lparr>idx := c_rem (idx m2) (int STATS_METRIC_SAMPLES)\<rparr>;
                     m4 = m3\<lparr>lastSampleTime := now2\<rparr>;
                     m5 = m4\<lparr>lastSampleCount := current_reading\<rparr>
                 in Inr (st\<lparr>instMetric := (instMetric st)[nat metric := m5]\<rparr>))
              else Inl Undefined))"

text \<open>
  The state the constructor and \<^verbatim>\<open>reset\<close> establish and every sample keeps: each
  metric has its 16 samples and a ring index inside them.
\<close>

definition metric_wf :: "InstMetric \<Rightarrow> bool" where
  "metric_wf m =
     (length (samples m) = STATS_METRIC_SAMPLES \<and> 0 \<le> idx m
      \<and> idx m < int STATS_METRIC_SAMPLES)"

definition stat_wf :: "ServerStat \<Rightarrow> bool" where
  "stat_wf st = list_all metric_wf (instMetric st)"

section \<open>Text\<close>

text \<open>
  \<^verbatim>\<open>std::to_string\<close> and the stream's \<^verbatim>\<open><<\<close> print an unsigned integer in decimal
  without leading zeros.
\<close>

definition digit_char :: "nat \<Rightarrow> char" where
  "digit_char d = ''0123456789'' ! d"

fun to_string :: "nat \<Rightarrow> string" where
  "to_string n =
     (if n < 10 then [digit_char n]
      else to_string (n div 10) @ [digit_char (n mod 10)])"

declare to_string.simps [simp del]


definition CRLF :: string where
  "CRLF = [CHR 0x0D, CHR 0x0A]"

definition DQUOTE :: string where
  "DQUOTE = [CHR 0x22]"

section \<open>The collaborators of the server\<close>

subsection \<open>Sessions\<close>

text \<open>
  Modelled from the spec: \<^verbatim>\<open>Session\<close>, \<^verbatim>\<open>NetSession\<close> and \<^verbatim>\<open>SessionCtx\<close> are declared
  outside the sources. A session has an id, a remote address, a context (current database
  id, monitor flag), a pending argument vector and a response buffer; \<^verbatim>\<open>setResponse\<close>
  appends to the response buffer; \<^verbatim>\<open>borrowConn\<close> moves the socket out of the session.
  \<open>netSession\<close> says whether \<^verbatim>\<open>dynamic_cast<NetSession*>\<close> succeeds, and a context of
  \<open>None\<close> is the null pointer the source's \<^verbatim>\<open>INVARIANT\<close> excludes.
\<close>

record SessionCtx =
  isMonitor :: bool
  ctxDbId :: u32

record Session =
  sessId :: u64
  netSession :: bool
  ctx :: "SessionCtx option"
  remote :: string
  args :: "string list"
  respBuf :: string
  closeAfterRsp :: bool
  sock :: "nat option"
  started :: bool

definition setResponse :: "Session \<Rightarrow> string \<Rightarrow> Session" where
  "setResponse s str = s\<lparr>respBuf := respBuf s @ str\<rparr>"

definition setCloseAfterRsp :: "Session \<Rightarrow> Session" where
  "setCloseAfterRsp s = s\<lparr>closeAfterRsp := True\<rparr>"

definition borrowConn :: "Session \<Rightarrow> nat option \<times> Session" where
  "borrowConn s = (sock s, s\<lparr>sock := None\<rparr>)"

definition start :: "Session \<Rightarrow> Session" where
  "start s = s\<lparr>started := True\<rparr>"

subsection \<open>Stores and the catalog\<close>

text \<open>
  Modelled from the spec: \<^verbatim>\<open>KVStore\<close> and \<^verbatim>\<open>Catalog\<close> are declared outside the
  sources. A store has a string id, a mode, a paused flag and the queries and mutators the
  server calls; the catalog maps a store id to the persisted mode of its
  \<^verbatim>\<open>StoreMainMeta\<close>. A call that can fail fails when a fault is injected (a status that
  is not OK) and then changes nothing.
\<close>

datatype StoreMode = READ_WRITE | REPLICATE_ONLY | STORE_NONE

definition failing :: "Status option \<Rightarrow> Status option" where
  "failing f = (case f of None \<Rightarrow> None | Some s \<Rightarrow> if ok s then None else Some s)"

record KVStore =
  dbId :: string
  mode :: StoreMode
  paused :: bool
  isEmptyStore :: bool
  destroyed :: bool
  setModeFault :: "Status option"
  destroyFault :: "Status option"

definition isEmpty :: "KVStore \<Rightarrow> bool" where
  "isEmpty k = isEmptyStore k"

definition isPaused :: "KVStore \<Rightarrow> bool" where
  "isPaused k = paused k"

definition getMode :: "KVStore \<Rightarrow> StoreMode" where
  "getMode k = mode k"

definition setMode :: "KVStore \<Rightarrow> StoreMode \<Rightarrow> Status \<times> KVStore" where
  "setMode k m =
     (case failing (setModeFault k) of
        Some s \<Rightarrow> (s, k)
      | None \<Rightarrow> ((ERR_OK, []), k\<lparr>mode := m\<rparr>))"

definition destroy :: "KVStore \<Rightarrow> Status \<times> KVStore" where
  "destroy k =
     (case failing (destroyFault k) of
        Some s \<Rightarrow> (s, k)
      | None \<Rightarrow> ((ERR_OK, []), k\<lparr>mode := STORE_NONE, destroyed := True\<rparr>))"

record StoreMainMeta =
  metaId :: u32
  storeMode :: StoreMode

record Catalog =
  metas :: "u32 \<rightharpoonup> StoreMode"
  readFault :: "Status option"
  writeFault :: "Status option"

definition getStoreMainMeta :: "Catalog \<Rightarrow> u32 \<Rightarrow> Status + StoreMainMeta" where
  "getStoreMainMeta c i =
     (case failing (readFault c) of
        Some s \<Rightarrow> Inl s
      | None \<Rightarrow>
          (case metas c i of
             None \<Rightarrow> Inl (ERR_NOTFOUND, [])
           | Some m \<Rightarrow> Inr \<lparr>metaId = i, storeMode = m\<rparr>))"

definition setStoreMainMeta :: "Catalog \<Rightarrow> StoreMainMeta \<Rightarrow> Status \<times> Catalog" where
  "setStoreMainMeta c meta =
     (case failing (writeFault c) of
        Some s \<Rightarrow> (s, c)
      | None \<Rightarrow> ((ERR_OK, []), c\<lparr>metas := (metas c)(metaId meta \<mapsto> storeMode meta)\<rparr>))"

subsection \<open>Managers, worker pools, matrices and the slow log\<close>

text \<open>
  Modelled from the spec: the replication manager and the index manager are called, never
  read. Every call the server makes on a collaborator is recorded, in order, in the
  server's \<open>trace\<close>; what a call returns is fixed by the manager's record
  (\<open>acceptIncr\<close> is the answer of \<^verbatim>\<open>registerIncrSync\<close>) or by an injected fault.
\<close>

datatype Event =
    SupplyFullSync "nat option" string string string
  | RegisterIncrSync "nat option" string string string string string
  | ReplStopStore u32
  | IndexStopStore u32
  | SetStoreMainMeta u32 StoreMode
  | StoreSetMode nat StoreMode
  | StoreDestroy nat

record ReplManager =
  acceptIncr :: "string \<Rightarrow> string \<Rightarrow> string \<Rightarrow> string \<Rightarrow> string \<Rightarrow> bool"
  replStopFault :: "Status option"

record IndexManager =
  indexStopFault :: "Status option"

record WorkerPool =
  poolName :: string
  poolThreads :: nat

record NetworkMatrix =
  stickyPackets :: u64
  connCreated :: u64
  connReleased :: u64
  invalidPackets :: u64

record PoolMatrix =
  inQueue :: u64
  executed :: u64
  queueTime :: u64
  executeTime :: u64

record RequestMatrix =
  processed :: u64
  processCost :: u64
  sendPacketCost :: u64

text \<open>
  The slow log is a \<^verbatim>\<open>std::ofstream\<close>: whether a file is open behind it, whether its
  error state is clear (\<^verbatim>\<open>good()\<close>), the characters that reached the file and, for every
  call of \<^verbatim>\<open>flush()\<close> that reached it, the number of characters inserted before the
  call. \<^verbatim>\<open>open\<close> succeeds only on a stream with no file behind it and a path the file
  system lets it open (the second argument); it clears the error state on success and sets
  it on failure. An insertion into a stream whose error state is set does nothing; an
  insertion of characters into a stream with no open file fails and sets the error state;
  a flush of either does nothing. The device behind an open file takes every character.
\<close>

record ofstream =
  is_open :: bool
  good :: bool
  chars :: string
  flushes :: "nat list"


definition ins :: "ofstream \<Rightarrow> string \<Rightarrow> ofstream" where
  "ins f str =
     (if \<not> good f then f
      else if is_open f then f\<lparr>chars := chars f @ str\<rparr>
      else if str = [] then f
      else f\<lparr>good := False\<rparr>)"

definition flush :: "ofstream \<Rightarrow> ofstream" where
  "flush f =
     (if good f \<and> is_open f then f\<lparr>flushes := flushes f @ [length (chars f)]\<rparr> else f)"

text \<open>
  Modelled from the spec: the configuration keys the modelled functions read
  (\<^verbatim>\<open>server_params.h\<close> is not part of the sources). The slow-log keys are compared with
  and divide \<^verbatim>\<open>uint64_t\<close> values, so they are kept at that width.
\<close>

record ServerParams =
  slowlogLogSlowerThan :: u64
  slowlogFlushInterval :: u64
  executorThreadNum :: u32

section \<open>ServerEntry\<close>

text \<open>
  The members of \<^verbatim>\<open>ServerEntry\<close> the modelled functions use. Sessions are shared
  objects (\<^verbatim>\<open>std::shared_ptr<Session>\<close>): \<open>heap\<close> maps an address to the session
  stored there, \<open>sessions\<close> is the map \<^verbatim>\<open>_sessions\<close> from id to address and \<open>monitors\<close>
  the list \<^verbatim>\<open>_monitors\<close> of addresses. \<^verbatim>\<open>_indexMgr\<close> is \<open>None\<close> when it was never
  created (\<^verbatim>\<open>cfg->noexpire\<close>). Log lines other than \<^verbatim>\<open>LOG(FATAL)\<close> are not modelled.
\<close>

type_synonym addr = nat

record ServerEntry =
  isRunning :: bool
  heap :: "addr \<Rightarrow> Session"
  sessions :: "u64 \<rightharpoonup> addr"
  monitors :: "addr list"
  serverStat :: ServerStat
  netMatrix :: NetworkMatrix
  poolMatrix :: PoolMatrix
  reqMatrix :: RequestMatrix
  catalog :: Catalog
  kvstores :: "KVStore list"
  replMgr :: ReplManager
  indexMgr :: "IndexManager option"
  executorList :: "WorkerPool list"
  slowLog :: ofstream
  slowlogId :: u64
  cfg :: ServerParams
  trace :: "Event list"

text \<open>
  Modelled from the spec: the functions of other translation units that the modelled
  functions call: the command registry (\<^verbatim>\<open>precheck\<close>, \<^verbatim>\<open>runSessionCmd\<close>, \<^verbatim>\<open>fmtOK\<close>,
  \<^verbatim>\<open>fmtErr\<close>), \<^verbatim>\<open>redis_port::errorReply\<close>, \<^verbatim>\<open>Status::toString\<close>,
  \<^verbatim>\<open>SegmentMgr::getDb\<close> (the handle's store is given by its position in \<^verbatim>\<open>_kvstores\<close>),
  \<^verbatim>\<open>tendisplus::stoul\<close> and \<^verbatim>\<open>WorkerPool::startup\<close>. They are parameters of the
  model. \<^verbatim>\<open>precheck\<close> only reads; \<^verbatim>\<open>runSessionCmd\<close> runs a command and may change
  the whole server.
\<close>

record Env =
  precheck :: "ServerEntry \<Rightarrow> addr \<Rightarrow> Status + string"
  runSessionCmd :: "ServerEntry \<Rightarrow> addr \<Rightarrow> (Status + string) \<times> ServerEntry"
  errorReply :: "string \<Rightarrow> string"
  fmtErr :: "string \<Rightarrow> string"
  fmtOK :: string
  toString :: "Status \<Rightarrow> string"
  segGetDb :: "ServerEntry \<Rightarrow> u32 \<Rightarrow> Status + nat"
  stoul :: "string \<Rightarrow> Status + u64"
  poolStartup :: "string \<Rightarrow> nat \<Rightarrow> Status"

subsection \<open>The session registry and the monitor list\<close>

definition setResponseAt :: "ServerEntry \<Rightarrow> addr \<Rightarrow> string \<Rightarrow> ServerEntry" where
  "setResponseAt st a str = st\<lparr>heap := (heap st)(a := setResponse (heap st a) str)\<rparr>"

text \<open>
  \<^verbatim>\<open>ServerEntry::addSession\<close>. The session is started before it is inserted; an id that
  is already registered is \<^verbatim>\<open>LOG(FATAL)\<close>.
\<close>

definition addSession :: "ServerEntry \<Rightarrow> addr \<Rightarrow> abort + (bool \<times> ServerEntry)" where
  "addSession st sess =
     (if \<not> isRunning st then Inr (False, st)
      else
        (let st1 = st\<lparr>heap := (heap st)(sess := start (heap st sess))\<rparr>;
             i = sessId (heap st1 sess)
         in if sessions st1 i \<noteq> None then Inl Fatal
            else Inr (True, st1\<lparr>sessions := (sessions st1)(i \<mapsto> sess)\<rparr>)))"

text \<open>
  \<^verbatim>\<open>ServerEntry::DelMonitorNoLock\<close>: the loop erases the first entry whose id is
  \<open>connId\<close> and stops.
\<close>

fun eraseFirst :: "(addr \<Rightarrow> bool) \<Rightarrow> addr list \<Rightarrow> addr list" where
  "eraseFirst p [] = []"
| "eraseFirst p (x # xs) = (if p x then xs else x # eraseFirst p xs)"

definition DelMonitorNoLock :: "ServerEntry \<Rightarrow> u64 \<Rightarrow> ServerEntry" where
  "DelMonitorNoLock st connId =
     st\<lparr>monitors := eraseFirst (\<lambda>it. sessId (heap st it) = connId) (monitors st)\<rparr>"

text \<open>\<^verbatim>\<open>ServerEntry::AddMonitor\<close>.\<close>

definition AddMonitor :: "ServerEntry \<Rightarrow> u64 \<Rightarrow> ServerEntry" where
  "AddMonitor st sid =
     (if list_ex (\<lambda>monSess. sessId (heap st monSess) = sid) (monitors st) then st
      else
        (case sessions st sid of
           None \<Rightarrow> st
         | Some it \<Rightarrow> st\<lparr>monitors := monitors st @ [it]\<rparr>))"

text \<open>
  \<^verbatim>\<open>ServerEntry::endSession\<close>. An id that is not registered is \<^verbatim>\<open>LOG(FATAL)\<close>; the
  session leaves the monitor list only when its context has the monitor flag.
\<close>

definition endSession :: "ServerEntry \<Rightarrow> u64 \<Rightarrow> abort + ServerEntry" where
  "endSession st connId =
     (if \<not> isRunning st then Inr st
      else
        (case sessions st connId of
           None \<Rightarrow> Inl Fatal
         | Some it \<Rightarrow>
             (case ctx (heap st it) of
                None \<Rightarrow> Inl InvariantFailed
              | Some pCtx \<Rightarrow>
                  (let st1 = (if isMonitor pCtx then DelMonitorNoLock st connId else st)
                   in Inr (st1\<lparr>sessions := (sessions st1)(connId := None)\<rparr>)))))"

subsection \<open>The request dispatcher\<close>

text \<open>
  The loop of \<^verbatim>\<open>replyMonitors\<close> over the arguments: argument \<open>i\<close> in double quotes,
  and a space unless it is the last one.
\<close>

function quoteArgs :: "string list \<Rightarrow> nat \<Rightarrow> string \<Rightarrow> string" where
  "quoteArgs av i info =
     (if i < length av
      then quoteArgs av (i + 1)
             (info @ (DQUOTE @ av ! i @ DQUOTE) @ (if i \<noteq> length av - 1 then '' '' else []))
      else info)"
  by pat_completeness auto
termination
  by (relation "measure (\<lambda>(av, i, info). length av - i)") auto

declare quoteArgs.simps [simp del]

text \<open>
  \<^verbatim>\<open>ServerEntry::replyMonitors\<close>; \<open>timestamp\<close> is the wall clock in microseconds, read
  only when there is a monitor.
\<close>

definition replyMonitors :: "ServerEntry \<Rightarrow> addr \<Rightarrow> u64 \<Rightarrow> abort + ServerEntry" where
  "replyMonitors st sess timestamp =
     (if length (monitors st) \<le> 0 then Inr st
      else
        (case ctx (heap st sess) of
           None \<Rightarrow> Inl InvariantFailed
         | Some pCtx \<Rightarrow>
             (let info0 = ''+'';
                  dbid = ctxDbId pCtx;
                  info1 = info0 @ (to_string (unat (timestamp div 1000000)) @ ''.''
                                   @ to_string (unat (timestamp mod 1000000)));
                  info2 = info1 @ ('' ['' @ to_string (unat dbid) @ '' ''
                                   @ remote (heap st sess) @ ''] '');
                  info3 = quoteArgs (args (heap st sess)) 0 info2;
                  info = info3 @ CRLF
              in Inr (foldl (\<lambda>s it. setResponseAt s it info) st (monitors st)))))"

text \<open>
  \<^verbatim>\<open>ServerEntry::processRequest\<close> from the test of the resolved command name to its
  end (what follows the call of \<^verbatim>\<open>replyMonitors\<close>).
\<close>

definition processResolved ::
  "Env \<Rightarrow> ServerEntry \<Rightarrow> addr \<Rightarrow> string \<Rightarrow> abort + (bool \<times> ServerEntry)" where
  "processResolved env st sess name =
     (if name = ''fullsync'' then
        (if \<not> netSession (heap st sess) then Inl InvariantFailed
         else
           (let av = args (heap st sess) in
            if length av \<noteq> 4 then Inl InvariantFailed
            else
              (let (conn, ns) = borrowConn (heap st sess);
                   st1 = st\<lparr>heap := (heap st)(sess := ns)\<rparr>;
                   st2 = st1\<lparr>trace := trace st1 @ [SupplyFullSync conn (av ! 1) (av ! 2) (av ! 3)]\<rparr>;
                   stat = serverStat st2;
                   st3 = st2\<lparr>serverStat := stat\<lparr>syncFull := syncFull stat + 1\<rparr>\<rparr>
               in Inr (False, st3))))
      else if name = ''incrsync'' then
        (if \<not> netSession (heap st sess) then Inl InvariantFailed
         else
           (let av = args (heap st sess) in
            if length av \<noteq> 6 then Inl InvariantFailed
            else
              (let (conn, ns) = borrowConn (heap st sess);
                   st1 = st\<lparr>heap := (heap st)(sess := ns)\<rparr>;
                   ret = acceptIncr (replMgr st1) (av ! 1) (av ! 2) (av ! 3) (av ! 4) (av ! 5);
                   st2 = st1\<lparr>trace := trace st1 @
                           [RegisterIncrSync conn (av ! 1) (av ! 2) (av ! 3) (av ! 4) (av ! 5)]\<rparr>;
                   stat = serverStat st2;
                   st3 = (if ret
                          then st2\<lparr>serverStat := stat\<lparr>syncPartialOk := syncPartialOk stat + 1\<rparr>\<rparr>
                          else st2\<lparr>serverStat := stat\<lparr>syncPartialErr := syncPartialErr stat + 1\<rparr>\<rparr>)
               in Inr (False, st3))))
      else if name = ''quit'' then
        (if \<not> netSession (heap st sess) then Inl InvariantFailed
         else
           (let ns = setCloseAfterRsp (heap st sess);
                ns1 = setResponse ns (fmtOK env)
            in Inr (True, st\<lparr>heap := (heap st)(sess := ns1)\<rparr>)))
      else
        (case runSessionCmd env st sess of
           (Inl e, st1) \<Rightarrow> Inr (True, setResponseAt st1 sess (fmtErr env (toString env e)))
         | (Inr v, st1) \<Rightarrow> Inr (True, setResponseAt st1 sess v)))"

text \<open>
  \<^verbatim>\<open>ServerEntry::processRequest\<close>; \<open>now\<close> is the wall clock that \<^verbatim>\<open>replyMonitors\<close>
  reads.
\<close>

definition processRequest ::
  "Env \<Rightarrow> ServerEntry \<Rightarrow> addr \<Rightarrow> u64 \<Rightarrow> abort + (bool \<times> ServerEntry)" where
  "processRequest env st sess now =
     (if \<not> isRunning st then Inr (False, st)
      else
        (case precheck env st sess of
           Inl e \<Rightarrow> Inr (True, setResponseAt st sess (errorReply env (toString env e)))
         | Inr name \<Rightarrow>
             (case replyMonitors st sess now of
                Inl a \<Rightarrow> Inl a
              | Inr st1 \<Rightarrow> processResolved env st1 sess name)))"

subsection \<open>The INFO statistics\<close>

text \<open>
  Modelled from the spec: the metric numbers come from \<^verbatim>\<open>server_entry.h\<close>; the
  specification lists the metrics in this order.
\<close>

definition STATS_METRIC_COMMAND :: int where
  "STATS_METRIC_COMMAND = 0"

definition STATS_METRIC_NET_INPUT :: int where
  "STATS_METRIC_NET_INPUT = 1"

definition STATS_METRIC_NET_OUTPUT :: int where
  "STATS_METRIC_NET_OUTPUT = 2"

text \<open>
  One line \<^verbatim>\<open>key:value\r\n\<close> of \<^verbatim>\<open>getStatInfo\<close> is a pair of the key and the value
  inserted after it. The two kbps lines insert a \<^verbatim>\<open>float\<close>, the sampled rate divided by
  1024: \<open>Kbps r\<close> stands for that quotient of the rate \<open>r\<close>.
\<close>

datatype InfoValue = U64 u64 | Kbps u64

text \<open>Unsigned division; dividing by zero has no defined behaviour.\<close>

definition udiv :: "u64 \<Rightarrow> u64 \<Rightarrow> abort + u64" where
  "udiv a b = (if b = 0 then Inl Undefined else Inr (a div b))"

definition bindA :: "abort + 'a \<Rightarrow> ('a \<Rightarrow> abort + 'b) \<Rightarrow> abort + 'b" where
  "bindA r f = (case r of Inl a \<Rightarrow> Inl a | Inr x \<Rightarrow> f x)"

text \<open>\<^verbatim>\<open>ServerEntry::getStatInfo\<close>: the lines in the order in which they are inserted.\<close>

definition getStatInfo :: "ServerEntry \<Rightarrow> abort + (string \<times> InfoValue) list" where
  "getStatInfo st =
     (let nm = netMatrix st; pm = poolMatrix st; rm = reqMatrix st; ss = serverStat st;
          executed0 = processed rm;
          allCost = executeTime pm + queueTime pm + sendPacketCost rm;
          executed1 = (if executed0 = 0 then 1 else executed0)
      in
      bindA (getInstantaneousMetric ss STATS_METRIC_COMMAND) (\<lambda>ops.
      bindA (udiv allCost executed1) (\<lambda>avgCost.
      bindA (udiv (queueTime pm) executed1) (\<lambda>avgQueue.
      bindA (udiv (executeTime pm) executed1) (\<lambda>avgExecute.
      bindA (udiv (sendPacketCost rm) executed1) (\<lambda>avgSend.
      bindA (udiv (processCost rm) executed1) (\<lambda>avgProcess.
      bindA (getInstantaneousMetric ss STATS_METRIC_NET_INPUT) (\<lambda>inRate.
      bindA (getInstantaneousMetric ss STATS_METRIC_NET_OUTPUT) (\<lambda>outRate.
      Inr
       [(''total_connections_received:'', U64 (connCreated nm)),
        (''total_connections_released:'', U64 (connReleased nm)),
        (''total_commands_processed:'', U64 executed0),
        (''instantaneous_ops_per_sec:'', U64 ops),
        (''total_commands_cost(ns):'', U64 allCost),
        (''total_commands_workpool_queue_cost(ns):'', U64 (queueTime pm)),
        (''total_commands_workpool_execute_cost(ns):'', U64 (executeTime pm)),
        (''total_commands_send_packet_cost(ns):'', U64 (sendPacketCost rm)),
        (''total_commands_execute_cost(ns):'', U64 (processCost rm)),
        (''avg_commands_cost(ns):'', U64 avgCost),
        (''avg_commands_workpool_queue_cost(ns):'', U64 avgQueue),
        (''avg_commands_workpool_execute_cost(ns):'', U64 avgExecute),
        (''avg_commands_send_packet_cost(ns):'', U64 avgSend),
        (''avg_commands_execute_cost(ns):'', U64 avgProcess),
        (''commands_in_queue:'', U64 (inQueue pm)),
        (''commands_executed_in_workpool:'', U64 (executed pm)),
        (''total_stricky_packets:'', U64 (stickyPackets nm)),
        (''total_invalid_packets:'', U64 (invalidPackets nm)),
        (''total_net_input_bytes:'', U64 (netInputBytes ss)),
        (''total_net_output_bytes:'', U64 (netOutputBytes ss)),
        (''instantaneous_input_kbps:'', Kbps inRate),
        (''instantaneous_output_kbps:'', Kbps outRate),
        (''rejected_connections:'', U64 (rejectedConn ss)),
        (''sync_full:'', U64 (syncFull ss)),
        (''sync_partial_ok:'', U64 (syncPartialOk ss)),
        (''sync_partial_err:'', U64 (syncPartialErr ss)),
        (''keyspace_hits:'', U64 (keyspaceHits ss)),
        (''keyspace_misses:'', U64 (keyspaceMisses ss)),
        (''keyspace_wrong_versionep:'', U64 (keyspaceIncorrectEp ss))])))))))))"

text \<open>The value of the first line with a given key.\<close>

definition field :: "(string \<times> InfoValue) list \<Rightarrow> string \<Rightarrow> InfoValue option" where
  "field fs k = map_of fs k"

subsection \<open>The slow log\<close>




text \<open>
  The record as the specification writes it, to be compared with what the code inserts:
  \<^verbatim>\<open>#Id: <n>\n#Time: <t>\n#Query_time: <d>\n<arg0> <arg1> ...\n#argc: <k>\n\n\<close>, the
  arguments separated by single spaces.
\<close>

fun separated :: "string \<Rightarrow> string list \<Rightarrow> string" where
  "separated sep [] = []"
| "separated sep [a] = a"
| "separated sep (a # b # r) = a @ sep @ separated sep (b # r)"



text \<open>
  The monitor line as the specification writes it:
  \<^verbatim>\<open>+<sec>.<usec> [<dbid> <remote>] "arg0" "arg1" ... "argN"\r\n\<close>.
\<close>

definition monitor_line :: "u64 \<Rightarrow> u32 \<Rightarrow> string \<Rightarrow> string list \<Rightarrow> string" where
  "monitor_line timestamp dbid rem av =
     ''+'' @ to_string (unat timestamp div 1000000) @ ''.''
     @ to_string (unat timestamp mod 1000000)
     @ '' ['' @ to_string (unat dbid) @ '' '' @ rem @ ''] ''
     @ separated '' '' (map (\<lambda>a. DQUOTE @ a @ DQUOTE) av) @ CRLF"

subsection \<open>Store lifecycle\<close>

definition replStopStore :: "ReplManager \<Rightarrow> u32 \<Rightarrow> Status" where
  "replStopStore r storeId =
     (case failing (replStopFault r) of Some s \<Rightarrow> s | None \<Rightarrow> (ERR_OK, []))"

definition indexStopStore :: "IndexManager \<Rightarrow> u32 \<Rightarrow> Status" where
  "indexStopStore im storeId =
     (case failing (indexStopFault im) of Some s \<Rightarrow> s | None \<Rightarrow> (ERR_OK, []))"

text \<open>
  \<^verbatim>\<open>ServerEntry::destroyStore\<close>. The function returns a status and leaves the server
  changed; \<^verbatim>\<open>_indexMgr->stopStore\<close> on a null \<^verbatim>\<open>_indexMgr\<close> has no defined behaviour.
  The branch on \<^verbatim>\<open>READ_WRITE\<close> is empty in the source, and the debug assertion
  \<^verbatim>\<open>INVARIANT_D\<close> after \<^verbatim>\<open>destroy\<close> holds of a destroyed store of the model.
\<close>

definition destroyStore ::
  "Env \<Rightarrow> ServerEntry \<Rightarrow> u32 \<Rightarrow> bool \<Rightarrow> abort + (Status \<times> ServerEntry)" where
  "destroyStore env st storeId isForce =
     (case segGetDb env st storeId of
        Inl s \<Rightarrow> Inr (s, st)
      | Inr i \<Rightarrow>
          if \<not> i < length (kvstores st) then Inl Undefined
          else
            (let store = kvstores st ! i in
             if \<not> isForce \<and> \<not> isEmpty store
             then Inr ((ERR_INTERNAL, ''try to close an unempty store''), st)
             else if \<not> isPaused store
             then Inr ((ERR_INTERNAL, ''please pausestore first before destroystore''), st)
             else
               (case getStoreMainMeta (catalog st) storeId of
                  Inl s \<Rightarrow> Inr (s, st)
                | Inr meta \<Rightarrow>
                    (let meta1 = meta\<lparr>storeMode := STORE_NONE\<rparr>;
                         (status1, c1) = setStoreMainMeta (catalog st) meta1;
                         st1 = st\<lparr>catalog := c1,
                                 trace := trace st @ [SetStoreMainMeta (metaId meta1) (storeMode meta1)]\<rparr>
                     in if \<not> ok status1 then Inr (status1, st1)
                        else
                          (let (status2, k1) = destroy store;
                               st2 = st1\<lparr>kvstores := (kvstores st1)[i := k1],
                                        trace := trace st1 @ [StoreDestroy i]\<rparr>
                           in if \<not> ok status2 then Inr (status2, st2)
                              else
                                (let status3 = replStopStore (replMgr st2) storeId;
                                     st3 = st2\<lparr>trace := trace st2 @ [ReplStopStore storeId]\<rparr>
                                 in if \<not> ok status3 then Inr (status3, st3)
                                    else
                                      (case indexMgr st3 of
                                         None \<Rightarrow> Inl Undefined
                                       | Some im \<Rightarrow>
                                           Inr (indexStopStore im storeId,
                                                st3\<lparr>trace := trace st3 @ [IndexStopStore storeId]\<rparr>))))))))"

text \<open>
  \<^verbatim>\<open>ServerEntry::setStoreMode\<close>; the store is given by its position in \<^verbatim>\<open>_kvstores\<close>.
  A failing \<^verbatim>\<open>setMode\<close> is \<^verbatim>\<open>LOG(FATAL)\<close>; the result of \<^verbatim>\<open>getStoreMainMeta\<close> is used
  unchecked, and \<^verbatim>\<open>value()\<close> of a failed result has no defined behaviour. The store id
  parsed by \<^verbatim>\<open>stoul\<close> is narrowed to the \<^verbatim>\<open>uint32_t\<close> the catalog takes.
\<close>

definition setStoreMode ::
  "Env \<Rightarrow> ServerEntry \<Rightarrow> nat \<Rightarrow> StoreMode \<Rightarrow> abort + (Status \<times> ServerEntry)" where
  "setStoreMode env st i m =
     (if \<not> i < length (kvstores st) then Inl Undefined
      else
        (let store = kvstores st ! i in
         if getMode store = m then Inr ((ERR_OK, []), st)
         else
           (let (status, k1) = setMode store m;
                st1 = st\<lparr>kvstores := (kvstores st)[i := k1],
                        trace := trace st @ [StoreSetMode i m]\<rparr>
            in if \<not> ok status then Inl Fatal
               else
                 (case stoul env (dbId k1) of
                    Inl s \<Rightarrow> Inr (s, st1)
                  | Inr storeId \<Rightarrow>
                      (case getStoreMainMeta (catalog st1) (ucast storeId) of
                         Inl s \<Rightarrow> Inl Undefined
                       | Inr meta \<Rightarrow>
                           (let meta1 = meta\<lparr>storeMode := m\<rparr>;
                                (status2, c1) = setStoreMainMeta (catalog st1) meta1
                            in Inr (status2,
                                    st1\<lparr>catalog := c1,
                                        trace := trace st1 @
                                          [SetStoreMainMeta (metaId meta1) (storeMode meta1)]\<rparr>)))))))"

subsection \<open>Startup: the worker pools\<close>

text \<open>
  The loop of \<^verbatim>\<open>ServerEntry::startup\<close> that builds the worker pools: pool \<open>i\<close> is
  constructed with its name and started with one thread; a failed start returns its status
  from \<^verbatim>\<open>startup\<close>. The result \<open>None\<close> says that \<^verbatim>\<open>startup\<close> goes on.
\<close>

function startPools ::
  "Env \<Rightarrow> nat \<Rightarrow> nat \<Rightarrow> ServerEntry \<Rightarrow> Status option \<times> ServerEntry" where
  "startPools env i threadnum st =
     (if i < threadnum then
        (let executor = \<lparr>poolName = ''req-exec-'' @ to_string i, poolThreads = 0\<rparr>;
             s = poolStartup env (poolName executor) 1
         in if \<not> ok s then (Some s, st)
            else startPools env (i + 1) threadnum
                   (st\<lparr>executorList := executorList st @ [executor\<lparr>poolThreads := 1\<rparr>]\<rparr>))
      else (None, st))"
  by pat_completeness auto
termination
  by (relation "measure (\<lambda>(env, i, threadnum, st). threadnum - i)") auto

declare startPools.simps [simp del]

text \<open>
  The section \<^verbatim>\<open>// request executePool\<close> of \<^verbatim>\<open>ServerEntry::startup\<close>.
  \<^verbatim>\<open>std::thread::hardware_concurrency()\<close> is an \<^verbatim>\<open>unsigned int\<close>, widened to
  \<^verbatim>\<open>size_t\<close>; the thread number is a \<^verbatim>\<open>uint32_t\<close>.
\<close>

definition startupExecutors ::
  "Env \<Rightarrow> ServerEntry \<Rightarrow> ServerParams \<Rightarrow> u32 \<Rightarrow> Status option \<times> ServerEntry" where
  "startupExecutors env st config hardware_concurrency =
     (let cpuNum = (ucast hardware_concurrency :: u64) in
      if cpuNum = 0 then (Some (ERR_INTERNAL, ''cpu num cannot be detected''), st)
      else
        (let threadnum0 = (ucast (max 4 (cpuNum div 2)) :: u32);
             threadnum = (if executorThreadNum config \<noteq> 0
                          then executorThreadNum config else threadnum0)
         in startPools env 0 (unat threadnum) st))"

text \<open>
  The number of worker pools and a worker pool as the specification gives them:
  \<^verbatim>\<open>cfg.executorThreadNum\<close> if set, else \<open>max(4, hardware_concurrency/2)\<close>; pool \<open>i\<close> is
  named \<^verbatim>\<open>req-exec-<i>\<close> and has a single worker.
\<close>

definition pool_count_spec :: "ServerParams \<Rightarrow> u32 \<Rightarrow> nat" where
  "pool_count_spec config hardware_concurrency =
     (if executorThreadNum config \<noteq> 0 then unat (executorThreadNum config)
      else max 4 (unat hardware_concurrency div 2))"

definition pool_spec :: "nat \<Rightarrow> WorkerPool" where
  "pool_spec i = \<lparr>poolName = ''req-exec-'' @ to_string i, poolThreads = 1\<rparr>"

section \<open>Invariants of the session registry\<close>

definition monitorIds :: "ServerEntry \<Rightarrow> u64 list" where
  "monitorIds st = map (\<lambda>m. sessId (heap st m)) (monitors st)"

text \<open>
  The invariant as the specification states it: the monitor list is duplicate-free by
  session id, and the id of every monitor is a key of the session map.
\<close>

definition monitors_registered :: "ServerEntry \<Rightarrow> bool" where
  "monitors_registered st =
     (distinct (monitorIds st)
      \<and> (\<forall>m \<in> set (monitors st). sessId (heap st m) \<in> dom (sessions st)))"

text \<open>
  The invariant the code keeps: every session is registered under its own id, the monitor
  list is duplicate-free by session id, and every monitor is the session registered under
  its id and has the monitor flag in its context.
\<close>

definition flagged :: "Session \<Rightarrow> bool" where
  "flagged s = (case ctx s of None \<Rightarrow> False | Some c \<Rightarrow> isMonitor c)"

definition registry_inv :: "ServerEntry \<Rightarrow> bool" where
  "registry_inv st =
     ((\<forall>k a. sessions st k = Some a \<longrightarrow> sessId (heap st a) = k)
      \<and> distinct (monitorIds st)
      \<and> (\<forall>m \<in> set (monitors st).
            sessions st (sessId (heap st m)) = Some m \<and> flagged (heap st m)))"

section \<open>A concrete server\<close>

text \<open>
  A running server with three paused, empty shards, no session and no monitor, and an
  environment whose registry knows a few commands; the theorems below are evaluated on
  them.
\<close>

definition exampleSession :: "u64 \<Rightarrow> string list \<Rightarrow> Session" where
  "exampleSession i av =
     \<lparr>sessId = i, netSession = True,
      ctx = Some \<lparr>isMonitor = False, ctxDbId = 0\<rparr>,
      remote = ''10.0.0.7:5000'', args = av, respBuf = [], closeAfterRsp = False,
      sock = Some 9, started = False\<rparr>"

definition exampleStore :: "string \<Rightarrow> KVStore" where
  "exampleStore n =
     \<lparr>dbId = n, mode = READ_WRITE, paused = True, isEmptyStore = True, destroyed = False,
      setModeFault = None, destroyFault = None\<rparr>"


definition exampleServer :: ServerEntry where
  "exampleServer =
     \<lparr>isRunning = True,
      heap = (\<lambda>a. exampleSession (of_nat a) []),
      sessions = Map.empty,
      monitors = [],
      serverStat = newServerStat 3,
      netMatrix = \<lparr>stickyPackets = 0, connCreated = 0, connReleased = 0, invalidPackets = 0\<rparr>,
      poolMatrix = \<lparr>inQueue = 0, executed = 0, queueTime = 0, executeTime = 0\<rparr>,
      reqMatrix = \<lparr>processed = 0, processCost = 0, sendPacketCost = 0\<rparr>,
      catalog = \<lparr>metas = [0 \<mapsto> READ_WRITE, 1 \<mapsto> READ_WRITE, 2 \<mapsto> READ_WRITE],
                 readFault = None, writeFault = None\<rparr>,
      kvstores = [exampleStore ''0'', exampleStore ''1'', exampleStore ''2''],
      replMgr = \<lparr>acceptIncr = (\<lambda>a b c d e. True), replStopFault = None\<rparr>,
      indexMgr = Some \<lparr>indexStopFault = None\<rparr>,
      executorList = [],
      slowLog = \<lparr>is_open = True, good = True, chars = [], flushes = []\<rparr>,
      slowlogId = 0,
      cfg = \<lparr>slowlogLogSlowerThan = 1000, slowlogFlushInterval = 2, executorThreadNum = 0\<rparr>,
      trace = []\<rparr>"

definition exampleEnv :: Env where
  "exampleEnv =
     \<lparr>precheck = (\<lambda>st a.
        (case args (heap st a) of
           [] \<Rightarrow> Inl (ERR_PARSEPKT, ''no command'')
         | c # r \<Rightarrow>
             if c \<in> set [''ping'', ''quit'', ''fullsync'', ''incrsync'', ''set'']
             then Inr c else Inl (ERR_PARSEPKT, ''unknown command''))),
      runSessionCmd = (\<lambda>st a.
        (if args (heap st a) = [''ping''] then Inr (''+PONG'' @ CRLF)
         else Inl (ERR_INTERNAL, ''not supported''), st)),
      errorReply = (\<lambda>s. ''-ERR '' @ s @ CRLF),
      fmtErr = (\<lambda>s. ''-ERR '' @ s @ CRLF),
      fmtOK = ''+OK'' @ CRLF,
      toString = snd,
      segGetDb = (\<lambda>st i.
        if unat i < length (kvstores st) then Inr (unat i)
        else Inl (ERR_INTERNAL, ''invalid store id'')),
      stoul = (\<lambda>s.
        if s = ''0'' then Inr 0 else if s = ''1'' then Inr 1 else if s = ''2'' then Inr 2
        else Inl (ERR_INTERNAL, ''stoul'')),
      poolStartup = (\<lambda>n k. (ERR_OK, []))\<rparr>"

text \<open>
  The example server after \<^verbatim>\<open>addSession\<close> of the session at address 7, whose id is 7,
  and the same with the monitor flag set in the context of that session.
\<close>

definition exampleRegistered :: ServerEntry where
  "exampleRegistered =
     exampleServer\<lparr>heap := (heap exampleServer)(7 := start (heap exampleServer 7)),
                   sessions := [7 \<mapsto> 7]\<rparr>"

definition exampleFlagged :: ServerEntry where
  "exampleFlagged =
     exampleRegistered\<lparr>heap := (heap exampleRegistered)
        (7 := (heap exampleRegistered 7)\<lparr>ctx := Some \<lparr>isMonitor = True, ctxDbId = 0\<rparr>\<rparr>)\<rparr>"

text \<open>
  The example server with the sessions 3, 5 and 7 registered, 3 and 5 being monitors, and
  a pending command of session 7.
\<close>

definition exampleMonitored :: "string list \<Rightarrow> ServerEntry" where
  "exampleMonitored av =
     exampleServer\<lparr>heap := (heap exampleServer)(7 := exampleSession 7 av),
                   sessions := [3 \<mapsto> 3, 5 \<mapsto> 5, 7 \<mapsto> 7],
                   monitors := [3, 5]\<rparr>"

text \<open>
  The example server with the sessions 3 and 5 registered, both with the monitor flag set
  and both in the monitor list.
\<close>

definition exampleWatched :: ServerEntry where
  "exampleWatched =
     exampleServer\<lparr>heap := (\<lambda>a. (exampleSession (of_nat a) [])
                               \<lparr>ctx := Some \<lparr>isMonitor = True, ctxDbId = 0\<rparr>\<rparr>),
                   sessions := [3 \<mapsto> 3, 5 \<mapsto> 5],
                   monitors := [3, 5]\<rparr>"

section \<open>Properties of the instantaneous metrics\<close>

lemma sumSamples_eq:
  "k \<le> length xs \<Longrightarrow> length xs = STATS_METRIC_SAMPLES \<Longrightarrow>
   sumSamples xs k acc = Some (acc + sum_list (drop (STATS_METRIC_SAMPLES - k) xs))"
proof (induction k arbitrary: acc)
  case 0
  then show ?case by simp
next
  case (Suc k)
  let ?j = "STATS_METRIC_SAMPLES - Suc k"
  from Suc.prems have j: "?j < length xs" by simp
  have "drop ?j xs = xs ! ?j # drop (Suc ?j) xs"
    using j by (simp add: Cons_nth_drop_Suc)
  moreover have "Suc ?j = STATS_METRIC_SAMPLES - k"
    using Suc.prems by simp
  ultimately have "sum_list (drop ?j xs) = xs ! ?j + sum_list (drop (STATS_METRIC_SAMPLES - k) xs)"
    by simp
  with Suc j show ?case
    by (simp add: Let_def add.assoc)
qed

lemma sumSamples_all:
  "length xs = STATS_METRIC_SAMPLES \<Longrightarrow>
   sumSamples xs STATS_METRIC_SAMPLES 0 = Some (sum_list xs)"
  using sumSamples_eq [of STATS_METRIC_SAMPLES xs 0] by simp

lemma c_rem_ring:
  "0 \<le> i \<Longrightarrow> c_rem (i + 1) 16 = (i + 1) mod 16"
  by (simp add: c_rem_def sgn_if)

lemma metric_wf_zero: "metric_wf zeroInstMetric"
  by (simp add: metric_wf_def zeroInstMetric_def STATS_METRIC_SAMPLES_def)

lemma stat_wf_new: "stat_wf (newServerStat n)"
  by (simp add: stat_wf_def newServerStat_def list_all_iff metric_wf_zero)

lemma rate_no_wrap:
  fixes reading last now1 lastT :: u64
  assumes r: "unat last \<le> unat reading"
    and t: "unat lastT \<le> unat now1"
    and m: "(unat reading - unat last) * 1000 < 2 ^ 64"
  shows "unat (if now1 - lastT = 0 then 0 else (reading - last) * 1000 div (now1 - lastT))
     = (if unat now1 = unat lastT then 0
        else (unat reading - unat last) * 1000 div (unat now1 - unat lastT))"
proof -
  have ops: "unat (reading - last) = unat reading - unat last"
    using r by (simp add: unat_sub word_le_nat_alt)
  have tt: "unat (now1 - lastT) = unat now1 - unat lastT"
    using t by (simp add: unat_sub word_le_nat_alt)
  have k: "unat (1000 :: u64) = 1000" by simp
  have "unat (reading - last) * unat (1000 :: u64) < 2 ^ LENGTH(64)"
    using m by (simp only: ops k) simp
  then have "unat ((reading - last) * 1000) = unat (reading - last) * unat (1000 :: u64)"
    by (rule unat_mult_lem [THEN iffD1])
  then have mul: "unat ((reading - last) * 1000) = (unat reading - unat last) * 1000"
    by (simp only: ops k)
  have z: "(now1 - lastT = 0) = (unat now1 = unat lastT)"
    using t tt by (metis diff_is_0_eq le_antisym unat_eq_0 order_refl)
  have "unat ((reading - last) * 1000 div (now1 - lastT))
      = (unat reading - unat last) * 1000 div (unat now1 - unat lastT)"
    by (simp only: unat_div mul tt)
  then show ?thesis
    by (simp only: z split: if_splits) simp
qed

text \<open>
  Claim C4. For every metric of a well-formed \<^verbatim>\<open>ServerStat\<close> and every reading,
  \<^verbatim>\<open>trackInstantaneousMetric\<close> returns; the sample at the current ring index becomes
  \<open>ops * 1000 / t\<close> with \<open>ops = reading - lastSampleCount\<close> and
  \<open>t = now - lastSampleTime\<close> (unsigned 64-bit arithmetic), and 0 when \<open>t = 0\<close>; the
  index advances to \<open>(idx + 1) mod 16\<close>; \<^verbatim>\<open>lastSampleTime\<close> and \<^verbatim>\<open>lastSampleCount\<close>
  are updated; the other metrics are left alone; and \<^verbatim>\<open>getInstantaneousMetric\<close> then
  returns the sum of the 16 samples divided by 16. When neither counter nor clock has
  gone backwards and \<open>ops * 1000\<close> fits 64 bits, the stored sample is the quotient of the
  natural numbers.
\<close>

theorem trackInstantaneousMetric_sample:
  assumes wf: "stat_wf st"
    and m: "metricAt st metric = Some m"
  shows "\<exists>st' m'.
      trackInstantaneousMetric st metric reading now1 now2 = Inr st'
    \<and> metricAt st' metric = Some m'
    \<and> samples m' = (samples m)[nat (idx m) :=
         (if now1 - lastSampleTime m = 0 then 0
          else (reading - lastSampleCount m) * 1000 div (now1 - lastSampleTime m))]
    \<and> idx m' = (idx m + 1) mod 16
    \<and> lastSampleTime m' = now2
    \<and> lastSampleCount m' = reading
    \<and> (\<forall>k. k \<noteq> metric \<longrightarrow> metricAt st' k = metricAt st k)
    \<and> stat_wf st'
    \<and> getInstantaneousMetric st' metric = Inr (sum_list (samples m') div 16)
    \<and> (unat (lastSampleCount m) \<le> unat reading \<and> unat (lastSampleTime m) \<le> unat now1
         \<and> (unat reading - unat (lastSampleCount m)) * 1000 < 2 ^ 64 \<longrightarrow>
         unat (samples m' ! nat (idx m))
           = (if unat now1 = unat (lastSampleTime m) then 0
              else (unat reading - unat (lastSampleCount m)) * 1000
                     div (unat now1 - unat (lastSampleTime m))))"
proof -
  from m have rng: "0 \<le> metric" "nat metric < length (instMetric st)"
    and mdef: "m = instMetric st ! nat metric"
    by (auto simp: metricAt_def split: if_splits)
  from wf rng mdef have mwf: "metric_wf m"
    by (simp add: stat_wf_def list_all_length)
  then have len: "length (samples m) = 16" and i0: "0 \<le> idx m" and i1: "idx m < 16"
    by (simp_all add: metric_wf_def STATS_METRIC_SAMPLES_def)
  define t where "t = now1 - lastSampleTime m"
  define v where "v = (if t = 0 then 0 else (reading - lastSampleCount m) * 1000 div t)"
  define m' where "m' = m\<lparr>samples := (samples m)[nat (idx m) := v],
      idx := (idx m + 1) mod 16, lastSampleTime := now2, lastSampleCount := reading\<rparr>"
  from i0 i1 have ni: "nat (idx m) < 16" by simp
  define st' where "st' = st\<lparr>instMetric := (instMetric st)[nat metric := m']\<rparr>"
  have pos: "(0 < t) = (t \<noteq> 0)" by (simp add: word_gt_0)
  have run: "trackInstantaneousMetric st metric reading now1 now2 = Inr st'"
    using m i0 ni len
    by (simp add: trackInstantaneousMetric_def Let_def st'_def m'_def v_def t_def [symmetric]
        pos STATS_METRIC_SAMPLES_def c_rem_ring)
  have at: "metricAt st' metric = Some m'"
    using rng by (simp add: metricAt_def st'_def)
  have other: "\<forall>k. k \<noteq> metric \<longrightarrow> metricAt st' k = metricAt st k"
    using rng by (auto simp: metricAt_def st'_def)
  have mwf': "metric_wf m'"
    using len by (simp add: metric_wf_def m'_def STATS_METRIC_SAMPLES_def)
  have wf': "stat_wf st'"
    using wf mwf' unfolding stat_wf_def st'_def list_all_iff
    by (auto dest: set_update_subset_insert [THEN subsetD])
  have "sumSamples (samples m') STATS_METRIC_SAMPLES 0 = Some (sum_list (samples m'))"
    using mwf' by (simp add: sumSamples_all metric_wf_def)
  then have get: "getInstantaneousMetric st' metric = Inr (sum_list (samples m') div 16)"
    using at by (simp add: getInstantaneousMetric_def) (simp add: STATS_METRIC_SAMPLES_def)
  have nth: "samples m' ! nat (idx m) = v"
    using ni len by (simp add: m'_def)
  have nw: "unat (lastSampleCount m) \<le> unat reading \<and> unat (lastSampleTime m) \<le> unat now1
         \<and> (unat reading - unat (lastSampleCount m)) * 1000 < 2 ^ 64 \<longrightarrow>
         unat (samples m' ! nat (idx m))
           = (if unat now1 = unat (lastSampleTime m) then 0
              else (unat reading - unat (lastSampleCount m)) * 1000
                     div (unat now1 - unat (lastSampleTime m)))"
    unfolding nth v_def t_def using rate_no_wrap [of "lastSampleCount m" reading "lastSampleTime m" now1]
    by blast
  have props: "samples m' = (samples m)[nat (idx m) :=
         (if now1 - lastSampleTime m = 0 then 0
          else (reading - lastSampleCount m) * 1000 div (now1 - lastSampleTime m))]"
    "idx m' = (idx m + 1) mod 16" "lastSampleTime m' = now2" "lastSampleCount m' = reading"
    by (simp_all add: m'_def v_def t_def)
  show ?thesis
    using run at props other wf' get nw
    by (intro exI [of _ st'] exI [of _ m'] conjI)
qed

text \<open>
  The theorem at a fresh \<^verbatim>\<open>ServerStat\<close>: 50 operations in 100 ms are a rate of 500 per
  second, nothing wraps around, and the mean over the ring is \<open>500 div 16 = 31\<close>.
\<close>

theorem trackInstantaneousMetric_sample_witness:
  "stat_wf (newServerStat 3)
   \<and> metricAt (newServerStat 3) 0 = Some zeroInstMetric
   \<and> (\<exists>st' m'. trackInstantaneousMetric (newServerStat 3) 0 50 100 101 = Inr st'
        \<and> metricAt st' 0 = Some m'
        \<and> samples m' = 500 # replicate 15 0
        \<and> idx m' = 1 \<and> lastSampleTime m' = 101 \<and> lastSampleCount m' = 50
        \<and> getInstantaneousMetric st' 0 = Inr 31
        \<and> unat (samples m' ! 0) = 500)"
proof -
  have wf: "stat_wf (newServerStat 3)" by (rule stat_wf_new)
  have at: "metricAt (newServerStat 3) 0 = Some zeroInstMetric"
    by (simp add: metricAt_def newServerStat_def)
  have s0: "samples zeroInstMetric = 0 # replicate 15 0"
    by (simp add: zeroInstMetric_def STATS_METRIC_SAMPLES_def eval_nat_numeral)
  have z: "idx zeroInstMetric = 0" "lastSampleTime zeroInstMetric = 0"
    "lastSampleCount zeroInstMetric = 0"
    by (simp_all add: zeroInstMetric_def)
  have v: "(50 :: u64) * 1000 div 100 = 500" "(500 :: u64) div 16 = 31" by simp_all
  from trackInstantaneousMetric_sample [OF wf at, of 50 100 101]
  obtain st' m' where
    "trackInstantaneousMetric (newServerStat 3) 0 50 100 101 = Inr st'"
    "metricAt st' 0 = Some m'"
    "samples m' = 500 # replicate 15 0"
    "idx m' = 1" "lastSampleTime m' = 101" "lastSampleCount m' = 50"
    "getInstantaneousMetric st' 0 = Inr 31"
    "unat (samples m' ! 0) = 500"
    by (auto simp: s0 z v sum_list_replicate)
  with wf at show ?thesis by blast
qed

section \<open>Properties of the slow log\<close>



lemma ins_closed: "\<not> is_open f \<Longrightarrow> str \<noteq> [] \<Longrightarrow> ins f str = f\<lparr>good := False\<rparr>"
  by (simp add: ins_def)

lemma flush_rejecting: "\<not> (good f \<and> is_open f) \<Longrightarrow> flush f = f"
  by (simp add: flush_def)









section \<open>Properties of the INFO statistics\<close>

lemma max_word_1: "max x 1 = (if x = 0 then 1 else x)" for x :: u64
proof (cases "x = 0")
  case True
  then show ?thesis by simp
next
  case False
  then have "1 \<le> x" by (simp add: word_le_nat_alt unat_gt_0 Suc_le_eq)
  with False show ?thesis by (simp add: max_def)
qed

lemma getInstantaneousMetric_wf:
  assumes "stat_wf ss" "k < length (instMetric ss)"
  shows "\<exists>v. getInstantaneousMetric ss (int k) = Inr v"
proof -
  from assms have "metric_wf (instMetric ss ! k)"
    by (simp add: stat_wf_def list_all_length)
  then have "sumSamples (samples (instMetric ss ! k)) STATS_METRIC_SAMPLES 0
      = Some (sum_list (samples (instMetric ss ! k)))"
    by (simp add: sumSamples_all metric_wf_def)
  with assms show ?thesis
    by (simp add: getInstantaneousMetric_def metricAt_def)
qed

text \<open>
  Claim C10. On a well-formed \<^verbatim>\<open>ServerStat\<close> with its three metrics, \<^verbatim>\<open>getStatInfo\<close>
  returns its lines (no division by zero occurs): every \<^verbatim>\<open>avg_commands_*_cost\<close> field is
  the corresponding total divided by \<open>max(total_commands_processed, 1)\<close>, a divisor that
  is never 0, and when no command has been processed each average field equals the
  corresponding total field.
\<close>

theorem getStatInfo_avg:
  assumes wf: "stat_wf (serverStat st)"
    and n: "3 \<le> length (instMetric (serverStat st))"
  shows "\<exists>fs. getStatInfo st = Inr fs
    \<and> max (processed (reqMatrix st)) 1 \<noteq> 0
    \<and> field fs ''total_commands_processed:'' = Some (U64 (processed (reqMatrix st)))
    \<and> field fs ''avg_commands_cost(ns):''
        = Some (U64 ((executeTime (poolMatrix st) + queueTime (poolMatrix st)
                      + sendPacketCost (reqMatrix st)) div max (processed (reqMatrix st)) 1))
    \<and> field fs ''avg_commands_workpool_queue_cost(ns):''
        = Some (U64 (queueTime (poolMatrix st) div max (processed (reqMatrix st)) 1))
    \<and> field fs ''avg_commands_workpool_execute_cost(ns):''
        = Some (U64 (executeTime (poolMatrix st) div max (processed (reqMatrix st)) 1))
    \<and> field fs ''avg_commands_send_packet_cost(ns):''
        = Some (U64 (sendPacketCost (reqMatrix st) div max (processed (reqMatrix st)) 1))
    \<and> field fs ''avg_commands_execute_cost(ns):''
        = Some (U64 (processCost (reqMatrix st) div max (processed (reqMatrix st)) 1))
    \<and> (processed (reqMatrix st) = 0 \<longrightarrow>
          field fs ''avg_commands_cost(ns):'' = field fs ''total_commands_cost(ns):''
        \<and> field fs ''avg_commands_workpool_queue_cost(ns):''
            = field fs ''total_commands_workpool_queue_cost(ns):''
        \<and> field fs ''avg_commands_workpool_execute_cost(ns):''
            = field fs ''total_commands_workpool_execute_cost(ns):''
        \<and> field fs ''avg_commands_send_packet_cost(ns):''
            = field fs ''total_commands_send_packet_cost(ns):''
        \<and> field fs ''avg_commands_execute_cost(ns):''
            = field fs ''total_commands_execute_cost(ns):'')"
proof -
  from n have n0: "0 < length (instMetric (serverStat st))"
    and n1: "1 < length (instMetric (serverStat st))"
    and n2: "2 < length (instMetric (serverStat st))" by auto
  obtain ops where ops: "getInstantaneousMetric (serverStat st) STATS_METRIC_COMMAND = Inr ops"
    using getInstantaneousMetric_wf [OF wf n0]
    by (auto simp: STATS_METRIC_COMMAND_def)
  obtain inr where inr: "getInstantaneousMetric (serverStat st) STATS_METRIC_NET_INPUT = Inr inr"
    using getInstantaneousMetric_wf [OF wf n1]
    by (auto simp: STATS_METRIC_NET_INPUT_def)
  obtain outr where outr: "getInstantaneousMetric (serverStat st) STATS_METRIC_NET_OUTPUT = Inr outr"
    using getInstantaneousMetric_wf [OF wf n2]
    by (auto simp: STATS_METRIC_NET_OUTPUT_def)
  have d: "max (processed (reqMatrix st)) 1 \<noteq> 0"
    by (simp add: max_word_1)
  have d': "(if processed (reqMatrix st) = 0 then 1 else processed (reqMatrix st))
      = max (processed (reqMatrix st)) 1"
    by (simp add: max_word_1)
  show ?thesis
    unfolding getStatInfo_def Let_def d' ops inr outr
    using d by (simp add: bindA_def udiv_def field_def max_word_1)
qed

text \<open>
  The theorem on the example server with costs of 70, 30, 20 and 50 ns and no command
  processed: the averages are the totals, 120 ns for the whole cost.
\<close>

theorem getStatInfo_avg_witness:
  "stat_wf (serverStat exampleServer)
   \<and> 3 \<le> length (instMetric (serverStat exampleServer))
   \<and> (\<exists>fs. getStatInfo (exampleServer
             \<lparr>poolMatrix := \<lparr>inQueue = 0, executed = 0, queueTime = 30, executeTime = 70\<rparr>,
              reqMatrix := \<lparr>processed = 0, processCost = 50, sendPacketCost = 20\<rparr>\<rparr>) = Inr fs
        \<and> field fs ''total_commands_processed:'' = Some (U64 0)
        \<and> field fs ''avg_commands_cost(ns):'' = Some (U64 120)
        \<and> field fs ''avg_commands_workpool_queue_cost(ns):'' = Some (U64 30)
        \<and> field fs ''avg_commands_workpool_execute_cost(ns):'' = Some (U64 70)
        \<and> field fs ''avg_commands_send_packet_cost(ns):'' = Some (U64 20)
        \<and> field fs ''avg_commands_execute_cost(ns):'' = Some (U64 50)
        \<and> field fs ''total_commands_cost(ns):'' = Some (U64 120))"
proof -
  let ?s = "exampleServer
             \<lparr>poolMatrix := \<lparr>inQueue = 0, executed = 0, queueTime = 30, executeTime = 70\<rparr>,
              reqMatrix := \<lparr>processed = 0, processCost = 50, sendPacketCost = 20\<rparr>\<rparr>"
  have ss: "serverStat ?s = serverStat exampleServer" by simp
  have wf: "stat_wf (serverStat exampleServer)"
    by (simp add: exampleServer_def stat_wf_new)
  have n: "3 \<le> length (instMetric (serverStat exampleServer))"
    by (simp add: exampleServer_def newServerStat_def)
  from getStatInfo_avg [of ?s] wf n
  obtain fs where fs: "getStatInfo ?s = Inr fs"
    "field fs ''total_commands_processed:'' = Some (U64 0)"
    "field fs ''avg_commands_cost(ns):'' = Some (U64 120)"
    "field fs ''avg_commands_workpool_queue_cost(ns):'' = Some (U64 30)"
    "field fs ''avg_commands_workpool_execute_cost(ns):'' = Some (U64 70)"
    "field fs ''avg_commands_send_packet_cost(ns):'' = Some (U64 20)"
    "field fs ''avg_commands_execute_cost(ns):'' = Some (U64 50)"
    "field fs ''total_commands_cost(ns):'' = Some (U64 120)"
    unfolding ss by auto
  with wf n show ?thesis by blast
qed

section \<open>Properties of the worker pools\<close>

lemma startPools_all_ok:
  "i \<le> n \<Longrightarrow> (\<forall>j. i \<le> j \<and> j < n \<longrightarrow> ok (poolStartup env (''req-exec-'' @ to_string j) 1)) \<Longrightarrow>
   startPools env i n st
     = (None, st\<lparr>executorList := executorList st @ map pool_spec [i..<n]\<rparr>)"
proof (induction env i n st rule: startPools.induct)
  case (1 env i threadnum st)
  show ?case
  proof (cases "i < threadnum")
    case True
    then have okI: "ok (poolStartup env (''req-exec-'' @ to_string i) 1)"
      using "1.prems" by simp
    have rest: "\<forall>j. i + 1 \<le> j \<and> j < threadnum \<longrightarrow>
        ok (poolStartup env (''req-exec-'' @ to_string j) 1)"
      using "1.prems" by simp
    have step: "startPools env i threadnum st
        = startPools env (i + 1) threadnum
            (st\<lparr>executorList := executorList st @ [pool_spec i]\<rparr>)"
      using True okI by (subst startPools.simps) (simp add: Let_def pool_spec_def)
    have "startPools env (i + 1) threadnum (st\<lparr>executorList := executorList st @ [pool_spec i]\<rparr>)
        = (None, st\<lparr>executorList := (executorList st @ [pool_spec i])
                       @ map pool_spec [i + 1..<threadnum]\<rparr>)"
      using "1.IH" [OF True refl refl _ _ rest] True okI
      by (simp add: pool_spec_def)
    moreover have "[i..<threadnum] = i # [i + 1..<threadnum]"
      using True by (simp add: upt_conv_Cons)
    ultimately show ?thesis
      using step by simp
  next
    case False
    with "1.prems" have "i = threadnum" by simp
    then show ?thesis
      by (subst startPools.simps) simp
  qed
qed

lemma startPools_prefix:
  "i \<le> n \<Longrightarrow>
   \<exists>k. i \<le> k \<and> k \<le> n
     \<and> snd (startPools env i n st)
         = st\<lparr>executorList := executorList st @ map pool_spec [i..<k]\<rparr>"
proof (induction env i n st rule: startPools.induct)
  case (1 env i threadnum st)
  show ?case
  proof (cases "i < threadnum")
    case True
    show ?thesis
    proof (cases "ok (poolStartup env (''req-exec-'' @ to_string i) 1)")
      case okI: True
      have step: "startPools env i threadnum st
          = startPools env (i + 1) threadnum
              (st\<lparr>executorList := executorList st @ [pool_spec i]\<rparr>)"
        using True okI by (subst startPools.simps) (simp add: Let_def pool_spec_def)
      have nn: "\<not> \<not> ok (poolStartup env
          (poolName \<lparr>poolName = ''req-exec-'' @ to_string i, poolThreads = 0\<rparr>) 1)"
        using okI by simp
      have le: "i + 1 \<le> threadnum" using True by simp
      have e: "\<lparr>poolName = ''req-exec-'' @ to_string i, poolThreads = 0\<rparr>\<lparr>poolThreads := 1\<rparr>
          = pool_spec i"
        by (simp add: pool_spec_def)
      have "\<exists>k. i + 1 \<le> k \<and> k \<le> threadnum
          \<and> snd (startPools env (i + 1) threadnum
                (st\<lparr>executorList := executorList st @ [pool_spec i]\<rparr>))
            = st\<lparr>executorList := (executorList st @ [pool_spec i]) @ map pool_spec [i + 1..<k]\<rparr>"
        using "1.IH" [OF True refl refl nn le] unfolding e by simp
      then obtain k where k: "i + 1 \<le> k" "k \<le> threadnum"
        "snd (startPools env (i + 1) threadnum (st\<lparr>executorList := executorList st @ [pool_spec i]\<rparr>))
          = st\<lparr>executorList := (executorList st @ [pool_spec i]) @ map pool_spec [i + 1..<k]\<rparr>"
        by blast
      have "[i..<k] = i # [i + 1..<k]"
        using k by (simp add: upt_conv_Cons)
      moreover have "i \<le> k" using k by simp
      ultimately show ?thesis
        using k step by (intro exI [of _ k]) simp
    next
      case False
      then have "startPools env i threadnum st
          = (Some (poolStartup env (''req-exec-'' @ to_string i) 1), st)"
        using True by (subst startPools.simps) (simp add: Let_def)
      then show ?thesis
        using True by (intro exI [of _ i]) simp
    qed
  next
    case False
    with "1.prems" have "i = threadnum" by simp
    then have "startPools env i threadnum st = (None, st)"
      by (subst startPools.simps) simp
    then show ?thesis
      using \<open>i = threadnum\<close> by (intro exI [of _ i]) simp
  qed
qed

lemma threadnum_default:
  "unat (ucast (max 4 ((ucast hc :: u64) div 2)) :: u32) = max 4 (unat hc div 2)" for hc :: u32
proof -
  have lt: "unat hc < 2 ^ 32" using unsigned_less [of hc, where 'a = nat] by simp
  have u: "unat (ucast hc :: u64) = unat hc"
    using lt by (simp add: unsigned_ucast_eq take_bit_nat_eq_self)
  have a: "unat ((ucast hc :: u64) div 2) = unat hc div 2"
    by (simp add: unat_div u)
  have b: "unat (max 4 ((ucast hc :: u64) div 2)) = max 4 (unat hc div 2)"
    using a by (simp add: max_def word_le_nat_alt)
  have c: "max 4 (unat hc div 2) < 2 ^ 32" using lt by simp
  show ?thesis
    using b c by (simp add: unsigned_ucast_eq take_bit_nat_eq_self)
qed

lemma ucast_hc_0: "((ucast hc :: u64) = 0) = (hc = 0)" for hc :: u32
proof -
  have lt: "unat hc < 2 ^ 32" using unsigned_less [of hc, where 'a = nat] by simp
  have "unat (ucast hc :: u64) = unat hc"
    using lt by (simp add: unsigned_ucast_eq take_bit_nat_eq_self)
  then show ?thesis
    by (metis unat_eq_0)
qed

lemma threadnum_eq:
  "unat (if executorThreadNum config \<noteq> 0 then executorThreadNum config
         else (ucast (max 4 ((ucast hc :: u64) div 2)) :: u32))
   = pool_count_spec config hc"
  by (simp add: pool_count_spec_def threadnum_default)

text \<open>
  Claim C8. In the worker-pool section of \<^verbatim>\<open>startup\<close>: when
  \<^verbatim>\<open>hardware_concurrency\<close> is 0 the function returns the INTERNAL error
  \<^verbatim>\<open>cpu num cannot be detected\<close> and creates no pool; otherwise, when every pool starts,
  the pools added are exactly those named \<^verbatim>\<open>req-exec-<i>\<close> for \<open>i\<close> from 0 to the count
  minus 1, each started with one worker thread, the count being \<^verbatim>\<open>cfg.executorThreadNum\<close>
  when it is not 0 and \<open>max(4, hardware_concurrency/2)\<close> otherwise; and in every case the
  pools added are the first \<open>k\<close> of these for some \<open>k\<close> up to the count.
\<close>

theorem startupExecutors_pools:
  "(hc = 0 \<longrightarrow>
      startupExecutors env st config hc
        = (Some (ERR_INTERNAL, ''cpu num cannot be detected''), st))
   \<and> (hc \<noteq> 0 \<and> (\<forall>i < pool_count_spec config hc.
                     ok (poolStartup env (''req-exec-'' @ to_string i) 1)) \<longrightarrow>
      startupExecutors env st config hc
        = (None, st\<lparr>executorList :=
                   executorList st @ map pool_spec [0..<pool_count_spec config hc]\<rparr>))
   \<and> (\<exists>k \<le> pool_count_spec config hc.
        snd (startupExecutors env st config hc)
          = st\<lparr>executorList := executorList st @ map pool_spec [0..<k]\<rparr>)"
proof (cases "hc = 0")
  case True
  then have "startupExecutors env st config hc
      = (Some (ERR_INTERNAL, ''cpu num cannot be detected''), st)"
    by (simp add: startupExecutors_def)
  then show ?thesis
    using True by (simp add: exI [of _ 0])
next
  case False
  let ?n = "pool_count_spec config hc"
  have run: "startupExecutors env st config hc = startPools env 0 ?n st"
    using False by (simp add: startupExecutors_def Let_def ucast_hc_0 threadnum_eq)
  have all: "(\<forall>i < ?n. ok (poolStartup env (''req-exec-'' @ to_string i) 1)) \<longrightarrow>
      startPools env 0 ?n st
        = (None, st\<lparr>executorList := executorList st @ map pool_spec [0..<?n]\<rparr>)"
    using startPools_all_ok [of 0 ?n env st] by simp
  have "\<exists>k. 0 \<le> k \<and> k \<le> ?n
      \<and> snd (startPools env 0 ?n st)
          = st\<lparr>executorList := executorList st @ map pool_spec [0..<k]\<rparr>"
    by (rule startPools_prefix) simp
  then have pre: "\<exists>k \<le> ?n. snd (startPools env 0 ?n st)
      = st\<lparr>executorList := executorList st @ map pool_spec [0..<k]\<rparr>"
    by blast
  show ?thesis
    using False all pre unfolding run by blast
qed

text \<open>
  The theorem on the example server, whose environment starts every pool: no processor
  count, twelve processors with and without a configured thread number.
\<close>

theorem startupExecutors_pools_witness:
  "startupExecutors exampleEnv exampleServer (cfg exampleServer) 0
     = (Some (ERR_INTERNAL, ''cpu num cannot be detected''), exampleServer)
   \<and> startupExecutors exampleEnv exampleServer (cfg exampleServer) 12
     = (None, exampleServer\<lparr>executorList :=
          [\<lparr>poolName = ''req-exec-0'', poolThreads = 1\<rparr>,
           \<lparr>poolName = ''req-exec-1'', poolThreads = 1\<rparr>,
           \<lparr>poolName = ''req-exec-2'', poolThreads = 1\<rparr>,
           \<lparr>poolName = ''req-exec-3'', poolThreads = 1\<rparr>,
           \<lparr>poolName = ''req-exec-4'', poolThreads = 1\<rparr>,
           \<lparr>poolName = ''req-exec-5'', poolThreads = 1\<rparr>]\<rparr>)
   \<and> startupExecutors exampleEnv exampleServer ((cfg exampleServer)\<lparr>executorThreadNum := 2\<rparr>) 12
     = (None, exampleServer\<lparr>executorList :=
          [\<lparr>poolName = ''req-exec-0'', poolThreads = 1\<rparr>,
           \<lparr>poolName = ''req-exec-1'', poolThreads = 1\<rparr>]\<rparr>)"
proof -
  have c: "executorThreadNum (cfg exampleServer) = 0" "executorList exampleServer = []"
    by (simp_all add: exampleServer_def)
  have n1: "pool_count_spec (cfg exampleServer) 12 = 6"
    by (simp add: pool_count_spec_def c)
  have n2: "pool_count_spec ((cfg exampleServer)\<lparr>executorThreadNum := 2\<rparr>) 12 = 2"
    by (simp add: pool_count_spec_def)
  have okp: "\<And>n k. ok (poolStartup exampleEnv n k)"
    by (simp add: exampleEnv_def ok_def)
  have u: "[0..<6] = [0, 1, 2, 3, 4, 5]" "[0..<2] = [0, 1]"
    by code_simp+
  have p: "pool_spec 0 = \<lparr>poolName = ''req-exec-0'', poolThreads = 1\<rparr>"
    "pool_spec (Suc 0) = \<lparr>poolName = ''req-exec-1'', poolThreads = 1\<rparr>"
    "pool_spec 2 = \<lparr>poolName = ''req-exec-2'', poolThreads = 1\<rparr>"
    "pool_spec 3 = \<lparr>poolName = ''req-exec-3'', poolThreads = 1\<rparr>"
    "pool_spec 4 = \<lparr>poolName = ''req-exec-4'', poolThreads = 1\<rparr>"
    "pool_spec 5 = \<lparr>poolName = ''req-exec-5'', poolThreads = 1\<rparr>"
    by (simp_all add: pool_spec_def to_string.simps digit_char_def)
  show ?thesis
    using startupExecutors_pools [of 0 exampleEnv exampleServer "cfg exampleServer"]
      startupExecutors_pools [of 12 exampleEnv exampleServer "cfg exampleServer"]
      startupExecutors_pools [of 12 exampleEnv exampleServer
        "(cfg exampleServer)\<lparr>executorThreadNum := 2\<rparr>"]
    by (simp add: okp n1 n2 u p c)
qed

section \<open>Properties of the store lifecycle\<close>

lemma failing_Some_not_ok: "failing f = Some s \<Longrightarrow> \<not> ok s"
  by (auto simp: failing_def split: option.splits if_splits)

lemma getStoreMainMeta_after_set:
  "failing (readFault c) = None \<Longrightarrow> failing (writeFault c) = None \<Longrightarrow>
   getStoreMainMeta (snd (setStoreMainMeta c \<lparr>metaId = i, storeMode = m\<rparr>)) i
     = Inr \<lparr>metaId = i, storeMode = m\<rparr>"
  by (simp add: getStoreMainMeta_def setStoreMainMeta_def)

lemma getStoreMainMeta_Inr:
  "getStoreMainMeta c i = Inr meta \<Longrightarrow>
   failing (readFault c) = None \<and> metaId meta = i \<and> metas c i = Some (storeMode meta)"
  by (auto simp: getStoreMainMeta_def split: option.splits)

text \<open>
  Claim C9. For a store of the server: when the store's mode already equals \<open>m\<close>,
  \<^verbatim>\<open>setStoreMode\<close> returns OK and changes nothing. Otherwise it calls
  \<^verbatim>\<open>store.setMode(m)\<close> first: when that fails the function does not return (and the
  catalog is not written); whenever the function returns, the store's mode is \<open>m\<close> and
  \<^verbatim>\<open>setMode\<close> was its first call. When the store id parses, the catalog holds the
  store's \<^verbatim>\<open>StoreMainMeta\<close> and the catalog write succeeds, the function returns OK, the
  catalog write follows \<^verbatim>\<open>setMode\<close>, and a subsequent catalog read of the
  \<^verbatim>\<open>StoreMainMeta\<close> of that store id yields \<open>m\<close>.
\<close>

theorem setStoreMode_persists:
  assumes i: "i < length (kvstores st)"
  shows "(getMode (kvstores st ! i) = m \<longrightarrow>
            setStoreMode env st i m = Inr ((ERR_OK, []), st))
    \<and> (getMode (kvstores st ! i) \<noteq> m \<and> failing (setModeFault (kvstores st ! i)) \<noteq> None \<longrightarrow>
            setStoreMode env st i m = Inl Fatal)
    \<and> (\<forall>s st'. getMode (kvstores st ! i) \<noteq> m \<and> setStoreMode env st i m = Inr (s, st') \<longrightarrow>
            getMode (kvstores st' ! i) = m
          \<and> take (Suc (length (trace st))) (trace st') = trace st @ [StoreSetMode i m])
    \<and> (\<forall>sid meta. getMode (kvstores st ! i) \<noteq> m
          \<and> failing (setModeFault (kvstores st ! i)) = None
          \<and> stoul env (dbId (kvstores st ! i)) = Inr sid
          \<and> getStoreMainMeta (catalog st) (ucast sid) = Inr meta
          \<and> failing (writeFault (catalog st)) = None \<longrightarrow>
          (\<exists>st'. setStoreMode env st i m = Inr ((ERR_OK, []), st')
             \<and> kvstores st' = (kvstores st)[i := (kvstores st ! i)\<lparr>mode := m\<rparr>]
             \<and> trace st' = trace st @ [StoreSetMode i m, SetStoreMainMeta (ucast sid) m]
             \<and> getStoreMainMeta (catalog st') (ucast sid)
                 = Inr \<lparr>metaId = ucast sid, storeMode = m\<rparr>))"
proof (intro conjI allI impI)
  assume "getMode (kvstores st ! i) = m"
  with i show "setStoreMode env st i m = Inr ((ERR_OK, []), st)"
    by (simp add: setStoreMode_def Let_def)
next
  assume a: "getMode (kvstores st ! i) \<noteq> m \<and> failing (setModeFault (kvstores st ! i)) \<noteq> None"
  then obtain s where s: "failing (setModeFault (kvstores st ! i)) = Some s" by auto
  then have "\<not> ok s" by (rule failing_Some_not_ok)
  with i a s show "setStoreMode env st i m = Inl Fatal"
    by (simp add: setStoreMode_def Let_def setMode_def)
next
  fix s st'
  assume a: "getMode (kvstores st ! i) \<noteq> m \<and> setStoreMode env st i m = Inr (s, st')"
  show "getMode (kvstores st' ! i) = m"
    using a i
    by (auto simp: setStoreMode_def Let_def setMode_def getMode_def
        dest: failing_Some_not_ok
        split: option.splits if_splits sum.splits prod.splits)
next
  fix s st'
  assume a: "getMode (kvstores st ! i) \<noteq> m \<and> setStoreMode env st i m = Inr (s, st')"
  show "take (Suc (length (trace st))) (trace st') = trace st @ [StoreSetMode i m]"
    using a i
    by (auto simp: setStoreMode_def Let_def setMode_def getMode_def
        dest: failing_Some_not_ok
        split: option.splits if_splits sum.splits prod.splits)
next
  fix sid meta
  assume a: "getMode (kvstores st ! i) \<noteq> m
          \<and> failing (setModeFault (kvstores st ! i)) = None
          \<and> stoul env (dbId (kvstores st ! i)) = Inr sid
          \<and> getStoreMainMeta (catalog st) (ucast sid) = Inr meta
          \<and> failing (writeFault (catalog st)) = None"
  from a have meta: "failing (readFault (catalog st)) = None" "metaId meta = ucast sid"
    using getStoreMainMeta_Inr by blast+
  have m1: "meta\<lparr>storeMode := m\<rparr> = \<lparr>metaId = ucast sid, storeMode = m\<rparr>"
    using meta by (cases meta) simp
  define st' where "st' = st\<lparr>kvstores := (kvstores st)[i := (kvstores st ! i)\<lparr>mode := m\<rparr>],
      trace := trace st @ [StoreSetMode i m, SetStoreMainMeta (ucast sid) m],
      catalog := snd (setStoreMainMeta (catalog st) \<lparr>metaId = ucast sid, storeMode = m\<rparr>)\<rparr>"
  have run: "setStoreMode env st i m = Inr ((ERR_OK, []), st')"
    using a i unfolding st'_def
    by (simp add: setStoreMode_def Let_def setMode_def ok_def m1 setStoreMainMeta_def)
  have rd: "getStoreMainMeta (catalog st') (ucast sid) = Inr \<lparr>metaId = ucast sid, storeMode = m\<rparr>"
    using a meta by (simp add: st'_def getStoreMainMeta_after_set)
  show "\<exists>st'. setStoreMode env st i m = Inr ((ERR_OK, []), st')
             \<and> kvstores st' = (kvstores st)[i := (kvstores st ! i)\<lparr>mode := m\<rparr>]
             \<and> trace st' = trace st @ [StoreSetMode i m, SetStoreMainMeta (ucast sid) m]
             \<and> getStoreMainMeta (catalog st') (ucast sid)
                 = Inr \<lparr>metaId = ucast sid, storeMode = m\<rparr>"
    using run rd by (intro exI [of _ st']) (simp add: st'_def)
qed

text \<open>
  The theorem on store 2 of the example server, which is in mode \<^verbatim>\<open>READ_WRITE\<close>: setting
  that mode changes nothing; setting \<^verbatim>\<open>REPLICATE_ONLY\<close> changes the store, then the
  catalog, and the catalog then reads \<^verbatim>\<open>REPLICATE_ONLY\<close>; with a store whose
  \<^verbatim>\<open>setMode\<close> fails the function does not return.
\<close>

theorem setStoreMode_persists_witness:
  "2 < length (kvstores exampleServer)
   \<and> setStoreMode exampleEnv exampleServer 2 READ_WRITE = Inr ((ERR_OK, []), exampleServer)
   \<and> (\<exists>st'. setStoreMode exampleEnv exampleServer 2 REPLICATE_ONLY = Inr ((ERR_OK, []), st')
        \<and> getMode (kvstores st' ! 2) = REPLICATE_ONLY
        \<and> trace st' = [StoreSetMode 2 REPLICATE_ONLY, SetStoreMainMeta 2 REPLICATE_ONLY]
        \<and> getStoreMainMeta (catalog st') 2 = Inr \<lparr>metaId = 2, storeMode = REPLICATE_ONLY\<rparr>)
   \<and> setStoreMode exampleEnv
        (exampleServer\<lparr>kvstores := [exampleStore ''0'', exampleStore ''1'',
           (exampleStore ''2'')\<lparr>setModeFault := Some (ERR_INTERNAL, ''disk'')\<rparr>]\<rparr>)
        2 REPLICATE_ONLY = Inl Fatal"
proof -
  let ?b = "exampleServer\<lparr>kvstores := [exampleStore ''0'', exampleStore ''1'',
           (exampleStore ''2'')\<lparr>setModeFault := Some (ERR_INTERNAL, ''disk'')\<rparr>]\<rparr>"
  have i: "2 < length (kvstores exampleServer)"
    by (simp add: exampleServer_def)
  have ib: "2 < length (kvstores ?b)" by simp
  have pb: "getMode (kvstores ?b ! 2) \<noteq> REPLICATE_ONLY
      \<and> failing (setModeFault (kvstores ?b ! 2)) \<noteq> None"
    by (simp add: getMode_def exampleStore_def failing_def ok_def)
  note fatal = setStoreMode_persists [OF ib, of REPLICATE_ONLY exampleEnv, THEN conjunct2,
      THEN conjunct1, rule_format, OF pb]
  have k: "kvstores exampleServer ! 2 = exampleStore ''2''"
    by (simp add: exampleServer_def)
  have g: "getMode (exampleStore ''2'') = READ_WRITE" "dbId (exampleStore ''2'') = ''2''"
    "failing (setModeFault (exampleStore ''2'')) = None"
    by (simp_all add: getMode_def exampleStore_def failing_def)
  have e: "stoul exampleEnv ''2'' = Inr 2"
    by (simp add: exampleEnv_def)
  have c: "getStoreMainMeta (catalog exampleServer) 2 = Inr \<lparr>metaId = 2, storeMode = READ_WRITE\<rparr>"
    "failing (writeFault (catalog exampleServer)) = None" "trace exampleServer = []"
    by (simp_all add: getStoreMainMeta_def exampleServer_def failing_def)
  have u: "(ucast (2 :: u64) :: u32) = 2" by simp
  note same0 = setStoreMode_persists [OF i, of READ_WRITE exampleEnv, THEN conjunct1, rule_format]
  have same: "setStoreMode exampleEnv exampleServer 2 READ_WRITE = Inr ((ERR_OK, []), exampleServer)"
    by (rule same0) (simp add: k g)
  note diff0 = setStoreMode_persists [OF i, of REPLICATE_ONLY exampleEnv, THEN conjunct2,
      THEN conjunct2, THEN conjunct2, rule_format, of 2 "\<lparr>metaId = 2, storeMode = READ_WRITE\<rparr>"]
  have pre: "getMode (kvstores exampleServer ! 2) \<noteq> REPLICATE_ONLY
          \<and> failing (setModeFault (kvstores exampleServer ! 2)) = None
          \<and> stoul exampleEnv (dbId (kvstores exampleServer ! 2)) = Inr 2
          \<and> getStoreMainMeta (catalog exampleServer) (ucast (2 :: u64))
              = Inr \<lparr>metaId = 2, storeMode = READ_WRITE\<rparr>
          \<and> failing (writeFault (catalog exampleServer)) = None"
    by (simp add: k g e c u)
  from diff0 [OF pre]
  have "\<exists>st'. setStoreMode exampleEnv exampleServer 2 REPLICATE_ONLY = Inr ((ERR_OK, []), st')
        \<and> kvstores st' = (kvstores exampleServer)[2 := (exampleStore ''2'')\<lparr>mode := REPLICATE_ONLY\<rparr>]
        \<and> trace st' = [StoreSetMode 2 REPLICATE_ONLY, SetStoreMainMeta 2 REPLICATE_ONLY]
        \<and> getStoreMainMeta (catalog st') 2 = Inr \<lparr>metaId = 2, storeMode = REPLICATE_ONLY\<rparr>"
    by (simp only: k c u append_Nil)
  then obtain st' where
    "setStoreMode exampleEnv exampleServer 2 REPLICATE_ONLY = Inr ((ERR_OK, []), st')"
    "kvstores st' = (kvstores exampleServer)[2 := (exampleStore ''2'')\<lparr>mode := REPLICATE_ONLY\<rparr>]"
    "trace st' = [StoreSetMode 2 REPLICATE_ONLY, SetStoreMainMeta 2 REPLICATE_ONLY]"
    "getStoreMainMeta (catalog st') 2 = Inr \<lparr>metaId = 2, storeMode = REPLICATE_ONLY\<rparr>"
    by blast
  moreover from this i have "getMode (kvstores st' ! 2) = REPLICATE_ONLY"
    by (simp add: getMode_def)
  ultimately show ?thesis
    using i same fatal by blast
qed

lemma getStoreMainMeta_Inl_not_ok: "getStoreMainMeta c i = Inl s \<Longrightarrow> \<not> ok s"
  by (auto simp: getStoreMainMeta_def ok_def dest: failing_Some_not_ok split: option.splits)

lemma setStoreMainMeta_cases:
  "setStoreMainMeta c meta = (s, c') \<Longrightarrow>
   (ok s \<and> failing (writeFault c) = None
      \<and> c' = c\<lparr>metas := (metas c)(metaId meta \<mapsto> storeMode meta)\<rparr>)
   \<or> (\<not> ok s \<and> failing (writeFault c) = Some s \<and> c' = c)"
  by (auto simp: setStoreMainMeta_def ok_def dest: failing_Some_not_ok split: option.splits)

lemma destroy_cases:
  "destroy k = (s, k') \<Longrightarrow>
   (ok s \<and> k' = k\<lparr>mode := STORE_NONE, destroyed := True\<rparr>) \<or> (\<not> ok s \<and> k' = k)"
  by (auto simp: destroy_def ok_def dest: failing_Some_not_ok split: option.splits)

lemma destroyStore_early:
  assumes db: "segGetDb env st storeId = Inr i" and i: "i < length (kvstores st)"
  shows "\<not> isForce \<and> \<not> isEmpty (kvstores st ! i) \<Longrightarrow>
           destroyStore env st storeId isForce
             = Inr ((ERR_INTERNAL, ''try to close an unempty store''), st)"
    and "(isForce \<or> isEmpty (kvstores st ! i)) \<and> \<not> isPaused (kvstores st ! i) \<Longrightarrow>
           destroyStore env st storeId isForce
             = Inr ((ERR_INTERNAL, ''please pausestore first before destroystore''), st)"
    and "(isForce \<or> isEmpty (kvstores st ! i)) \<and> isPaused (kvstores st ! i)
           \<and> getStoreMainMeta (catalog st) storeId = Inl s \<Longrightarrow>
           destroyStore env st storeId isForce = Inr (s, st)"
  using db i by (auto simp: destroyStore_def Let_def)

lemma destroyStore_write_fails:
  assumes db: "segGetDb env st storeId = Inr i" and i: "i < length (kvstores st)"
    and pre: "isForce \<or> isEmpty (kvstores st ! i)" "isPaused (kvstores st ! i)"
    and rd: "getStoreMainMeta (catalog st) storeId = Inr meta"
    and wr: "failing (writeFault (catalog st)) = Some s"
  shows "destroyStore env st storeId isForce
     = Inr (s, st\<lparr>trace := trace st @ [SetStoreMainMeta storeId STORE_NONE]\<rparr>)"
proof -
  from rd have mi: "metaId meta = storeId" using getStoreMainMeta_Inr by blast
  from wr have nok: "\<not> ok s" by (rule failing_Some_not_ok)
  have w: "setStoreMainMeta (catalog st) (meta\<lparr>storeMode := STORE_NONE\<rparr>) = (s, catalog st)"
    using wr by (simp add: setStoreMainMeta_def)
  show ?thesis
    using db i pre rd nok mi
    by (auto simp: destroyStore_def Let_def w)
qed

lemma destroyStore_returns:
  assumes db: "segGetDb env st storeId = Inr i" and i: "i < length (kvstores st)"
    and run: "destroyStore env st storeId isForce = Inr (s, st')"
  shows "(kvstores st' = kvstores st
            \<and> (trace st' = trace st \<or> trace st' = trace st @ [SetStoreMainMeta storeId STORE_NONE])
            \<and> \<not> ok s)
       \<or> ((isForce \<or> isEmpty (kvstores st ! i)) \<and> isPaused (kvstores st ! i)
            \<and> metas (catalog st') storeId = Some STORE_NONE
            \<and> (\<exists>t. trace st' = trace st @ SetStoreMainMeta storeId STORE_NONE # StoreDestroy i # t
                   \<and> (ok s \<longrightarrow> t = [ReplStopStore storeId, IndexStopStore storeId]
                                \<and> destroyed (kvstores st' ! i))))"
proof (cases "(isForce \<or> isEmpty (kvstores st ! i)) \<and> isPaused (kvstores st ! i)")
  case False
  then consider (a) "\<not> isForce \<and> \<not> isEmpty (kvstores st ! i)"
    | (b) "(isForce \<or> isEmpty (kvstores st ! i)) \<and> \<not> isPaused (kvstores st ! i)"
    by blast
  then have "st' = st \<and> \<not> ok s"
  proof cases
    case a
    from destroyStore_early(1) [OF db i a] run show ?thesis by (simp add: ok_def)
  next
    case b
    from destroyStore_early(2) [OF db i b] run show ?thesis by (simp add: ok_def)
  qed
  then show ?thesis by simp
next
  case pre: True
  show ?thesis
  proof (cases "getStoreMainMeta (catalog st) storeId")
    case (Inl e)
    then show ?thesis
      using destroyStore_early(3) [OF db i, of isForce e] pre run getStoreMainMeta_Inl_not_ok [OF Inl]
      by auto
  next
    case (Inr meta)
    then have mi: "metaId meta = storeId" using getStoreMainMeta_Inr by blast
    obtain s1 c1 where w: "setStoreMainMeta (catalog st) (meta\<lparr>storeMode := STORE_NONE\<rparr>) = (s1, c1)"
      by (cases "setStoreMainMeta (catalog st) (meta\<lparr>storeMode := STORE_NONE\<rparr>)")
    obtain s2 k1 where d: "destroy (kvstores st ! i) = (s2, k1)"
      by (cases "destroy (kvstores st ! i)")
    from setStoreMainMeta_cases [OF w] mi
    consider (wok) "ok s1" "c1 = (catalog st)\<lparr>metas := (metas (catalog st))(storeId \<mapsto> STORE_NONE)\<rparr>"
      | (wfail) "\<not> ok s1" "c1 = catalog st"
      by auto
    then show ?thesis
    proof cases
      case wfail
      then show ?thesis
        using db i pre Inr w mi run
        by (auto simp: destroyStore_def Let_def)
    next
      case wok
      from destroy_cases [OF d]
      consider (dok) "ok s2" "k1 = (kvstores st ! i)\<lparr>mode := STORE_NONE, destroyed := True\<rparr>"
        | (dfail) "\<not> ok s2" "k1 = kvstores st ! i"
        by auto
      then show ?thesis
      proof cases
        case dfail
        then show ?thesis
          using db i pre Inr w mi run wok d
          by (auto simp: destroyStore_def Let_def)
      next
        case dok
        show ?thesis
        proof (cases "ok (replStopStore (replMgr st) storeId)")
          case False
          then show ?thesis
            using db i pre Inr w mi run wok d dok
            by (auto simp: destroyStore_def Let_def)
        next
          case True
          then show ?thesis
            using db i pre Inr w mi run wok d dok
            by (auto simp: destroyStore_def Let_def split: option.splits)
        qed
      qed
    qed
  qed
qed

lemma destroyStore_read_ok:
  assumes db: "segGetDb env st storeId = Inr i" and i: "i < length (kvstores st)"
    and pre: "isForce \<or> isEmpty (kvstores st ! i)" "isPaused (kvstores st ! i)"
    and rd: "getStoreMainMeta (catalog st) storeId = Inr meta"
    and wr: "failing (writeFault (catalog st)) = None"
  shows "destroyStore env st storeId isForce =
     (let st1 = st\<lparr>catalog := (catalog st)\<lparr>metas := (metas (catalog st))(storeId \<mapsto> STORE_NONE)\<rparr>,
                     trace := trace st @ [SetStoreMainMeta storeId STORE_NONE]\<rparr>
      in case failing (destroyFault (kvstores st ! i)) of
           Some s \<Rightarrow> Inr (s, st1\<lparr>trace := trace st1 @ [StoreDestroy i]\<rparr>)
         | None \<Rightarrow>
             (let st2 = st1\<lparr>kvstores := (kvstores st)
                                [i := (kvstores st ! i)\<lparr>mode := STORE_NONE, destroyed := True\<rparr>],
                             trace := trace st1 @ [StoreDestroy i]\<rparr>
              in case failing (replStopFault (replMgr st)) of
                   Some s \<Rightarrow> Inr (s, st2\<lparr>trace := trace st2 @ [ReplStopStore storeId]\<rparr>)
                 | None \<Rightarrow>
                     (case indexMgr st of
                        None \<Rightarrow> Inl Undefined
                      | Some im \<Rightarrow>
                          Inr (case failing (indexStopFault im) of
                                 Some s \<Rightarrow> s | None \<Rightarrow> (ERR_OK, []),
                               st2\<lparr>trace := trace st2
                                      @ [ReplStopStore storeId, IndexStopStore storeId]\<rparr>))))"
proof -
  from rd have mi: "metaId meta = storeId" using getStoreMainMeta_Inr by blast
  have w: "setStoreMainMeta (catalog st) (meta\<lparr>storeMode := STORE_NONE\<rparr>)
      = ((ERR_OK, []), (catalog st)\<lparr>metas := (metas (catalog st))(storeId \<mapsto> STORE_NONE)\<rparr>)"
    using wr mi by (simp add: setStoreMainMeta_def)
  have okk: "ok (ERR_OK, [])" by (simp add: ok_def)
  show ?thesis
    using db i pre rd mi okk
    by (auto simp: destroyStore_def Let_def w destroy_def replStopStore_def indexStopStore_def
        dest: failing_Some_not_ok split: option.splits)
qed

text \<open>
  Claim C2. For a store that the segment manager hands out: \<^verbatim>\<open>destroyStore\<close> on a
  non-empty store without \<^verbatim>\<open>force\<close> returns INTERNAL
  \<^verbatim>\<open>try to close an unempty store\<close>, and on a store that is not paused it returns
  INTERNAL, both with the server unchanged; when the catalog write of \<^verbatim>\<open>STORE_NONE\<close>
  fails, its status is returned and neither the store nor the catalog has changed.
  Whenever the function returns, either \<^verbatim>\<open>store.destroy()\<close> was never called, the
  stores are untouched and the status is a failure, or the preconditions held and the
  catalog was set to \<^verbatim>\<open>STORE_NONE\<close> before \<^verbatim>\<open>store.destroy()\<close>; and when the status is
  OK, \<^verbatim>\<open>destroy\<close> is followed by \<^verbatim>\<open>stopStore\<close> of the replication manager and then of
  the index manager.

  The success path is taken: for a paused store that is empty or forced, when the catalog
  holds the meta, the catalog write, \<^verbatim>\<open>store.destroy()\<close> and both \<^verbatim>\<open>stopStore\<close> calls
  succeed and the index manager exists, the function returns OK, the catalog holds
  \<^verbatim>\<open>STORE_NONE\<close> for the store id, the store is destroyed, nothing else of the server has
  changed, and the calls were made in the order catalog write, \<^verbatim>\<open>destroy\<close>,
  \<^verbatim>\<open>replMgr.stopStore\<close>, \<^verbatim>\<open>indexMgr.stopStore\<close>. On a server that has no index manager
  (\<^verbatim>\<open>cfg->noexpire\<close>) the same call does not return: the store is destroyed, the
  replication manager is stopped and the null \<^verbatim>\<open>_indexMgr\<close> is dereferenced. A failure
  of the catalog read leaves the server unchanged, and a failure of \<^verbatim>\<open>destroy\<close> or of
  either \<^verbatim>\<open>stopStore\<close> is returned with what was done before it.
\<close>

theorem destroyStore_order:
  assumes db: "segGetDb env st storeId = Inr i" and i: "i < length (kvstores st)"
  shows "(\<not> isForce \<and> \<not> isEmpty (kvstores st ! i) \<longrightarrow>
            destroyStore env st storeId isForce
              = Inr ((ERR_INTERNAL, ''try to close an unempty store''), st))
    \<and> ((isForce \<or> isEmpty (kvstores st ! i)) \<and> \<not> isPaused (kvstores st ! i) \<longrightarrow>
            destroyStore env st storeId isForce
              = Inr ((ERR_INTERNAL, ''please pausestore first before destroystore''), st))
    \<and> (\<forall>meta s. (isForce \<or> isEmpty (kvstores st ! i)) \<and> isPaused (kvstores st ! i)
            \<and> getStoreMainMeta (catalog st) storeId = Inr meta
            \<and> failing (writeFault (catalog st)) = Some s \<longrightarrow>
            destroyStore env st storeId isForce
              = Inr (s, st\<lparr>trace := trace st @ [SetStoreMainMeta storeId STORE_NONE]\<rparr>))
    \<and> (\<forall>s st'. destroyStore env st storeId isForce = Inr (s, st') \<longrightarrow>
            (kvstores st' = kvstores st
               \<and> (trace st' = trace st
                    \<or> trace st' = trace st @ [SetStoreMainMeta storeId STORE_NONE])
               \<and> \<not> ok s)
          \<or> ((isForce \<or> isEmpty (kvstores st ! i)) \<and> isPaused (kvstores st ! i)
               \<and> metas (catalog st') storeId = Some STORE_NONE
               \<and> (\<exists>t. trace st'
                          = trace st @ SetStoreMainMeta storeId STORE_NONE # StoreDestroy i # t
                      \<and> (ok s \<longrightarrow> t = [ReplStopStore storeId, IndexStopStore storeId]
                                   \<and> destroyed (kvstores st' ! i)))))
    \<and> (\<forall>s. (isForce \<or> isEmpty (kvstores st ! i)) \<and> isPaused (kvstores st ! i)
            \<and> getStoreMainMeta (catalog st) storeId = Inl s \<longrightarrow>
            destroyStore env st storeId isForce = Inr (s, st))
    \<and> (\<forall>meta im. (isForce \<or> isEmpty (kvstores st ! i)) \<and> isPaused (kvstores st ! i)
            \<and> getStoreMainMeta (catalog st) storeId = Inr meta
            \<and> failing (writeFault (catalog st)) = None
            \<and> failing (destroyFault (kvstores st ! i)) = None
            \<and> failing (replStopFault (replMgr st)) = None
            \<and> indexMgr st = Some im
            \<and> failing (indexStopFault im) = None \<longrightarrow>
            destroyStore env st storeId isForce
              = Inr ((ERR_OK, []),
                     st\<lparr>catalog := (catalog st)
                          \<lparr>metas := (metas (catalog st))(storeId \<mapsto> STORE_NONE)\<rparr>,
                        kvstores := (kvstores st)
                          [i := (kvstores st ! i)\<lparr>mode := STORE_NONE, destroyed := True\<rparr>],
                        trace := trace st @ [SetStoreMainMeta storeId STORE_NONE, StoreDestroy i,
                                            ReplStopStore storeId, IndexStopStore storeId]\<rparr>))
    \<and> (\<forall>meta. (isForce \<or> isEmpty (kvstores st ! i)) \<and> isPaused (kvstores st ! i)
            \<and> getStoreMainMeta (catalog st) storeId = Inr meta
            \<and> failing (writeFault (catalog st)) = None
            \<and> failing (destroyFault (kvstores st ! i)) = None
            \<and> failing (replStopFault (replMgr st)) = None
            \<and> indexMgr st = None \<longrightarrow>
            destroyStore env st storeId isForce = Inl Undefined)
    \<and> (\<forall>meta s. (isForce \<or> isEmpty (kvstores st ! i)) \<and> isPaused (kvstores st ! i)
            \<and> getStoreMainMeta (catalog st) storeId = Inr meta
            \<and> failing (writeFault (catalog st)) = None
            \<and> failing (destroyFault (kvstores st ! i)) = Some s \<longrightarrow>
            destroyStore env st storeId isForce
              = Inr (s,
                     st\<lparr>catalog := (catalog st)
                          \<lparr>metas := (metas (catalog st))(storeId \<mapsto> STORE_NONE)\<rparr>,
                        trace := trace st
                          @ [SetStoreMainMeta storeId STORE_NONE, StoreDestroy i]\<rparr>))
    \<and> (\<forall>meta s. (isForce \<or> isEmpty (kvstores st ! i)) \<and> isPaused (kvstores st ! i)
            \<and> getStoreMainMeta (catalog st) storeId = Inr meta
            \<and> failing (writeFault (catalog st)) = None
            \<and> failing (destroyFault (kvstores st ! i)) = None
            \<and> failing (replStopFault (replMgr st)) = Some s \<longrightarrow>
            destroyStore env st storeId isForce
              = Inr (s,
                     st\<lparr>catalog := (catalog st)
                          \<lparr>metas := (metas (catalog st))(storeId \<mapsto> STORE_NONE)\<rparr>,
                        kvstores := (kvstores st)
                          [i := (kvstores st ! i)\<lparr>mode := STORE_NONE, destroyed := True\<rparr>],
                        trace := trace st @ [SetStoreMainMeta storeId STORE_NONE, StoreDestroy i,
                                            ReplStopStore storeId]\<rparr>))
    \<and> (\<forall>meta im s. (isForce \<or> isEmpty (kvstores st ! i)) \<and> isPaused (kvstores st ! i)
            \<and> getStoreMainMeta (catalog st) storeId = Inr meta
            \<and> failing (writeFault (catalog st)) = None
            \<and> failing (destroyFault (kvstores st ! i)) = None
            \<and> failing (replStopFault (replMgr st)) = None
            \<and> indexMgr st = Some im
            \<and> failing (indexStopFault im) = Some s \<longrightarrow>
            destroyStore env st storeId isForce
              = Inr (s,
                     st\<lparr>catalog := (catalog st)
                          \<lparr>metas := (metas (catalog st))(storeId \<mapsto> STORE_NONE)\<rparr>,
                        kvstores := (kvstores st)
                          [i := (kvstores st ! i)\<lparr>mode := STORE_NONE, destroyed := True\<rparr>],
                        trace := trace st @ [SetStoreMainMeta storeId STORE_NONE, StoreDestroy i,
                                            ReplStopStore storeId, IndexStopStore storeId]\<rparr>))"
proof (intro conjI allI impI)
  assume "\<not> isForce \<and> \<not> isEmpty (kvstores st ! i)"
  then show "destroyStore env st storeId isForce
      = Inr ((ERR_INTERNAL, ''try to close an unempty store''), st)"
    by (rule destroyStore_early(1) [OF db i])
next
  assume "(isForce \<or> isEmpty (kvstores st ! i)) \<and> \<not> isPaused (kvstores st ! i)"
  then show "destroyStore env st storeId isForce
      = Inr ((ERR_INTERNAL, ''please pausestore first before destroystore''), st)"
    by (rule destroyStore_early(2) [OF db i])
next
  fix meta s
  assume "(isForce \<or> isEmpty (kvstores st ! i)) \<and> isPaused (kvstores st ! i)
            \<and> getStoreMainMeta (catalog st) storeId = Inr meta
            \<and> failing (writeFault (catalog st)) = Some s"
  then show "destroyStore env st storeId isForce
      = Inr (s, st\<lparr>trace := trace st @ [SetStoreMainMeta storeId STORE_NONE]\<rparr>)"
    using destroyStore_write_fails [OF db i] by blast
next
  fix s st'
  assume "destroyStore env st storeId isForce = Inr (s, st')"
  then show "(kvstores st' = kvstores st
               \<and> (trace st' = trace st
                    \<or> trace st' = trace st @ [SetStoreMainMeta storeId STORE_NONE])
               \<and> \<not> ok s)
          \<or> ((isForce \<or> isEmpty (kvstores st ! i)) \<and> isPaused (kvstores st ! i)
               \<and> metas (catalog st') storeId = Some STORE_NONE
               \<and> (\<exists>t. trace st'
                          = trace st @ SetStoreMainMeta storeId STORE_NONE # StoreDestroy i # t
                      \<and> (ok s \<longrightarrow> t = [ReplStopStore storeId, IndexStopStore storeId]
                                   \<and> destroyed (kvstores st' ! i))))"
    by (rule destroyStore_returns [OF db i])
next
  fix s
  assume "(isForce \<or> isEmpty (kvstores st ! i)) \<and> isPaused (kvstores st ! i)
            \<and> getStoreMainMeta (catalog st) storeId = Inl s"
  then show "destroyStore env st storeId isForce = Inr (s, st)"
    by (rule destroyStore_early(3) [OF db i])
next
  fix meta im
  assume h: "(isForce \<or> isEmpty (kvstores st ! i)) \<and> isPaused (kvstores st ! i)
            \<and> getStoreMainMeta (catalog st) storeId = Inr meta
            \<and> failing (writeFault (catalog st)) = None
            \<and> failing (destroyFault (kvstores st ! i)) = None
            \<and> failing (replStopFault (replMgr st)) = None
            \<and> indexMgr st = Some im
            \<and> failing (indexStopFault im) = None"
  then have e: "isForce \<or> isEmpty (kvstores st ! i)" "isPaused (kvstores st ! i)"
    "getStoreMainMeta (catalog st) storeId = Inr meta"
    "failing (writeFault (catalog st)) = None"
    by simp_all
  from h destroyStore_read_ok [OF db i e] show "destroyStore env st storeId isForce
              = Inr ((ERR_OK, []),
                     st\<lparr>catalog := (catalog st)
                          \<lparr>metas := (metas (catalog st))(storeId \<mapsto> STORE_NONE)\<rparr>,
                        kvstores := (kvstores st)
                          [i := (kvstores st ! i)\<lparr>mode := STORE_NONE, destroyed := True\<rparr>],
                        trace := trace st @ [SetStoreMainMeta storeId STORE_NONE, StoreDestroy i,
                                            ReplStopStore storeId, IndexStopStore storeId]\<rparr>)"
    by (simp add: Let_def)
next
  fix meta
  assume h: "(isForce \<or> isEmpty (kvstores st ! i)) \<and> isPaused (kvstores st ! i)
            \<and> getStoreMainMeta (catalog st) storeId = Inr meta
            \<and> failing (writeFault (catalog st)) = None
            \<and> failing (destroyFault (kvstores st ! i)) = None
            \<and> failing (replStopFault (replMgr st)) = None
            \<and> indexMgr st = None"
  then have e: "isForce \<or> isEmpty (kvstores st ! i)" "isPaused (kvstores st ! i)"
    "getStoreMainMeta (catalog st) storeId = Inr meta"
    "failing (writeFault (catalog st)) = None"
    by simp_all
  from h destroyStore_read_ok [OF db i e] show "destroyStore env st storeId isForce = Inl Undefined"
    by (simp add: Let_def)
next
  fix meta s
  assume h: "(isForce \<or> isEmpty (kvstores st ! i)) \<and> isPaused (kvstores st ! i)
            \<and> getStoreMainMeta (catalog st) storeId = Inr meta
            \<and> failing (writeFault (catalog st)) = None
            \<and> failing (destroyFault (kvstores st ! i)) = Some s"
  then have e: "isForce \<or> isEmpty (kvstores st ! i)" "isPaused (kvstores st ! i)"
    "getStoreMainMeta (catalog st) storeId = Inr meta"
    "failing (writeFault (catalog st)) = None"
    by simp_all
  from h destroyStore_read_ok [OF db i e] show "destroyStore env st storeId isForce
              = Inr (s,
                     st\<lparr>catalog := (catalog st)
                          \<lparr>metas := (metas (catalog st))(storeId \<mapsto> STORE_NONE)\<rparr>,
                        trace := trace st
                          @ [SetStoreMainMeta storeId STORE_NONE, StoreDestroy i]\<rparr>)"
    by (simp add: Let_def)
next
  fix meta s
  assume h: "(isForce \<or> isEmpty (kvstores st ! i)) \<and> isPaused (kvstores st ! i)
            \<and> getStoreMainMeta (catalog st) storeId = Inr meta
            \<and> failing (writeFault (catalog st)) = None
            \<and> failing (destroyFault (kvstores st ! i)) = None
            \<and> failing (replStopFault (replMgr st)) = Some s"
  then have e: "isForce \<or> isEmpty (kvstores st ! i)" "isPaused (kvstores st ! i)"
    "getStoreMainMeta (catalog st) storeId = Inr meta"
    "failing (writeFault (catalog st)) = None"
    by simp_all
  from h destroyStore_read_ok [OF db i e] show "destroyStore env st storeId isForce
              = Inr (s,
                     st\<lparr>catalog := (catalog st)
                          \<lparr>metas := (metas (catalog st))(storeId \<mapsto> STORE_NONE)\<rparr>,
                        kvstores := (kvstores st)
                          [i := (kvstores st ! i)\<lparr>mode := STORE_NONE, destroyed := True\<rparr>],
                        trace := trace st @ [SetStoreMainMeta storeId STORE_NONE, StoreDestroy i,
                                            ReplStopStore storeId]\<rparr>)"
    by (simp add: Let_def)
next
  fix meta im s
  assume h: "(isForce \<or> isEmpty (kvstores st ! i)) \<and> isPaused (kvstores st ! i)
            \<and> getStoreMainMeta (catalog st) storeId = Inr meta
            \<and> failing (writeFault (catalog st)) = None
            \<and> failing (destroyFault (kvstores st ! i)) = None
            \<and> failing (replStopFault (replMgr st)) = None
            \<and> indexMgr st = Some im
            \<and> failing (indexStopFault im) = Some s"
  then have e: "isForce \<or> isEmpty (kvstores st ! i)" "isPaused (kvstores st ! i)"
    "getStoreMainMeta (catalog st) storeId = Inr meta"
    "failing (writeFault (catalog st)) = None"
    by simp_all
  from h destroyStore_read_ok [OF db i e] show "destroyStore env st storeId isForce
              = Inr (s,
                     st\<lparr>catalog := (catalog st)
                          \<lparr>metas := (metas (catalog st))(storeId \<mapsto> STORE_NONE)\<rparr>,
                        kvstores := (kvstores st)
                          [i := (kvstores st ! i)\<lparr>mode := STORE_NONE, destroyed := True\<rparr>],
                        trace := trace st @ [SetStoreMainMeta storeId STORE_NONE, StoreDestroy i,
                                            ReplStopStore storeId, IndexStopStore storeId]\<rparr>)"
    by (simp add: Let_def)
qed

text \<open>
  The theorem on shard 2 of the example server, which is paused and empty: the call
  succeeds with the four calls in order, the catalog holds \<^verbatim>\<open>STORE_NONE\<close> for shard 2
  and the store is destroyed. With shard 2 not empty and no \<^verbatim>\<open>force\<close>, and with shard 2
  not paused, the call is refused and nothing changes; with a catalog whose write fails,
  the failure is returned and only the catalog write was attempted; with a store whose
  \<^verbatim>\<open>destroy\<close> fails, the failure is returned after the catalog write; on the same server
  without an index manager the call does not return.
\<close>

theorem destroyStore_order_witness:
  "segGetDb exampleEnv exampleServer 2 = Inr 2
   \<and> 2 < length (kvstores exampleServer)
   \<and> (\<exists>st'. destroyStore exampleEnv exampleServer 2 False = Inr ((ERR_OK, []), st')
        \<and> trace st' = [SetStoreMainMeta 2 STORE_NONE, StoreDestroy 2,
                        ReplStopStore 2, IndexStopStore 2]
        \<and> metas (catalog st') 2 = Some STORE_NONE
        \<and> destroyed (kvstores st' ! 2))
   \<and> destroyStore exampleEnv
        (exampleServer\<lparr>kvstores := [exampleStore ''0'', exampleStore ''1'',
                                      (exampleStore ''2'')\<lparr>isEmptyStore := False\<rparr>]\<rparr>) 2 False
       = Inr ((ERR_INTERNAL, ''try to close an unempty store''),
              exampleServer\<lparr>kvstores := [exampleStore ''0'', exampleStore ''1'',
                                      (exampleStore ''2'')\<lparr>isEmptyStore := False\<rparr>]\<rparr>)
   \<and> destroyStore exampleEnv
        (exampleServer\<lparr>kvstores := [exampleStore ''0'', exampleStore ''1'',
                                      (exampleStore ''2'')\<lparr>paused := False\<rparr>]\<rparr>) 2 True
       = Inr ((ERR_INTERNAL, ''please pausestore first before destroystore''),
              exampleServer\<lparr>kvstores := [exampleStore ''0'', exampleStore ''1'',
                                      (exampleStore ''2'')\<lparr>paused := False\<rparr>]\<rparr>)
   \<and> destroyStore exampleEnv
        (exampleServer\<lparr>catalog := (catalog exampleServer)
           \<lparr>writeFault := Some (ERR_INTERNAL, ''io'')\<rparr>\<rparr>) 2 False
       = Inr ((ERR_INTERNAL, ''io''),
              exampleServer\<lparr>catalog := (catalog exampleServer)
                 \<lparr>writeFault := Some (ERR_INTERNAL, ''io'')\<rparr>,
               trace := [SetStoreMainMeta 2 STORE_NONE]\<rparr>)
   \<and> destroyStore exampleEnv exampleServer 2 False
       = Inr ((ERR_OK, []),
              exampleServer\<lparr>catalog := (catalog exampleServer)
                  \<lparr>metas := (metas (catalog exampleServer))(2 \<mapsto> STORE_NONE)\<rparr>,
                kvstores := [exampleStore ''0'', exampleStore ''1'',
                             (exampleStore ''2'')\<lparr>mode := STORE_NONE, destroyed := True\<rparr>],
                trace := [SetStoreMainMeta 2 STORE_NONE, StoreDestroy 2,
                          ReplStopStore 2, IndexStopStore 2]\<rparr>)
   \<and> destroyStore exampleEnv (exampleServer\<lparr>indexMgr := None\<rparr>) 2 False = Inl Undefined
   \<and> destroyStore exampleEnv
        (exampleServer\<lparr>kvstores := [exampleStore ''0'', exampleStore ''1'',
            (exampleStore ''2'')\<lparr>destroyFault := Some (ERR_INTERNAL, ''io'')\<rparr>]\<rparr>) 2 False
       = Inr ((ERR_INTERNAL, ''io''),
              exampleServer\<lparr>catalog := (catalog exampleServer)
                  \<lparr>metas := (metas (catalog exampleServer))(2 \<mapsto> STORE_NONE)\<rparr>,
                kvstores := [exampleStore ''0'', exampleStore ''1'',
                  (exampleStore ''2'')\<lparr>destroyFault := Some (ERR_INTERNAL, ''io'')\<rparr>],
                trace := [SetStoreMainMeta 2 STORE_NONE, StoreDestroy 2]\<rparr>)"
proof -
  let ?np = "exampleServer\<lparr>kvstores := [exampleStore ''0'', exampleStore ''1'',
                                      (exampleStore ''2'')\<lparr>paused := False\<rparr>]\<rparr>"
  let ?wf = "exampleServer\<lparr>catalog := (catalog exampleServer)
           \<lparr>writeFault := Some (ERR_INTERNAL, ''io'')\<rparr>\<rparr>"
  have dbn: "segGetDb exampleEnv ?np 2 = Inr 2"
    by (simp add: exampleEnv_def)
  have inp: "2 < length (kvstores ?np)" by simp
  have np: "(True \<or> isEmpty (kvstores ?np ! 2)) \<and> \<not> isPaused (kvstores ?np ! 2)"
    by (simp add: isPaused_def exampleStore_def)
  note notPaused = destroyStore_order [OF dbn inp, of True, THEN conjunct2, THEN conjunct1,
      rule_format, OF np]
  have dbw: "segGetDb exampleEnv ?wf 2 = Inr 2"
    by (simp add: exampleEnv_def exampleServer_def)
  have iw: "2 < length (kvstores ?wf)"
    by (simp add: exampleServer_def)
  have wf: "(False \<or> isEmpty (kvstores ?wf ! 2)) \<and> isPaused (kvstores ?wf ! 2)
      \<and> getStoreMainMeta (catalog ?wf) 2 = Inr \<lparr>metaId = 2, storeMode = READ_WRITE\<rparr>
      \<and> failing (writeFault (catalog ?wf)) = Some (ERR_INTERNAL, ''io'')"
    by (simp add: isEmpty_def isPaused_def exampleStore_def exampleServer_def
        getStoreMainMeta_def failing_def ok_def)
  have tw: "trace ?wf = []" by (simp add: exampleServer_def)
  note writeFails = destroyStore_order [OF dbw iw, of False, THEN conjunct2, THEN conjunct2,
      THEN conjunct1, rule_format, OF wf, unfolded tw append_Nil]
  let ?ne = "exampleServer\<lparr>kvstores := [exampleStore ''0'', exampleStore ''1'',
                                      (exampleStore ''2'')\<lparr>isEmptyStore := False\<rparr>]\<rparr>"
  have db: "segGetDb exampleEnv exampleServer 2 = Inr 2"
    by (simp add: exampleEnv_def exampleServer_def)
  have i: "2 < length (kvstores exampleServer)"
    by (simp add: exampleServer_def)
  have db': "segGetDb exampleEnv ?ne 2 = Inr 2"
    by (simp add: exampleEnv_def)
  have i': "2 < length (kvstores ?ne)" by simp
  have ne: "\<not> False \<and> \<not> isEmpty (kvstores ?ne ! 2)"
    by (simp add: isEmpty_def exampleStore_def)
  note refused = destroyStore_order [OF db' i', of False, THEN conjunct1, rule_format, OF ne]
  have k: "kvstores exampleServer ! 2 = exampleStore ''2''" "trace exampleServer = []"
    by (simp_all add: exampleServer_def)
  have kl: "(kvstores exampleServer)[2 := x]
      = [exampleStore ''0'', exampleStore ''1'', x]" for x
    by (simp add: exampleServer_def)
  have ok6: "(False \<or> isEmpty (kvstores exampleServer ! 2))
      \<and> isPaused (kvstores exampleServer ! 2)
      \<and> getStoreMainMeta (catalog exampleServer) 2 = Inr \<lparr>metaId = 2, storeMode = READ_WRITE\<rparr>
      \<and> failing (writeFault (catalog exampleServer)) = None
      \<and> failing (destroyFault (kvstores exampleServer ! 2)) = None
      \<and> failing (replStopFault (replMgr exampleServer)) = None
      \<and> indexMgr exampleServer = Some \<lparr>indexStopFault = None\<rparr>
      \<and> failing (indexStopFault \<lparr>indexStopFault = None\<rparr>) = None"
    by (simp add: isEmpty_def isPaused_def exampleStore_def exampleServer_def
        getStoreMainMeta_def failing_def)
  note succeeds = destroyStore_order [OF db i, of False, THEN conjunct2, THEN conjunct2,
      THEN conjunct2, THEN conjunct2, THEN conjunct2, THEN conjunct1, rule_format, OF ok6,
      unfolded k kl append_Nil]
  let ?ni = "exampleServer\<lparr>indexMgr := None\<rparr>"
  have dbi: "segGetDb exampleEnv ?ni 2 = Inr 2"
    by (simp add: exampleEnv_def exampleServer_def)
  have ii: "2 < length (kvstores ?ni)"
    by (simp add: exampleServer_def)
  have ni: "(False \<or> isEmpty (kvstores ?ni ! 2)) \<and> isPaused (kvstores ?ni ! 2)
      \<and> getStoreMainMeta (catalog ?ni) 2 = Inr \<lparr>metaId = 2, storeMode = READ_WRITE\<rparr>
      \<and> failing (writeFault (catalog ?ni)) = None
      \<and> failing (destroyFault (kvstores ?ni ! 2)) = None
      \<and> failing (replStopFault (replMgr ?ni)) = None
      \<and> indexMgr ?ni = None"
    by (simp add: isEmpty_def isPaused_def exampleStore_def exampleServer_def
        getStoreMainMeta_def failing_def)
  note noIndex = destroyStore_order [OF dbi ii, of False, THEN conjunct2, THEN conjunct2,
      THEN conjunct2, THEN conjunct2, THEN conjunct2, THEN conjunct2, THEN conjunct1,
      rule_format, OF ni]
  let ?df = "exampleServer\<lparr>kvstores := [exampleStore ''0'', exampleStore ''1'',
            (exampleStore ''2'')\<lparr>destroyFault := Some (ERR_INTERNAL, ''io'')\<rparr>]\<rparr>"
  have dbd: "segGetDb exampleEnv ?df 2 = Inr 2"
    by (simp add: exampleEnv_def)
  have idf: "2 < length (kvstores ?df)" by simp
  have df: "(False \<or> isEmpty (kvstores ?df ! 2)) \<and> isPaused (kvstores ?df ! 2)
      \<and> getStoreMainMeta (catalog ?df) 2 = Inr \<lparr>metaId = 2, storeMode = READ_WRITE\<rparr>
      \<and> failing (writeFault (catalog ?df)) = None
      \<and> failing (destroyFault (kvstores ?df ! 2)) = Some (ERR_INTERNAL, ''io'')"
    by (simp add: isEmpty_def isPaused_def exampleStore_def exampleServer_def
        getStoreMainMeta_def failing_def ok_def)
  have cd: "catalog ?df = catalog exampleServer" "trace ?df = []"
    by (simp_all add: exampleServer_def)
  have destroyFails: "destroyStore exampleEnv ?df 2 False
       = Inr ((ERR_INTERNAL, ''io''),
              exampleServer\<lparr>catalog := (catalog exampleServer)
                  \<lparr>metas := (metas (catalog exampleServer))(2 \<mapsto> STORE_NONE)\<rparr>,
                kvstores := [exampleStore ''0'', exampleStore ''1'',
                  (exampleStore ''2'')\<lparr>destroyFault := Some (ERR_INTERNAL, ''io'')\<rparr>],
                trace := [SetStoreMainMeta 2 STORE_NONE, StoreDestroy 2]\<rparr>)"
    using destroyStore_order [OF dbd idf, of False, THEN conjunct2, THEN conjunct2,
      THEN conjunct2, THEN conjunct2, THEN conjunct2, THEN conjunct2, THEN conjunct2,
      THEN conjunct1, rule_format, OF df]
    by (simp add: cd)
  have "\<exists>st'. destroyStore exampleEnv exampleServer 2 False = Inr ((ERR_OK, []), st')"
    using succeeds by blast
  then obtain st' where run: "destroyStore exampleEnv exampleServer 2 False = Inr ((ERR_OK, []), st')"
    by blast
  note ret = destroyStore_order [OF db i, of False, THEN conjunct2, THEN conjunct2,
      THEN conjunct2, THEN conjunct1, rule_format, OF run]
  have okS: "ok (ERR_OK, [])" by (simp add: ok_def)
  from ret okS have "trace st' = [SetStoreMainMeta 2 STORE_NONE, StoreDestroy 2,
                        ReplStopStore 2, IndexStopStore 2]
        \<and> metas (catalog st') 2 = Some STORE_NONE
        \<and> destroyed (kvstores st' ! 2)"
    by (auto simp: k)
  with run db i refused notPaused writeFails succeeds noIndex destroyFails show ?thesis
    by blast
qed

section \<open>Properties of the session registry\<close>

lemma set_eraseFirst: "set (eraseFirst p xs) \<subseteq> set xs"
  by (induction xs) auto

lemma length_eraseFirst: "length xs \<le> Suc (length (eraseFirst p xs))"
  by (induction xs) auto

lemma distinct_map_eraseFirst:
  "distinct (map f xs) \<Longrightarrow> distinct (map f (eraseFirst p xs))"
proof (induction xs)
  case Nil
  then show ?case by simp
next
  case (Cons x xs)
  have "f ` set (eraseFirst p xs) \<subseteq> f ` set xs"
    using set_eraseFirst [of p xs] by blast
  with Cons show ?case by auto
qed

lemma eraseFirst_gone:
  "distinct (map f xs) \<Longrightarrow> v \<notin> f ` set (eraseFirst (\<lambda>x. f x = v) xs)"
proof (induction xs)
  case Nil
  then show ?case by simp
next
  case (Cons x xs)
  then show ?case by auto
qed

lemma registry_inv_addSession:
  assumes inv: "registry_inv st" and run: "addSession st a = Inr (b, st')"
  shows "registry_inv st'"
proof (cases "isRunning st")
  case False
  with run have "st' = st" by (simp add: addSession_def)
  with inv show ?thesis by simp
next
  case True
  let ?i = "sessId (heap st a)"
  from run True have free: "sessions st ?i = None"
    by (auto simp: addSession_def Let_def start_def split: if_splits)
  from run True free have st': "st' = st\<lparr>heap := (heap st)(a := start (heap st a)),
      sessions := (sessions st)(?i \<mapsto> a)\<rparr>"
    by (auto simp: addSession_def Let_def start_def split: if_splits)
  have id: "\<And>x. sessId (heap st' x) = sessId (heap st x)"
    by (simp add: st' start_def)
  have fl: "\<And>x. flagged (heap st' x) = flagged (heap st x)"
    by (simp add: st' start_def flagged_def)
  have mons: "monitors st' = monitors st" by (simp add: st')
  have sess: "sessions st' = (sessions st)(?i \<mapsto> a)" by (simp add: st')
  from inv have k: "\<And>k x. sessions st k = Some x \<Longrightarrow> sessId (heap st x) = k"
    and d: "distinct (monitorIds st)"
    and m: "\<And>x. x \<in> set (monitors st) \<Longrightarrow>
        sessions st (sessId (heap st x)) = Some x \<and> flagged (heap st x)"
    by (auto simp: registry_inv_def)
  have "\<forall>k x. sessions st' k = Some x \<longrightarrow> sessId (heap st' x) = k"
    using k by (auto simp: sess id)
  moreover have "distinct (monitorIds st')"
    using d by (simp add: monitorIds_def mons id)
  moreover have "\<forall>x \<in> set (monitors st').
      sessions st' (sessId (heap st' x)) = Some x \<and> flagged (heap st' x)"
  proof
    fix x
    assume "x \<in> set (monitors st')"
    then have x: "sessions st (sessId (heap st x)) = Some x" "flagged (heap st x)"
      using m by (simp_all add: mons)
    with free have "sessId (heap st x) \<noteq> ?i" by auto
    with x show "sessions st' (sessId (heap st' x)) = Some x \<and> flagged (heap st' x)"
      by (simp add: sess id fl)
  qed
  ultimately show ?thesis by (simp add: registry_inv_def)
qed

lemma registry_inv_DelMonitorNoLock:
  assumes inv: "registry_inv st"
  shows "registry_inv (DelMonitorNoLock st sid)"
proof -
  let ?st' = "DelMonitorNoLock st sid"
  have sub: "set (monitors ?st') \<subseteq> set (monitors st)"
    by (simp add: DelMonitorNoLock_def set_eraseFirst)
  have "distinct (monitorIds ?st')"
    using inv by (simp add: registry_inv_def monitorIds_def DelMonitorNoLock_def
        distinct_map_eraseFirst)
  then show ?thesis
    using inv sub by (auto simp: registry_inv_def DelMonitorNoLock_def)
qed

lemma DelMonitorNoLock_gone:
  assumes inv: "registry_inv st"
  shows "sid \<notin> set (monitorIds (DelMonitorNoLock st sid))"
  using inv eraseFirst_gone [of "\<lambda>m. sessId (heap st m)" "monitors st" sid]
  by (simp add: registry_inv_def monitorIds_def DelMonitorNoLock_def)

lemma AddMonitor_cases:
  "AddMonitor st sid =
     (if sid \<in> set (monitorIds st) then st
      else case sessions st sid of None \<Rightarrow> st
           | Some a \<Rightarrow> st\<lparr>monitors := monitors st @ [a]\<rparr>)"
  by (auto simp: AddMonitor_def monitorIds_def list_ex_iff split: option.splits)

lemma registry_inv_AddMonitor:
  assumes inv: "registry_inv st"
    and fl: "\<forall>a. sessions st sid = Some a \<longrightarrow> flagged (heap st a)"
  shows "registry_inv (AddMonitor st sid)"
proof (cases "sid \<in> set (monitorIds st)")
  case True
  with inv show ?thesis by (simp add: AddMonitor_cases)
next
  case notin: False
  show ?thesis
  proof (cases "sessions st sid")
    case None
    with inv notin show ?thesis by (simp add: AddMonitor_cases)
  next
    case (Some a)
    from inv Some have ida: "sessId (heap st a) = sid"
      by (simp add: registry_inv_def)
    have st': "AddMonitor st sid = st\<lparr>monitors := monitors st @ [a]\<rparr>"
      using notin Some by (simp add: AddMonitor_cases)
    show ?thesis
      using inv notin Some ida fl
      by (auto simp: st' registry_inv_def monitorIds_def)
  qed
qed

lemma AddMonitor_idem:
  assumes inv: "registry_inv st"
  shows "AddMonitor (AddMonitor st sid) sid = AddMonitor st sid"
proof (cases "sid \<in> set (monitorIds st)")
  case True
  then show ?thesis by (simp add: AddMonitor_cases)
next
  case notin: False
  show ?thesis
  proof (cases "sessions st sid")
    case None
    with notin show ?thesis by (simp add: AddMonitor_cases)
  next
    case (Some a)
    from inv Some have ida: "sessId (heap st a) = sid"
      by (simp add: registry_inv_def)
    have st': "AddMonitor st sid = st\<lparr>monitors := monitors st @ [a]\<rparr>"
      using notin Some by (simp add: AddMonitor_cases)
    have "sid \<in> set (monitorIds (st\<lparr>monitors := monitors st @ [a]\<rparr>))"
      using ida by (simp add: monitorIds_def)
    then show ?thesis
      unfolding st' by (subst AddMonitor_cases) simp
  qed
qed

lemma registry_inv_endSession:
  assumes inv: "registry_inv st" and run: "endSession st sid = Inr st'"
  shows "registry_inv st'
    \<and> (isRunning st \<longrightarrow> sessions st' sid = None \<and> sid \<notin> set (monitorIds st'))"
proof (cases "isRunning st")
  case False
  with run have "st' = st" by (simp add: endSession_def)
  with inv False show ?thesis by simp
next
  case True
  from run True obtain a c where a: "sessions st sid = Some a" and c: "ctx (heap st a) = Some c"
    by (auto simp: endSession_def split: option.splits)
  define st1 where "st1 = (if isMonitor c then DelMonitorNoLock st sid else st)"
  from run True a c have st': "st' = st1\<lparr>sessions := (sessions st1)(sid := None)\<rparr>"
    by (simp add: endSession_def Let_def st1_def)
  have inv1: "registry_inv st1"
    using inv by (simp add: st1_def registry_inv_DelMonitorNoLock)
  have gone: "sid \<notin> set (monitorIds st1)"
  proof (cases "isMonitor c")
    case True
    then show ?thesis using DelMonitorNoLock_gone [OF inv] by (simp add: st1_def)
  next
    case False
    show ?thesis
    proof
      assume "sid \<in> set (monitorIds st1)"
      then obtain m where m: "m \<in> set (monitors st)" "sessId (heap st m) = sid"
        using False by (auto simp: st1_def monitorIds_def)
      with inv have "sessions st sid = Some m" "flagged (heap st m)"
        by (auto simp: registry_inv_def)
      with a c False show False by (simp add: flagged_def)
    qed
  qed
  have h: "heap st' = heap st1" "monitors st' = monitors st1" by (simp_all add: st')
  from inv1 have k: "\<And>k x. sessions st1 k = Some x \<Longrightarrow> sessId (heap st1 x) = k"
    and d: "distinct (monitorIds st1)"
    and m: "\<And>x. x \<in> set (monitors st1) \<Longrightarrow>
        sessions st1 (sessId (heap st1 x)) = Some x \<and> flagged (heap st1 x)"
    by (auto simp: registry_inv_def)
  have "\<forall>k x. sessions st' k = Some x \<longrightarrow> sessId (heap st' x) = k"
    using k by (auto simp: st')
  moreover have "distinct (monitorIds st')"
    using d by (simp add: monitorIds_def h)
  moreover have "\<forall>x \<in> set (monitors st').
      sessions st' (sessId (heap st' x)) = Some x \<and> flagged (heap st' x)"
    using m gone by (auto simp: st' monitorIds_def)
  ultimately have "registry_inv st'" by (simp add: registry_inv_def)
  moreover have "sessions st' sid = None" by (simp add: st')
  moreover have "sid \<notin> set (monitorIds st')"
    using gone by (simp add: monitorIds_def h)
  ultimately show ?thesis by simp
qed

lemma registry_inv_registered: "registry_inv st \<Longrightarrow> monitors_registered st"
  by (auto simp: registry_inv_def monitors_registered_def)

lemma eraseFirst_absent: "v \<notin> f ` set xs \<Longrightarrow> eraseFirst (\<lambda>x. f x = v) xs = xs"
  by (induction xs) auto

lemma eraseFirst_filter:
  "distinct (map f xs) \<Longrightarrow> eraseFirst (\<lambda>x. f x = v) xs = filter (\<lambda>x. f x \<noteq> v) xs"
proof (induction xs)
  case Nil
  then show ?case by simp
next
  case (Cons x xs)
  show ?case
  proof (cases "f x = v")
    case True
    with Cons.prems have "v \<notin> f ` set xs" by auto
    then have "filter (\<lambda>x. f x \<noteq> v) xs = xs"
      by (auto simp: filter_id_conv)
    with True show ?thesis by simp
  next
    case False
    with Cons show ?thesis by simp
  qed
qed

lemma length_eraseFirst_present:
  "v \<in> f ` set xs \<Longrightarrow> Suc (length (eraseFirst (\<lambda>x. f x = v) xs)) = length xs"
  by (induction xs) auto

lemma DelMonitorNoLock_filter:
  assumes inv: "registry_inv st"
  shows "DelMonitorNoLock st sid
     = st\<lparr>monitors := filter (\<lambda>m. sessId (heap st m) \<noteq> sid) (monitors st)\<rparr>"
  using inv eraseFirst_filter [of "\<lambda>m. sessId (heap st m)" "monitors st" sid]
  by (simp add: DelMonitorNoLock_def registry_inv_def monitorIds_def)

lemma DelMonitorNoLock_absent:
  "sid \<notin> set (monitorIds st) \<Longrightarrow> DelMonitorNoLock st sid = st"
  using eraseFirst_absent [of sid "\<lambda>m. sessId (heap st m)" "monitors st"]
  by (simp add: DelMonitorNoLock_def monitorIds_def)

lemma DelMonitorNoLock_present:
  "sid \<in> set (monitorIds st) \<Longrightarrow>
   Suc (length (monitors (DelMonitorNoLock st sid))) = length (monitors st)"
  using length_eraseFirst_present [of sid "\<lambda>m. sessId (heap st m)" "monitors st"]
  by (simp add: DelMonitorNoLock_def monitorIds_def)

lemma addSession_cases:
  "addSession st a =
     (if \<not> isRunning st then Inr (False, st)
      else if sessions st (sessId (heap st a)) \<noteq> None then Inl Fatal
      else Inr (True, st\<lparr>heap := (heap st)(a := start (heap st a)),
                          sessions := (sessions st)(sessId (heap st a) \<mapsto> a)\<rparr>))"
  by (simp add: addSession_def Let_def start_def)

lemma endSession_running:
  assumes inv: "registry_inv st" and run: "isRunning st"
    and x: "sessions st sid = Some x" and c: "ctx (heap st x) = Some c"
  shows "endSession st sid
     = Inr (st\<lparr>monitors := (if isMonitor c
                               then filter (\<lambda>m. sessId (heap st m) \<noteq> sid) (monitors st)
                               else monitors st),
               sessions := (sessions st)(sid := None)\<rparr>)"
  using run x c by (simp add: endSession_def Let_def DelMonitorNoLock_filter [OF inv])

text \<open>
  Claim C6 as stated fails: \<^verbatim>\<open>AddMonitor\<close> does not set the monitor flag and
  \<^verbatim>\<open>endSession\<close> removes a session from the monitor list only when the flag is set. On
  the example server, registering session 7 (flag not set), adding it as a monitor and
  ending it leaves it in the monitor list although it is no longer a key of the session
  map.
\<close>

theorem monitors_registered_counterexample:
  "monitors_registered exampleServer
   \<and> addSession exampleServer 7 = Inr (True, exampleRegistered)
   \<and> AddMonitor exampleRegistered 7 = exampleRegistered\<lparr>monitors := [7]\<rparr>
   \<and> endSession (exampleRegistered\<lparr>monitors := [7]\<rparr>) 7
       = Inr (exampleRegistered\<lparr>monitors := [7], sessions := Map.empty\<rparr>)
   \<and> \<not> monitors_registered (exampleRegistered\<lparr>monitors := [7], sessions := Map.empty\<rparr>)"
proof -
  have e: "isRunning exampleServer" "sessions exampleServer = Map.empty"
    "monitors exampleServer = []"
    "heap exampleServer 7 = exampleSession 7 []"
    by (simp_all add: exampleServer_def)
  have r: "isRunning exampleRegistered" "sessions exampleRegistered = [7 \<mapsto> 7]"
    "monitors exampleRegistered = []"
    "heap exampleRegistered 7 = start (exampleSession 7 [])"
    by (simp_all add: exampleRegistered_def e)
  have s: "sessId (start (exampleSession 7 [])) = 7"
    "ctx (start (exampleSession 7 [])) = Some \<lparr>isMonitor = False, ctxDbId = 0\<rparr>"
    by (simp_all add: start_def exampleSession_def)
  have 1: "monitors_registered exampleServer"
    by (simp add: monitors_registered_def monitorIds_def e)
  have 2: "addSession exampleServer 7 = Inr (True, exampleRegistered)"
    by (simp add: addSession_def Let_def e s exampleRegistered_def)
  have 3: "AddMonitor exampleRegistered 7 = exampleRegistered\<lparr>monitors := [7]\<rparr>"
    by (simp add: AddMonitor_def r)
  have 4: "endSession (exampleRegistered\<lparr>monitors := [7]\<rparr>) 7
       = Inr (exampleRegistered\<lparr>monitors := [7], sessions := Map.empty\<rparr>)"
    by (simp add: endSession_def Let_def r s)
  have 5: "\<not> monitors_registered (exampleRegistered\<lparr>monitors := [7], sessions := Map.empty\<rparr>)"
    by (simp add: monitors_registered_def monitorIds_def r s)
  from 1 2 3 4 5 show ?thesis by blast
qed

text \<open>
  Claim C6, as amended. In a registry where every session is registered under its own id
  and every monitor is the session registered under its id and carries the monitor flag
  (the flag is set by the caller of \<^verbatim>\<open>AddMonitor\<close>, not by \<^verbatim>\<open>AddMonitor\<close>), the monitor
  list is duplicate-free by session id and the id of every monitor is a key of the session
  map, and every registry operation keeps it so: \<^verbatim>\<open>addSession\<close>; \<^verbatim>\<open>AddMonitor\<close> of a
  session that carries the flag, which is idempotent, adds nothing when the id is not
  registered and otherwise appends the session once; \<^verbatim>\<open>DelMonitorNoLock\<close>, which removes
  at most one entry and leaves none with that id; and \<^verbatim>\<open>endSession\<close>, after which (on a
  running server) the id is neither a key of the session map nor in the monitor list.

  What each operation does is fixed: \<^verbatim>\<open>DelMonitorNoLock(id)\<close> changes nothing but the
  monitor list, from which it takes the entry whose id is \<open>id\<close> and no other, keeping the
  order of the rest; it changes nothing when no entry has that id and shortens the list
  by exactly one when one has. \<^verbatim>\<open>AddMonitor(id)\<close> changes nothing when the id is already
  in the list or is not registered, and otherwise only appends the registered session.
  \<^verbatim>\<open>addSession\<close> on a running server with a free id starts the session, registers it
  and returns true; it returns false and changes nothing on a stopped server; a taken id
  is fatal. \<^verbatim>\<open>endSession(id)\<close> on a running server takes the session out of the monitor
  list when its context has the monitor flag and erases the id from the session map; it
  changes nothing on a stopped server; an id that is not registered is fatal.
\<close>

theorem registry_inv_preserved:
  assumes inv: "registry_inv st"
  shows "monitors_registered st
    \<and> (\<forall>b st'. addSession st a = Inr (b, st') \<longrightarrow> registry_inv st')
    \<and> ((\<forall>x. sessions st sid = Some x \<longrightarrow> flagged (heap st x)) \<longrightarrow>
          registry_inv (AddMonitor st sid))
    \<and> AddMonitor (AddMonitor st sid) sid = AddMonitor st sid
    \<and> (sessions st sid = None \<longrightarrow> AddMonitor st sid = st)
    \<and> (\<forall>x. sessions st sid = Some x \<and> sid \<notin> set (monitorIds st) \<longrightarrow>
          monitors (AddMonitor st sid) = monitors st @ [x])
    \<and> registry_inv (DelMonitorNoLock st sid)
    \<and> length (monitors st) \<le> Suc (length (monitors (DelMonitorNoLock st sid)))
    \<and> set (monitors (DelMonitorNoLock st sid)) \<subseteq> set (monitors st)
    \<and> sid \<notin> set (monitorIds (DelMonitorNoLock st sid))
    \<and> (\<forall>st'. endSession st sid = Inr st' \<longrightarrow>
          registry_inv st'
          \<and> (isRunning st \<longrightarrow> sessions st' sid = None \<and> sid \<notin> set (monitorIds st')))
    \<and> DelMonitorNoLock st sid
        = st\<lparr>monitors := filter (\<lambda>m. sessId (heap st m) \<noteq> sid) (monitors st)\<rparr>
    \<and> (sid \<notin> set (monitorIds st) \<longrightarrow> DelMonitorNoLock st sid = st)
    \<and> (sid \<in> set (monitorIds st) \<longrightarrow>
          Suc (length (monitors (DelMonitorNoLock st sid))) = length (monitors st))
    \<and> (sid \<in> set (monitorIds st) \<longrightarrow> AddMonitor st sid = st)
    \<and> (\<forall>x. sessions st sid = Some x \<and> sid \<notin> set (monitorIds st) \<longrightarrow>
          AddMonitor st sid = st\<lparr>monitors := monitors st @ [x]\<rparr>)
    \<and> (\<not> isRunning st \<longrightarrow> addSession st a = Inr (False, st))
    \<and> (isRunning st \<and> sessions st (sessId (heap st a)) = None \<longrightarrow>
          addSession st a
            = Inr (True, st\<lparr>heap := (heap st)(a := start (heap st a)),
                            sessions := (sessions st)(sessId (heap st a) \<mapsto> a)\<rparr>))
    \<and> (\<forall>x. isRunning st \<and> sessions st (sessId (heap st a)) = Some x \<longrightarrow>
          addSession st a = Inl Fatal)
    \<and> (\<not> isRunning st \<longrightarrow> endSession st sid = Inr st)
    \<and> (isRunning st \<and> sessions st sid = None \<longrightarrow> endSession st sid = Inl Fatal)
    \<and> (\<forall>x c. isRunning st \<and> sessions st sid = Some x \<and> ctx (heap st x) = Some c \<longrightarrow>
          endSession st sid
            = Inr (st\<lparr>monitors :=
                        (if isMonitor c
                         then filter (\<lambda>m. sessId (heap st m) \<noteq> sid) (monitors st)
                         else monitors st),
                      sessions := (sessions st)(sid := None)\<rparr>))"
proof (intro conjI allI impI)
  show "monitors_registered st"
    using inv by (rule registry_inv_registered)
  show "registry_inv st'" if "addSession st a = Inr (b, st')" for b st'
    using inv that by (rule registry_inv_addSession)
  show "registry_inv (AddMonitor st sid)"
    if "\<forall>x. sessions st sid = Some x \<longrightarrow> flagged (heap st x)"
    using inv that by (rule registry_inv_AddMonitor)
  show "AddMonitor (AddMonitor st sid) sid = AddMonitor st sid"
    using inv by (rule AddMonitor_idem)
  show "AddMonitor st sid = st" if "sessions st sid = None"
    using that by (simp add: AddMonitor_cases)
  show "monitors (AddMonitor st sid) = monitors st @ [x]"
    if "sessions st sid = Some x \<and> sid \<notin> set (monitorIds st)" for x
    using that by (simp add: AddMonitor_cases)
  show "registry_inv (DelMonitorNoLock st sid)"
    using inv by (rule registry_inv_DelMonitorNoLock)
  show "length (monitors st) \<le> Suc (length (monitors (DelMonitorNoLock st sid)))"
    by (simp add: DelMonitorNoLock_def length_eraseFirst)
  show "set (monitors (DelMonitorNoLock st sid)) \<subseteq> set (monitors st)"
    by (simp add: DelMonitorNoLock_def set_eraseFirst)
  show "sid \<notin> set (monitorIds (DelMonitorNoLock st sid))"
    using inv by (rule DelMonitorNoLock_gone)
  show "registry_inv st'" if "endSession st sid = Inr st'" for st'
    using registry_inv_endSession [OF inv that] by simp
  show "sessions st' sid = None" if "endSession st sid = Inr st'" "isRunning st" for st'
    using registry_inv_endSession [OF inv that(1)] that(2) by simp
  show "sid \<notin> set (monitorIds st')" if "endSession st sid = Inr st'" "isRunning st" for st'
    using registry_inv_endSession [OF inv that(1)] that(2) by simp
  show "DelMonitorNoLock st sid
        = st\<lparr>monitors := filter (\<lambda>m. sessId (heap st m) \<noteq> sid) (monitors st)\<rparr>"
    using inv by (rule DelMonitorNoLock_filter)
  show "DelMonitorNoLock st sid = st" if "sid \<notin> set (monitorIds st)"
    using that by (rule DelMonitorNoLock_absent)
  show "Suc (length (monitors (DelMonitorNoLock st sid))) = length (monitors st)"
    if "sid \<in> set (monitorIds st)"
    using that by (rule DelMonitorNoLock_present)
  show "AddMonitor st sid = st" if "sid \<in> set (monitorIds st)"
    using that by (simp add: AddMonitor_cases)
  show "AddMonitor st sid = st\<lparr>monitors := monitors st @ [x]\<rparr>"
    if "sessions st sid = Some x \<and> sid \<notin> set (monitorIds st)" for x
    using that by (simp add: AddMonitor_cases)
  show "addSession st a = Inr (False, st)" if "\<not> isRunning st"
    using that by (simp add: addSession_cases)
  show "addSession st a
            = Inr (True, st\<lparr>heap := (heap st)(a := start (heap st a)),
                            sessions := (sessions st)(sessId (heap st a) \<mapsto> a)\<rparr>)"
    if "isRunning st \<and> sessions st (sessId (heap st a)) = None"
    using that by (simp add: addSession_cases)
  show "addSession st a = Inl Fatal"
    if "isRunning st \<and> sessions st (sessId (heap st a)) = Some x" for x
    using that by (simp add: addSession_cases)
  show "endSession st sid = Inr st" if "\<not> isRunning st"
    using that by (simp add: endSession_def)
  show "endSession st sid = Inl Fatal" if "isRunning st \<and> sessions st sid = None"
    using that by (simp add: endSession_def)
  show "endSession st sid
            = Inr (st\<lparr>monitors :=
                        (if isMonitor c
                         then filter (\<lambda>m. sessId (heap st m) \<noteq> sid) (monitors st)
                         else monitors st),
                      sessions := (sessions st)(sid := None)\<rparr>)"
    if "isRunning st \<and> sessions st sid = Some x \<and> ctx (heap st x) = Some c" for x c
    using that endSession_running [OF inv, of sid x c] by simp
qed

text \<open>
  The amended claim on the example server with session 7 registered and flagged: adding
  it as a monitor and ending it keeps the invariant, and the session leaves both the
  monitor list and the session map; adding the unregistered id 8 as a monitor changes
  nothing; and registering session 7 on the example server keeps the invariant. On the
  example server with the monitors 3 and 5: \<^verbatim>\<open>DelMonitorNoLock(3)\<close> leaves exactly the
  monitor 5, \<^verbatim>\<open>DelMonitorNoLock(9)\<close> changes nothing, \<^verbatim>\<open>AddMonitor(5)\<close> changes nothing,
  and \<^verbatim>\<open>endSession(5)\<close> leaves the monitor 3 and erases the id 5 from the session map.
\<close>

theorem registry_inv_preserved_witness:
  "registry_inv exampleFlagged
   \<and> registry_inv (AddMonitor exampleFlagged 7)
   \<and> monitors (AddMonitor exampleFlagged 7) = [7]
   \<and> (\<exists>st'. endSession (AddMonitor exampleFlagged 7) 7 = Inr st'
        \<and> registry_inv st' \<and> sessions st' 7 = None \<and> 7 \<notin> set (monitorIds st'))
   \<and> AddMonitor exampleFlagged 8 = exampleFlagged
   \<and> registry_inv exampleServer
   \<and> addSession exampleServer 7 = Inr (True, exampleRegistered)
   \<and> registry_inv exampleRegistered
   \<and> registry_inv exampleWatched
   \<and> DelMonitorNoLock exampleWatched 3 = exampleWatched\<lparr>monitors := [5]\<rparr>
   \<and> DelMonitorNoLock exampleWatched 9 = exampleWatched
   \<and> AddMonitor exampleWatched 5 = exampleWatched
   \<and> endSession exampleWatched 5
       = Inr (exampleWatched\<lparr>monitors := [3],
                             sessions := (sessions exampleWatched)(5 := None)\<rparr>)
   \<and> AddMonitor exampleFlagged 7 = exampleFlagged\<lparr>monitors := [7]\<rparr>
   \<and> endSession (exampleFlagged\<lparr>isRunning := False\<rparr>) 7
       = Inr (exampleFlagged\<lparr>isRunning := False\<rparr>)
   \<and> endSession exampleFlagged 8 = Inl Fatal
   \<and> addSession exampleFlagged 7 = Inl Fatal"
proof -
  have e: "isRunning exampleServer" "sessions exampleServer = Map.empty"
    "monitors exampleServer = []"
    "heap exampleServer 7 = exampleSession 7 []"
    by (simp_all add: exampleServer_def)
  have inv0: "registry_inv exampleServer"
    by (simp add: registry_inv_def monitorIds_def e)
  have free: "isRunning exampleServer
      \<and> sessions exampleServer (sessId (heap exampleServer 7)) = None"
    by (simp add: e)
  have add: "addSession exampleServer 7 = Inr (True, exampleRegistered)"
    using registry_inv_preserved [OF inv0, of 7 0] free
    by (simp add: exampleRegistered_def e exampleSession_def)
  note invR = registry_inv_preserved [OF inv0, THEN conjunct2, THEN conjunct1, rule_format, OF add]
  have f: "isRunning exampleFlagged" "sessions exampleFlagged = [7 \<mapsto> 7]"
    "monitors exampleFlagged = []"
    "sessId (heap exampleFlagged 7) = 7"
    "ctx (heap exampleFlagged 7) = Some \<lparr>isMonitor = True, ctxDbId = 0\<rparr>"
    by (simp_all add: exampleFlagged_def exampleRegistered_def exampleServer_def
        start_def exampleSession_def)
  have inv: "registry_inv exampleFlagged"
    by (simp add: registry_inv_def monitorIds_def f)
  have fl: "\<forall>x. sessions exampleFlagged 7 = Some x \<longrightarrow> flagged (heap exampleFlagged x)"
    by (simp add: f flagged_def)
  have none8: "sessions exampleFlagged 8 = None" by (simp add: f)
  note unreg = registry_inv_preserved [OF inv, THEN conjunct2, THEN conjunct2, THEN conjunct2,
      THEN conjunct2, THEN conjunct1, rule_format, OF none8]
  note A = registry_inv_preserved [OF inv, of 7 7]
  from A fl have inv2: "registry_inv (AddMonitor exampleFlagged 7)" by blast
  have notin: "sessions exampleFlagged 7 = Some 7 \<and> 7 \<notin> set (monitorIds exampleFlagged)"
    by (simp add: f monitorIds_def)
  from A notin have mons: "monitors (AddMonitor exampleFlagged 7) = [7]"
    by (simp add: f)
  from A notin have am: "AddMonitor exampleFlagged 7 = exampleFlagged\<lparr>monitors := [7]\<rparr>"
    by (simp add: f)
  have taken: "isRunning exampleFlagged
      \<and> sessions exampleFlagged (sessId (heap exampleFlagged 7)) = Some 7"
    by (simp add: f)
  from A taken have fatalAdd: "addSession exampleFlagged 7 = Inl Fatal"
    by blast
  have gone8: "isRunning exampleFlagged \<and> sessions exampleFlagged 8 = None"
    by (simp add: f)
  from registry_inv_preserved [OF inv, of 7 8] gone8
  have fatalEnd: "endSession exampleFlagged 8 = Inl Fatal"
    by blast
  have invS: "registry_inv (exampleFlagged\<lparr>isRunning := False\<rparr>)"
    using inv by (simp add: registry_inv_def monitorIds_def)
  have stopped: "\<not> isRunning (exampleFlagged\<lparr>isRunning := False\<rparr>)"
    by simp
  from registry_inv_preserved [OF invS, of 7 7] stopped
  have endStopped: "endSession (exampleFlagged\<lparr>isRunning := False\<rparr>) 7
       = Inr (exampleFlagged\<lparr>isRunning := False\<rparr>)"
    by blast
  have "\<exists>st'. endSession (AddMonitor exampleFlagged 7) 7 = Inr st'"
    by (simp add: am endSession_def Let_def f)
  then obtain st' where run: "endSession (AddMonitor exampleFlagged 7) 7 = Inr st'" by blast
  have running: "isRunning (AddMonitor exampleFlagged 7)" by (simp add: am f)
  from registry_inv_preserved [OF inv2, of 7 7] run running
  have ended: "registry_inv st' \<and> sessions st' 7 = None \<and> 7 \<notin> set (monitorIds st')"
    by blast
  have w: "isRunning exampleWatched" "sessions exampleWatched = [3 \<mapsto> 3, 5 \<mapsto> 5]"
    "monitors exampleWatched = [3, 5]"
    "sessId (heap exampleWatched 3) = 3" "sessId (heap exampleWatched 5) = 5"
    "ctx (heap exampleWatched 3) = Some \<lparr>isMonitor = True, ctxDbId = 0\<rparr>"
    "ctx (heap exampleWatched 5) = Some \<lparr>isMonitor = True, ctxDbId = 0\<rparr>"
    by (simp_all add: exampleWatched_def exampleServer_def exampleSession_def)
  have invW: "registry_inv exampleWatched"
    by (simp add: registry_inv_def monitorIds_def w flagged_def)
  note W3 = registry_inv_preserved [OF invW, of 7 3]
  note W5 = registry_inv_preserved [OF invW, of 7 5]
  note W9 = registry_inv_preserved [OF invW, of 7 9]
  from W3 have del3: "DelMonitorNoLock exampleWatched 3 = exampleWatched\<lparr>monitors := [5]\<rparr>"
    by (simp add: w)
  have n9: "9 \<notin> set (monitorIds exampleWatched)"
    by (simp add: monitorIds_def w)
  from W9 n9 have del9: "DelMonitorNoLock exampleWatched 9 = exampleWatched"
    by blast
  have i5: "5 \<in> set (monitorIds exampleWatched)"
    by (simp add: monitorIds_def w)
  from W5 i5 have add5: "AddMonitor exampleWatched 5 = exampleWatched"
    by blast
  have r5: "isRunning exampleWatched \<and> sessions exampleWatched 5 = Some 5
      \<and> ctx (heap exampleWatched 5) = Some \<lparr>isMonitor = True, ctxDbId = 0\<rparr>"
    by (simp add: w)
  from W5 r5 have "endSession exampleWatched 5
       = Inr (exampleWatched\<lparr>monitors :=
                (if isMonitor \<lparr>isMonitor = True, ctxDbId = 0\<rparr>
                 then filter (\<lambda>m. sessId (heap exampleWatched m) \<noteq> 5) (monitors exampleWatched)
                 else monitors exampleWatched),
              sessions := (sessions exampleWatched)(5 := None)\<rparr>)"
    by blast
  then have end5: "endSession exampleWatched 5
       = Inr (exampleWatched\<lparr>monitors := [3],
                             sessions := (sessions exampleWatched)(5 := None)\<rparr>)"
    by (simp add: w)
  from inv inv2 mons run ended unreg inv0 add invR invW del3 del9 add5 end5 am endStopped
    fatalEnd fatalAdd
  show ?thesis by blast
qed

section \<open>Properties of the request dispatcher\<close>

lemma separated_Cons:
  "separated sep (a # r) = (if r = [] then a else a @ sep @ separated sep r)"
  by (cases r) simp_all

lemma quoteArgs_eq:
  "i \<le> length av \<Longrightarrow>
   quoteArgs av i info
     = info @ separated '' '' (map (\<lambda>a. DQUOTE @ a @ DQUOTE) (drop i av))"
proof (induction av i info rule: quoteArgs.induct)
  case (1 av i info)
  show ?case
  proof (cases "i < length av")
    case True
    then have d: "drop i av = av ! i # drop (i + 1) av"
      by (simp add: Cons_nth_drop_Suc)
    have last: "(drop (i + 1) av = []) = (i = length av - 1)"
      using True by auto
    have "quoteArgs av i info
        = quoteArgs av (i + 1)
            (info @ (DQUOTE @ av ! i @ DQUOTE) @ (if i \<noteq> length av - 1 then '' '' else []))"
      using True by (subst quoteArgs.simps) simp
    also have "\<dots> = (info @ (DQUOTE @ av ! i @ DQUOTE) @ (if i \<noteq> length av - 1 then '' '' else []))
        @ separated '' '' (map (\<lambda>a. DQUOTE @ a @ DQUOTE) (drop (i + 1) av))"
      using "1.IH" [OF True] True by simp
    also have "\<dots> = info @ separated '' '' (map (\<lambda>a. DQUOTE @ a @ DQUOTE) (drop i av))"
      unfolding d using last by (simp add: separated_Cons)
    finally show ?thesis .
  next
    case False
    with "1.prems" have "i = length av" by simp
    then show ?thesis by (subst quoteArgs.simps) simp
  qed
qed

lemma foldl_setResponseAt:
  "foldl (\<lambda>s it. setResponseAt s it info) st ms
     = st\<lparr>heap := (\<lambda>a. (heap st a)\<lparr>respBuf :=
              respBuf (heap st a) @ concat (replicate (count_list ms a) info)\<rparr>)\<rparr>"
proof (induction ms arbitrary: st)
  case Nil
  then show ?case by simp
next
  case (Cons m ms)
  have "(\<lambda>a. (heap (setResponseAt st m info) a)\<lparr>respBuf :=
            respBuf (heap (setResponseAt st m info) a) @ concat (replicate (count_list ms a) info)\<rparr>)
      = (\<lambda>a. (heap st a)\<lparr>respBuf :=
            respBuf (heap st a) @ concat (replicate (count_list (m # ms) a) info)\<rparr>)"
    by (rule ext) (simp add: setResponseAt_def setResponse_def)
  then show ?case
    by (simp add: Cons.IH) (simp add: setResponseAt_def)
qed

lemma replyMonitors_eq:
  assumes c: "ctx (heap st sess) = Some pCtx"
  shows "replyMonitors st sess now
     = Inr (st\<lparr>heap := (\<lambda>a. (heap st a)\<lparr>respBuf := respBuf (heap st a)
              @ concat (replicate (count_list (monitors st) a)
                  (monitor_line now (ctxDbId pCtx) (remote (heap st sess))
                     (args (heap st sess))))\<rparr>)\<rparr>)"
proof (cases "monitors st = []")
  case True
  then show ?thesis by (simp add: replyMonitors_def)
next
  case False
  have q: "quoteArgs (args (heap st sess)) 0 info
      = info @ separated '' '' (map (\<lambda>a. DQUOTE @ a @ DQUOTE) (args (heap st sess)))" for info
    using quoteArgs_eq [of 0 "args (heap st sess)" info] by simp
  show ?thesis
    using False c
    by (simp add: replyMonitors_def Let_def q foldl_setResponseAt
        monitor_line_def unat_div unat_mod)
qed

lemma count_list_distinct:
  "distinct ms \<Longrightarrow> count_list ms a = (if a \<in> set ms then 1 else 0)"
  by (induction ms) auto

text \<open>
  Claim C7. \<^verbatim>\<open>processRequest\<close> on a server that is not running, or whose precheck
  fails, appends nothing to any other session's response buffer (a failed precheck only
  appends the error reply to the issuing session). With no monitor,
  \<^verbatim>\<open>replyMonitors\<close> changes nothing. For a running server, a request that passes
  precheck, an issuing session with a context and a duplicate-free monitor list, the
  fan-out returns a server \<open>st1\<close> in which every monitor's response buffer has grown by
  exactly the line
  \<^verbatim>\<open>+<sec>.<usec> [<dbid> <remote>] "arg0" "arg1" ... "argN"\r\n\<close>, built from the
  microsecond clock, the issuing session's database id, remote address and arguments,
  and in which nothing else has changed; and the rest of \<^verbatim>\<open>processRequest\<close> (hijack,
  reply or scheduling of the command) runs on \<open>st1\<close>, that is, after the fan-out.
\<close>

theorem processRequest_monitor_fanout:
  "(\<not> isRunning st \<longrightarrow> processRequest env st sess now = Inr (False, st))
   \<and> (\<forall>e. isRunning st \<and> precheck env st sess = Inl e \<longrightarrow>
          (\<exists>st'. processRequest env st sess now = Inr (True, st')
             \<and> (\<forall>m. m \<noteq> sess \<longrightarrow> heap st' m = heap st m)
             \<and> respBuf (heap st' sess)
                 = respBuf (heap st sess) @ errorReply env (toString env e)))
   \<and> (monitors st = [] \<longrightarrow> replyMonitors st sess now = Inr st)
   \<and> (\<forall>name pCtx. isRunning st \<and> precheck env st sess = Inr name
          \<and> ctx (heap st sess) = Some pCtx \<and> distinct (monitors st) \<longrightarrow>
          (\<exists>st1. replyMonitors st sess now = Inr st1
             \<and> processRequest env st sess now = processResolved env st1 sess name
             \<and> (\<forall>m \<in> set (monitors st).
                    heap st1 m = (heap st m)\<lparr>respBuf := respBuf (heap st m)
                      @ monitor_line now (ctxDbId pCtx) (remote (heap st sess))
                          (args (heap st sess))\<rparr>)
             \<and> (\<forall>a. a \<notin> set (monitors st) \<longrightarrow> heap st1 a = heap st a)
             \<and> st1\<lparr>heap := heap st\<rparr> = st))"
proof (intro conjI allI impI)
  assume "\<not> isRunning st"
  then show "processRequest env st sess now = Inr (False, st)"
    by (simp add: processRequest_def)
next
  fix e
  assume a: "isRunning st \<and> precheck env st sess = Inl e"
  let ?st' = "setResponseAt st sess (errorReply env (toString env e))"
  have "processRequest env st sess now = Inr (True, ?st')"
    using a by (simp add: processRequest_def)
  moreover have "\<forall>m. m \<noteq> sess \<longrightarrow> heap ?st' m = heap st m"
    by (simp add: setResponseAt_def)
  moreover have "respBuf (heap ?st' sess)
      = respBuf (heap st sess) @ errorReply env (toString env e)"
    by (simp add: setResponseAt_def setResponse_def)
  ultimately show "\<exists>st'. processRequest env st sess now = Inr (True, st')
             \<and> (\<forall>m. m \<noteq> sess \<longrightarrow> heap st' m = heap st m)
             \<and> respBuf (heap st' sess)
                 = respBuf (heap st sess) @ errorReply env (toString env e)"
    by blast
next
  assume "monitors st = []"
  then show "replyMonitors st sess now = Inr st"
    by (simp add: replyMonitors_def)
next
  fix name pCtx
  assume a: "isRunning st \<and> precheck env st sess = Inr name
          \<and> ctx (heap st sess) = Some pCtx \<and> distinct (monitors st)"
  let ?line = "monitor_line now (ctxDbId pCtx) (remote (heap st sess)) (args (heap st sess))"
  let ?st1 = "st\<lparr>heap := (\<lambda>a. (heap st a)\<lparr>respBuf := respBuf (heap st a)
              @ concat (replicate (count_list (monitors st) a) ?line)\<rparr>)\<rparr>"
  from a have c: "ctx (heap st sess) = Some pCtx" and d: "distinct (monitors st)" by simp_all
  have r: "replyMonitors st sess now = Inr ?st1"
    using c by (rule replyMonitors_eq)
  have p: "processRequest env st sess now = processResolved env ?st1 sess name"
    using a r by (simp add: processRequest_def)
  have m: "\<forall>m \<in> set (monitors st). heap ?st1 m = (heap st m)\<lparr>respBuf := respBuf (heap st m) @ ?line\<rparr>"
    using d by (simp add: count_list_distinct)
  have n: "\<forall>a. a \<notin> set (monitors st) \<longrightarrow> heap ?st1 a = heap st a"
    using d by (simp add: count_list_distinct)
  have u: "?st1\<lparr>heap := heap st\<rparr> = st" by simp
  show "\<exists>st1. replyMonitors st sess now = Inr st1
             \<and> processRequest env st sess now = processResolved env st1 sess name
             \<and> (\<forall>m \<in> set (monitors st).
                    heap st1 m = (heap st m)\<lparr>respBuf := respBuf (heap st m)
                      @ monitor_line now (ctxDbId pCtx) (remote (heap st sess))
                          (args (heap st sess))\<rparr>)
             \<and> (\<forall>a. a \<notin> set (monitors st) \<longrightarrow> heap st1 a = heap st a)
             \<and> st1\<lparr>heap := heap st\<rparr> = st"
    using r p m n u by (intro exI [of _ ?st1] conjI)
qed

text \<open>
  The theorem on the example server with the monitors 3 and 5, for the command
  \<^verbatim>\<open>set x 1\<close> of session 7 at 12000345 microseconds: both monitors receive the line
  \<^verbatim>\<open>+12.345 [0 10.0.0.7:5000] "set" "x" "1"\<close>, the issuing session receives nothing from
  the fan-out, and the command is then processed on the resulting server. When the server
  is not running nothing changes; an unknown command gives the monitors nothing and the
  issuing session its error reply; without monitors the fan-out changes nothing.
\<close>

theorem processRequest_monitor_fanout_witness:
  "isRunning (exampleMonitored [''set'', ''x'', ''1''])
   \<and> precheck exampleEnv (exampleMonitored [''set'', ''x'', ''1'']) 7 = Inr ''set''
   \<and> distinct (monitors (exampleMonitored [''set'', ''x'', ''1'']))
   \<and> (\<exists>st1. replyMonitors (exampleMonitored [''set'', ''x'', ''1'']) 7 12000345 = Inr st1
        \<and> respBuf (heap st1 3)
            = ''+12.345 [0 10.0.0.7:5000] '' @ DQUOTE @ ''set'' @ DQUOTE @ '' ''
              @ DQUOTE @ ''x'' @ DQUOTE @ '' '' @ DQUOTE @ ''1'' @ DQUOTE @ CRLF
        \<and> respBuf (heap st1 5)
            = ''+12.345 [0 10.0.0.7:5000] '' @ DQUOTE @ ''set'' @ DQUOTE @ '' ''
              @ DQUOTE @ ''x'' @ DQUOTE @ '' '' @ DQUOTE @ ''1'' @ DQUOTE @ CRLF
        \<and> respBuf (heap st1 7) = []
        \<and> processRequest exampleEnv (exampleMonitored [''set'', ''x'', ''1'']) 7 12000345
            = processResolved exampleEnv st1 7 ''set'')
   \<and> processRequest exampleEnv ((exampleMonitored [''set'', ''x'', ''1''])\<lparr>isRunning := False\<rparr>)
        7 12000345
       = Inr (False, (exampleMonitored [''set'', ''x'', ''1''])\<lparr>isRunning := False\<rparr>)
   \<and> (\<exists>st'. processRequest exampleEnv (exampleMonitored [''foo'']) 7 12000345 = Inr (True, st')
        \<and> respBuf (heap st' 3) = [] \<and> respBuf (heap st' 5) = []
        \<and> respBuf (heap st' 7) = ''-ERR unknown command'' @ CRLF)
   \<and> replyMonitors exampleServer 7 12000345 = Inr exampleServer"
proof -
  let ?s = "exampleMonitored [''set'', ''x'', ''1'']"
  have notRunning: "processRequest exampleEnv (?s\<lparr>isRunning := False\<rparr>) 7 12000345
      = Inr (False, ?s\<lparr>isRunning := False\<rparr>)"
    by (rule processRequest_monitor_fanout [THEN conjunct1, rule_format]) simp
  have h: "isRunning (exampleMonitored [''foo''])"
    "heap (exampleMonitored [''foo'']) 7 = exampleSession 7 [''foo'']"
    "heap (exampleMonitored [''foo'']) 3 = exampleSession 3 []"
    "heap (exampleMonitored [''foo'']) 5 = exampleSession 5 []"
    by (simp_all add: exampleMonitored_def exampleServer_def)
  have pfoo: "isRunning (exampleMonitored [''foo''])
      \<and> precheck exampleEnv (exampleMonitored [''foo'']) 7 = Inl (ERR_PARSEPKT, ''unknown command'')"
    by (simp add: exampleEnv_def h exampleSession_def)
  from processRequest_monitor_fanout [of _ exampleEnv 7 12000345, THEN conjunct2, THEN conjunct1,
      rule_format, OF pfoo]
  obtain st' where st': "processRequest exampleEnv (exampleMonitored [''foo'']) 7 12000345 = Inr (True, st')"
    "\<forall>m. m \<noteq> 7 \<longrightarrow> heap st' m = heap (exampleMonitored [''foo'']) m"
    "respBuf (heap st' 7) = respBuf (heap (exampleMonitored [''foo'']) 7)
        @ errorReply exampleEnv (toString exampleEnv (ERR_PARSEPKT, ''unknown command''))"
    by blast
  from st'(2) have "respBuf (heap st' 3) = []" "respBuf (heap st' 5) = []"
    by (simp_all add: h exampleSession_def)
  moreover from st'(3) have "respBuf (heap st' 7) = ''-ERR unknown command'' @ CRLF"
    by (simp add: h exampleSession_def exampleEnv_def)
  ultimately have failed: "\<exists>st'. processRequest exampleEnv (exampleMonitored [''foo'']) 7 12000345
        = Inr (True, st')
      \<and> respBuf (heap st' 3) = [] \<and> respBuf (heap st' 5) = []
      \<and> respBuf (heap st' 7) = ''-ERR unknown command'' @ CRLF"
    using st'(1) by blast
  have noMonitor: "replyMonitors exampleServer 7 12000345 = Inr exampleServer"
    by (rule processRequest_monitor_fanout [THEN conjunct2, THEN conjunct2, THEN conjunct1,
        rule_format]) (simp add: exampleServer_def)
  have f: "isRunning ?s" "monitors ?s = [3, 5]"
    "heap ?s 7 = exampleSession 7 [''set'', ''x'', ''1'']"
    "heap ?s 3 = exampleSession 3 []" "heap ?s 5 = exampleSession 5 []"
    by (simp_all add: exampleMonitored_def exampleServer_def)
  have g: "ctx (exampleSession 7 [''set'', ''x'', ''1'']) = Some \<lparr>isMonitor = False, ctxDbId = 0\<rparr>"
    "args (exampleSession 7 [''set'', ''x'', ''1'']) = [''set'', ''x'', ''1'']"
    "remote (exampleSession 7 [''set'', ''x'', ''1'']) = ''10.0.0.7:5000''"
    "respBuf (exampleSession 7 [''set'', ''x'', ''1'']) = []"
    "respBuf (exampleSession 3 []) = []" "respBuf (exampleSession 5 []) = []"
    by (simp_all add: exampleSession_def)
  have pc: "precheck exampleEnv ?s 7 = Inr ''set''"
    by (simp add: exampleEnv_def f g)
  have line: "monitor_line 12000345 0 ''10.0.0.7:5000'' [''set'', ''x'', ''1'']
      = ''+12.345 [0 10.0.0.7:5000] '' @ DQUOTE @ ''set'' @ DQUOTE @ '' ''
        @ DQUOTE @ ''x'' @ DQUOTE @ '' '' @ DQUOTE @ ''1'' @ DQUOTE @ CRLF"
    by (simp add: monitor_line_def to_string.simps digit_char_def)
  have pre: "isRunning ?s \<and> precheck exampleEnv ?s 7 = Inr ''set''
      \<and> ctx (heap ?s 7) = Some \<lparr>isMonitor = False, ctxDbId = 0\<rparr> \<and> distinct (monitors ?s)"
    by (simp add: f g pc)
  note fan = processRequest_monitor_fanout [of ?s exampleEnv 7 12000345,
      THEN conjunct2, THEN conjunct2, THEN conjunct2, rule_format, OF pre]
  then obtain st1 where st1: "replyMonitors ?s 7 12000345 = Inr st1"
    "processRequest exampleEnv ?s 7 12000345 = processResolved exampleEnv st1 7 ''set''"
    "\<forall>m \<in> set (monitors ?s). heap st1 m = (heap ?s m)\<lparr>respBuf := respBuf (heap ?s m)
        @ monitor_line 12000345 (ctxDbId \<lparr>isMonitor = False, ctxDbId = 0\<rparr>) (remote (heap ?s 7))
            (args (heap ?s 7))\<rparr>"
    "\<forall>a. a \<notin> set (monitors ?s) \<longrightarrow> heap st1 a = heap ?s a"
    by blast
  from st1(3) have "respBuf (heap st1 3)
      = ''+12.345 [0 10.0.0.7:5000] '' @ DQUOTE @ ''set'' @ DQUOTE @ '' ''
        @ DQUOTE @ ''x'' @ DQUOTE @ '' '' @ DQUOTE @ ''1'' @ DQUOTE @ CRLF"
    and "respBuf (heap st1 5)
      = ''+12.345 [0 10.0.0.7:5000] '' @ DQUOTE @ ''set'' @ DQUOTE @ '' ''
        @ DQUOTE @ ''x'' @ DQUOTE @ '' '' @ DQUOTE @ ''1'' @ DQUOTE @ CRLF"
    by (simp_all add: f g line)
  moreover from st1(4) have "respBuf (heap st1 7) = []"
    by (simp add: f g)
  ultimately have "\<exists>st1. replyMonitors ?s 7 12000345 = Inr st1
        \<and> respBuf (heap st1 3)
            = ''+12.345 [0 10.0.0.7:5000] '' @ DQUOTE @ ''set'' @ DQUOTE @ '' ''
              @ DQUOTE @ ''x'' @ DQUOTE @ '' '' @ DQUOTE @ ''1'' @ DQUOTE @ CRLF
        \<and> respBuf (heap st1 5)
            = ''+12.345 [0 10.0.0.7:5000] '' @ DQUOTE @ ''set'' @ DQUOTE @ '' ''
              @ DQUOTE @ ''x'' @ DQUOTE @ '' '' @ DQUOTE @ ''1'' @ DQUOTE @ CRLF
        \<and> respBuf (heap st1 7) = []
        \<and> processRequest exampleEnv ?s 7 12000345 = processResolved exampleEnv st1 7 ''set''"
    using st1(1,2) by blast
  moreover have "distinct (monitors ?s)" by (simp add: f(2))
  ultimately show ?thesis
    using f(1) pc notRunning failed noMonitor by blast
qed

lemma replyMonitors_frame:
  assumes "replyMonitors st sess now = Inr st1"
  shows "st1\<lparr>heap := heap st\<rparr> = st"
    and "\<And>a. (heap st1 a)\<lparr>respBuf := respBuf (heap st a)\<rparr> = heap st a"
proof -
  show "st1\<lparr>heap := heap st\<rparr> = st"
  proof (cases "ctx (heap st sess)")
    case None
    with assms show ?thesis
      by (auto simp: replyMonitors_def split: if_splits)
  next
    case (Some c)
    from replyMonitors_eq [OF Some, of now] assms show ?thesis by auto
  qed
  show "(heap st1 a)\<lparr>respBuf := respBuf (heap st a)\<rparr> = heap st a" for a
  proof (cases "ctx (heap st sess)")
    case None
    with assms show ?thesis
      by (auto simp: replyMonitors_def split: if_splits)
  next
    case (Some c)
    from replyMonitors_eq [OF Some, of now] assms show ?thesis by auto
  qed
qed

lemma replyMonitors_keeps:
  assumes r: "replyMonitors st sess now = Inr st1"
  shows "netSession (heap st1 a) = netSession (heap st a)"
    and "args (heap st1 a) = args (heap st a)"
    and "sock (heap st1 a) = sock (heap st a)"
    and "trace st1 = trace st"
    and "serverStat st1 = serverStat st"
    and "replMgr st1 = replMgr st"
proof -
  note h = replyMonitors_frame(2) [OF r, of a]
  note s = replyMonitors_frame(1) [OF r]
  show "netSession (heap st1 a) = netSession (heap st a)"
    using arg_cong [OF h, of netSession] by simp
  show "args (heap st1 a) = args (heap st a)"
    using arg_cong [OF h, of args] by simp
  show "sock (heap st1 a) = sock (heap st a)"
    using arg_cong [OF h, of sock] by simp
  show "trace st1 = trace st"
    using arg_cong [OF s, of trace] by simp
  show "serverStat st1 = serverStat st"
    using arg_cong [OF s, of serverStat] by simp
  show "replMgr st1 = replMgr st"
    using arg_cong [OF s, of replMgr] by simp
qed

lemma replyMonitors_returns:
  "monitors st = [] \<or> ctx (heap st sess) \<noteq> None \<Longrightarrow> \<exists>st1. replyMonitors st sess now = Inr st1"
  by (auto simp: replyMonitors_def Let_def)

text \<open>
  Claim C1. On a running server, for a network session whose command passes precheck and
  resolves to \<^verbatim>\<open>fullsync\<close> with exactly 4 arguments or to \<^verbatim>\<open>incrsync\<close> with exactly 6
  (the fan-out to the monitors having returned the server \<open>st1\<close>),
  \<^verbatim>\<open>processRequest\<close> moves the socket out of the session by \<^verbatim>\<open>borrowConn\<close> and hands it
  to the replication manager: for \<^verbatim>\<open>fullsync\<close> it calls \<^verbatim>\<open>supplyFullSync\<close> with the
  socket and the arguments 1 to 3 and increments \<^verbatim>\<open>syncFull\<close> by 1; for \<^verbatim>\<open>incrsync\<close> it
  calls \<^verbatim>\<open>registerIncrSync\<close> with the socket and the arguments 1 to 5 and increments
  \<^verbatim>\<open>syncPartialOk\<close> by 1 if it returned true and \<^verbatim>\<open>syncPartialErr\<close> by 1 otherwise; in
  both cases it returns false.
\<close>

theorem processRequest_hijack:
  assumes run: "isRunning st" and net: "netSession (heap st sess)"
    and c: "monitors st = [] \<or> ctx (heap st sess) \<noteq> None"
  shows "\<exists>st1. replyMonitors st sess now = Inr st1
    \<and> (\<forall>a0 a1 a2 a3. precheck env st sess = Inr ''fullsync''
          \<and> args (heap st sess) = [a0, a1, a2, a3] \<longrightarrow>
          processRequest env st sess now
            = Inr (False,
                   st1\<lparr>heap := (heap st1)(sess := (heap st1 sess)\<lparr>sock := None\<rparr>),
                       trace := trace st @ [SupplyFullSync (sock (heap st sess)) a1 a2 a3],
                       serverStat := (serverStat st)
                          \<lparr>syncFull := syncFull (serverStat st) + 1\<rparr>\<rparr>))
    \<and> (\<forall>a0 a1 a2 a3 a4 a5. precheck env st sess = Inr ''incrsync''
          \<and> args (heap st sess) = [a0, a1, a2, a3, a4, a5] \<longrightarrow>
          processRequest env st sess now
            = Inr (False,
                   st1\<lparr>heap := (heap st1)(sess := (heap st1 sess)\<lparr>sock := None\<rparr>),
                       trace := trace st
                          @ [RegisterIncrSync (sock (heap st sess)) a1 a2 a3 a4 a5],
                       serverStat :=
                         (if acceptIncr (replMgr st) a1 a2 a3 a4 a5
                          then (serverStat st)
                                 \<lparr>syncPartialOk := syncPartialOk (serverStat st) + 1\<rparr>
                          else (serverStat st)
                                 \<lparr>syncPartialErr := syncPartialErr (serverStat st) + 1\<rparr>)\<rparr>))"
proof -
  from replyMonitors_returns [OF c]
  obtain st1 where r: "replyMonitors st sess now = Inr st1" by blast
  note k = replyMonitors_keeps [OF r]
  have full: "processRequest env st sess now
      = Inr (False,
             st1\<lparr>heap := (heap st1)(sess := (heap st1 sess)\<lparr>sock := None\<rparr>),
                 trace := trace st @ [SupplyFullSync (sock (heap st sess)) a1 a2 a3],
                 serverStat := (serverStat st)\<lparr>syncFull := syncFull (serverStat st) + 1\<rparr>\<rparr>)"
    if "precheck env st sess = Inr ''fullsync'' \<and> args (heap st sess) = [a0, a1, a2, a3]"
    for a0 a1 a2 a3
    using that run net r
    by (simp add: processRequest_def processResolved_def Let_def borrowConn_def k)
  have incr: "processRequest env st sess now
      = Inr (False,
             st1\<lparr>heap := (heap st1)(sess := (heap st1 sess)\<lparr>sock := None\<rparr>),
                 trace := trace st @ [RegisterIncrSync (sock (heap st sess)) a1 a2 a3 a4 a5],
                 serverStat :=
                   (if acceptIncr (replMgr st) a1 a2 a3 a4 a5
                    then (serverStat st)\<lparr>syncPartialOk := syncPartialOk (serverStat st) + 1\<rparr>
                    else (serverStat st)\<lparr>syncPartialErr := syncPartialErr (serverStat st) + 1\<rparr>)\<rparr>)"
    if "precheck env st sess = Inr ''incrsync'' \<and> args (heap st sess) = [a0, a1, a2, a3, a4, a5]"
    for a0 a1 a2 a3 a4 a5
    using that run net r
    by (simp add: processRequest_def processResolved_def Let_def borrowConn_def k)
  from r full incr show ?thesis by blast
qed

text \<open>
  The theorem on the example server with two monitors: an \<^verbatim>\<open>incrsync\<close> and a
  \<^verbatim>\<open>fullsync\<close> of session 7, whose socket is 9. The replication manager of the example
  accepts every incremental sync; the last case is a manager that refuses it.
\<close>

theorem processRequest_hijack_witness:
  "isRunning (exampleMonitored [''incrsync'', ''0'', ''1'', ''100'', ''10.0.0.9'', ''6379''])
   \<and> precheck exampleEnv
        (exampleMonitored [''incrsync'', ''0'', ''1'', ''100'', ''10.0.0.9'', ''6379'']) 7
       = Inr ''incrsync''
   \<and> (\<exists>st'. processRequest exampleEnv
               (exampleMonitored [''incrsync'', ''0'', ''1'', ''100'', ''10.0.0.9'', ''6379''])
               7 12000345 = Inr (False, st')
        \<and> sock (heap st' 7) = None
        \<and> trace st' = [RegisterIncrSync (Some 9) ''0'' ''1'' ''100'' ''10.0.0.9'' ''6379'']
        \<and> syncPartialOk (serverStat st') = 1
        \<and> syncPartialErr (serverStat st') = 0)
   \<and> precheck exampleEnv (exampleMonitored [''fullsync'', ''0'', ''1'', ''2'']) 7
       = Inr ''fullsync''
   \<and> (\<exists>st'. processRequest exampleEnv (exampleMonitored [''fullsync'', ''0'', ''1'', ''2''])
               7 12000345 = Inr (False, st')
        \<and> sock (heap st' 7) = None
        \<and> trace st' = [SupplyFullSync (Some 9) ''0'' ''1'' ''2'']
        \<and> syncFull (serverStat st') = 1)
   \<and> (\<exists>st'. processRequest exampleEnv
               ((exampleMonitored [''incrsync'', ''0'', ''1'', ''100'', ''10.0.0.9'', ''6379''])
                  \<lparr>replMgr := \<lparr>acceptIncr = (\<lambda>a b c d e. False), replStopFault = None\<rparr>\<rparr>)
               7 12000345 = Inr (False, st')
        \<and> syncPartialOk (serverStat st') = 0
        \<and> syncPartialErr (serverStat st') = 1)"
proof -
  let ?i = "exampleMonitored [''incrsync'', ''0'', ''1'', ''100'', ''10.0.0.9'', ''6379'']"
  let ?r = "?i\<lparr>replMgr := \<lparr>acceptIncr = (\<lambda>a b c d e. False), replStopFault = None\<rparr>\<rparr>"
  let ?f = "exampleMonitored [''fullsync'', ''0'', ''1'', ''2'']"
  have e: "isRunning (exampleMonitored av)" "monitors (exampleMonitored av) = [3, 5]"
    "heap (exampleMonitored av) 7 = exampleSession 7 av"
    "trace (exampleMonitored av) = []"
    "serverStat (exampleMonitored av) = newServerStat 3"
    "acceptIncr (replMgr (exampleMonitored av)) = (\<lambda>a b c d e. True)" for av
    by (simp_all add: exampleMonitored_def exampleServer_def)
  have g: "netSession (exampleSession 7 av)" "args (exampleSession 7 av) = av"
    "sock (exampleSession 7 av) = Some 9"
    "ctx (exampleSession 7 av) \<noteq> None" for av
    by (simp_all add: exampleSession_def)
  have n: "syncPartialOk (newServerStat 3) = 0" "syncPartialErr (newServerStat 3) = 0"
    "syncFull (newServerStat 3) = 0"
    by (simp_all add: newServerStat_def)
  have pi: "precheck exampleEnv ?i 7 = Inr ''incrsync''"
    by (simp add: exampleEnv_def e g)
  have pf: "precheck exampleEnv ?f 7 = Inr ''fullsync''"
    by (simp add: exampleEnv_def e g)
  have c: "monitors (exampleMonitored av) = [] \<or> ctx (heap (exampleMonitored av) 7) \<noteq> None" for av
    by (simp add: e g)
  have net: "netSession (heap (exampleMonitored av) 7)" for av
    by (simp add: e g)
  from processRequest_hijack [OF e(1) net c, of "[''incrsync'', ''0'', ''1'', ''100'', ''10.0.0.9'', ''6379'']" 12000345 exampleEnv]
  obtain st1 where i1: "processRequest exampleEnv ?i 7 12000345
      = Inr (False,
             st1\<lparr>heap := (heap st1)(7 := (heap st1 7)\<lparr>sock := None\<rparr>),
                 trace := [RegisterIncrSync (Some 9) ''0'' ''1'' ''100'' ''10.0.0.9'' ''6379''],
                 serverStat := (newServerStat 3)\<lparr>syncPartialOk := 1\<rparr>\<rparr>)"
    using pi by (auto simp: e g n)
  from processRequest_hijack [OF e(1) net c, of "[''fullsync'', ''0'', ''1'', ''2'']" 12000345 exampleEnv]
  obtain st2 where f1: "processRequest exampleEnv ?f 7 12000345
      = Inr (False,
             st2\<lparr>heap := (heap st2)(7 := (heap st2 7)\<lparr>sock := None\<rparr>),
                 trace := [SupplyFullSync (Some 9) ''0'' ''1'' ''2''],
                 serverStat := (newServerStat 3)\<lparr>syncFull := 1\<rparr>\<rparr>)"
    using pf by (auto simp: e g n)
  have er: "isRunning ?r" "netSession (heap ?r 7)"
    "monitors ?r = [] \<or> ctx (heap ?r 7) \<noteq> None"
    "heap ?r 7 = exampleSession 7 [''incrsync'', ''0'', ''1'', ''100'', ''10.0.0.9'', ''6379'']"
    "trace ?r = []" "serverStat ?r = newServerStat 3"
    by (simp_all add: e g)
  have pr: "precheck exampleEnv ?r 7 = Inr ''incrsync''"
    by (simp add: exampleEnv_def e g)
  from processRequest_hijack [OF er(1,2,3), of 12000345 exampleEnv]
  obtain st3 where r1: "processRequest exampleEnv ?r 7 12000345
      = Inr (False,
             st3\<lparr>heap := (heap st3)(7 := (heap st3 7)\<lparr>sock := None\<rparr>),
                 trace := [RegisterIncrSync (Some 9) ''0'' ''1'' ''100'' ''10.0.0.9'' ''6379''],
                 serverStat := (newServerStat 3)\<lparr>syncPartialErr := 1\<rparr>\<rparr>)"
    using pr by (auto simp: e g n)
  show ?thesis
    using e(1) pi pf by (simp add: i1 f1 r1 n)
qed

lemma replyMonitors_other_buf:
  assumes r: "replyMonitors st sess now = Inr st1" and a: "a \<notin> set (monitors st)"
  shows "heap st1 a = heap st a"
proof (cases "ctx (heap st sess)")
  case None
  with r show ?thesis
    by (auto simp: replyMonitors_def split: if_splits)
next
  case (Some c)
  have "count_list (monitors st) a = 0" using a by (simp add: count_list_0_iff)
  with replyMonitors_eq [OF Some, of now] r show ?thesis by auto
qed

text \<open>
  Claim C3 as stated fails in its last case: a request that passes precheck and resolves
  to \<^verbatim>\<open>fullsync\<close> is neither \<^verbatim>\<open>quit\<close> nor rejected, yet \<^verbatim>\<open>processRequest\<close> returns
  false for it and does not run the command.
\<close>

theorem processRequest_other_counterexample:
  "isRunning (exampleMonitored [''fullsync'', ''0'', ''1'', ''2''])
   \<and> precheck exampleEnv (exampleMonitored [''fullsync'', ''0'', ''1'', ''2'']) 7
       = Inr ''fullsync''
   \<and> ''fullsync'' \<noteq> ''quit''
   \<and> map_sum id fst
        (processRequest exampleEnv (exampleMonitored [''fullsync'', ''0'', ''1'', ''2'']) 7 12000345)
       = Inr False"
proof -
  let ?f = "exampleMonitored [''fullsync'', ''0'', ''1'', ''2'']"
  have e: "isRunning ?f" "monitors ?f = [3, 5]"
    "heap ?f 7 = exampleSession 7 [''fullsync'', ''0'', ''1'', ''2'']"
    by (simp_all add: exampleMonitored_def exampleServer_def)
  have g: "netSession (exampleSession 7 av)" "args (exampleSession 7 av) = av"
    "ctx (exampleSession 7 av) \<noteq> None" for av
    by (simp_all add: exampleSession_def)
  have pf: "precheck exampleEnv ?f 7 = Inr ''fullsync''"
    by (simp add: exampleEnv_def e g)
  have "monitors ?f = [] \<or> ctx (heap ?f 7) \<noteq> None" by (simp add: e g)
  from replyMonitors_returns [OF this]
  obtain st1 where r: "replyMonitors ?f 7 12000345 = Inr st1" by blast
  note k = replyMonitors_keeps [OF r]
  have "map_sum id fst (processRequest exampleEnv ?f 7 12000345) = Inr False"
    using e(1) pf r
    by (simp add: processRequest_def processResolved_def Let_def borrowConn_def k e g)
  with e(1) pf show ?thesis by simp
qed

text \<open>
  Claim C3, as amended. \<^verbatim>\<open>processRequest\<close> returns false and changes nothing when the
  server is not running; when precheck fails it appends an error reply to the session's
  response and returns true; when the resolved command is \<^verbatim>\<open>quit\<close> (on a network
  session, after the fan-out to the monitors) it marks the session close-after-response,
  appends the OK reply and returns true; when the resolved command is \<^verbatim>\<open>fullsync\<close> or
  \<^verbatim>\<open>incrsync\<close> (on a network session, with 4 and 6 arguments) it returns false, sets no
  reply and does not invoke \<^verbatim>\<open>runSessionCmd\<close>: what it returns is the same whatever
  \<^verbatim>\<open>runSessionCmd\<close> is; and in every other case it invokes \<^verbatim>\<open>runSessionCmd\<close> (after the
  fan-out) and returns true, appending to the session's response the returned reply on
  success and a formatted error reply on failure.

  The cases that do not return are those of the source: a \<^verbatim>\<open>fullsync\<close>, \<^verbatim>\<open>incrsync\<close> or
  \<^verbatim>\<open>quit\<close> of a session that is not a network session, a \<^verbatim>\<open>fullsync\<close> without exactly
  4 arguments and an \<^verbatim>\<open>incrsync\<close> without exactly 6 fail the source's \<^verbatim>\<open>INVARIANT\<close>,
  and a fan-out that fails ends the request.
\<close>

theorem processRequest_dispatch:
  "(\<not> isRunning st \<longrightarrow> processRequest env st sess now = Inr (False, st))
   \<and> (\<forall>e. isRunning st \<and> precheck env st sess = Inl e \<longrightarrow>
          processRequest env st sess now
            = Inr (True, setResponseAt st sess (errorReply env (toString env e))))
   \<and> (\<forall>st1. isRunning st \<and> precheck env st sess = Inr ''quit''
          \<and> replyMonitors st sess now = Inr st1 \<and> netSession (heap st sess) \<longrightarrow>
          processRequest env st sess now
            = Inr (True,
                   st1\<lparr>heap := (heap st1)(sess := (heap st1 sess)
                          \<lparr>closeAfterRsp := True,
                           respBuf := respBuf (heap st1 sess) @ fmtOK env\<rparr>)\<rparr>))
   \<and> (\<forall>name st1 r st2. isRunning st \<and> precheck env st sess = Inr name
          \<and> name \<noteq> ''fullsync'' \<and> name \<noteq> ''incrsync'' \<and> name \<noteq> ''quit''
          \<and> replyMonitors st sess now = Inr st1
          \<and> runSessionCmd env st1 sess = (r, st2) \<longrightarrow>
          processRequest env st sess now
            = Inr (True,
                   setResponseAt st2 sess
                     (case r of Inl e \<Rightarrow> fmtErr env (toString env e) | Inr v \<Rightarrow> v)))
   \<and> (\<forall>st1 a0 a1 a2 a3. isRunning st \<and> precheck env st sess = Inr ''fullsync''
          \<and> replyMonitors st sess now = Inr st1 \<and> netSession (heap st sess)
          \<and> args (heap st sess) = [a0, a1, a2, a3] \<longrightarrow>
          processRequest env st sess now
            = Inr (False,
                   st1\<lparr>heap := (heap st1)(sess := (heap st1 sess)\<lparr>sock := None\<rparr>),
                       trace := trace st @ [SupplyFullSync (sock (heap st sess)) a1 a2 a3],
                       serverStat := (serverStat st)
                          \<lparr>syncFull := syncFull (serverStat st) + 1\<rparr>\<rparr>))
   \<and> (\<forall>st1 a0 a1 a2 a3 a4 a5. isRunning st \<and> precheck env st sess = Inr ''incrsync''
          \<and> replyMonitors st sess now = Inr st1 \<and> netSession (heap st sess)
          \<and> args (heap st sess) = [a0, a1, a2, a3, a4, a5] \<longrightarrow>
          processRequest env st sess now
            = Inr (False,
                   st1\<lparr>heap := (heap st1)(sess := (heap st1 sess)\<lparr>sock := None\<rparr>),
                       trace := trace st
                          @ [RegisterIncrSync (sock (heap st sess)) a1 a2 a3 a4 a5],
                       serverStat :=
                         (if acceptIncr (replMgr st) a1 a2 a3 a4 a5
                          then (serverStat st)
                                 \<lparr>syncPartialOk := syncPartialOk (serverStat st) + 1\<rparr>
                          else (serverStat st)
                                 \<lparr>syncPartialErr := syncPartialErr (serverStat st) + 1\<rparr>)\<rparr>))
   \<and> (\<forall>name f. precheck env st sess = Inr name
          \<and> (name = ''fullsync'' \<or> name = ''incrsync'' \<or> name = ''quit'') \<longrightarrow>
          processRequest (env\<lparr>runSessionCmd := f\<rparr>) st sess now
            = processRequest env st sess now)
   \<and> (\<forall>name st1. isRunning st \<and> precheck env st sess = Inr name
          \<and> (name = ''fullsync'' \<or> name = ''incrsync'' \<or> name = ''quit'')
          \<and> replyMonitors st sess now = Inr st1 \<and> \<not> netSession (heap st sess) \<longrightarrow>
          processRequest env st sess now = Inl InvariantFailed)
   \<and> (\<forall>st1. isRunning st \<and> precheck env st sess = Inr ''fullsync''
          \<and> replyMonitors st sess now = Inr st1 \<and> length (args (heap st sess)) \<noteq> 4 \<longrightarrow>
          processRequest env st sess now = Inl InvariantFailed)
   \<and> (\<forall>st1. isRunning st \<and> precheck env st sess = Inr ''incrsync''
          \<and> replyMonitors st sess now = Inr st1 \<and> length (args (heap st sess)) \<noteq> 6 \<longrightarrow>
          processRequest env st sess now = Inl InvariantFailed)
   \<and> (\<forall>name a. isRunning st \<and> precheck env st sess = Inr name
          \<and> replyMonitors st sess now = Inl a \<longrightarrow>
          processRequest env st sess now = Inl a)"
proof (intro conjI allI impI)
  assume "\<not> isRunning st"
  then show "processRequest env st sess now = Inr (False, st)"
    by (simp add: processRequest_def)
next
  fix e
  assume "isRunning st \<and> precheck env st sess = Inl e"
  then show "processRequest env st sess now
      = Inr (True, setResponseAt st sess (errorReply env (toString env e)))"
    by (simp add: processRequest_def)
next
  fix st1
  assume a: "isRunning st \<and> precheck env st sess = Inr ''quit''
          \<and> replyMonitors st sess now = Inr st1 \<and> netSession (heap st sess)"
  then have r: "replyMonitors st sess now = Inr st1" by simp
  note k = replyMonitors_keeps [OF r]
  show "processRequest env st sess now
      = Inr (True,
             st1\<lparr>heap := (heap st1)(sess := (heap st1 sess)
                    \<lparr>closeAfterRsp := True,
                     respBuf := respBuf (heap st1 sess) @ fmtOK env\<rparr>)\<rparr>)"
    using a
    by (simp add: processRequest_def processResolved_def Let_def k
        setCloseAfterRsp_def setResponse_def)
next
  fix name st1 r st2
  assume a: "isRunning st \<and> precheck env st sess = Inr name
          \<and> name \<noteq> ''fullsync'' \<and> name \<noteq> ''incrsync'' \<and> name \<noteq> ''quit''
          \<and> replyMonitors st sess now = Inr st1
          \<and> runSessionCmd env st1 sess = (r, st2)"
  then show "processRequest env st sess now
      = Inr (True,
             setResponseAt st2 sess
               (case r of Inl e \<Rightarrow> fmtErr env (toString env e) | Inr v \<Rightarrow> v))"
    by (cases r) (simp_all add: processRequest_def processResolved_def)
next
  fix st1 a0 a1 a2 a3
  assume a: "isRunning st \<and> precheck env st sess = Inr ''fullsync''
          \<and> replyMonitors st sess now = Inr st1 \<and> netSession (heap st sess)
          \<and> args (heap st sess) = [a0, a1, a2, a3]"
  then have r: "replyMonitors st sess now = Inr st1" by simp
  note k = replyMonitors_keeps [OF r]
  show "processRequest env st sess now
      = Inr (False,
             st1\<lparr>heap := (heap st1)(sess := (heap st1 sess)\<lparr>sock := None\<rparr>),
                 trace := trace st @ [SupplyFullSync (sock (heap st sess)) a1 a2 a3],
                 serverStat := (serverStat st)\<lparr>syncFull := syncFull (serverStat st) + 1\<rparr>\<rparr>)"
    using a
    by (simp add: processRequest_def processResolved_def Let_def borrowConn_def k)
next
  fix st1 a0 a1 a2 a3 a4 a5
  assume a: "isRunning st \<and> precheck env st sess = Inr ''incrsync''
          \<and> replyMonitors st sess now = Inr st1 \<and> netSession (heap st sess)
          \<and> args (heap st sess) = [a0, a1, a2, a3, a4, a5]"
  then have r: "replyMonitors st sess now = Inr st1" by simp
  note k = replyMonitors_keeps [OF r]
  show "processRequest env st sess now
      = Inr (False,
             st1\<lparr>heap := (heap st1)(sess := (heap st1 sess)\<lparr>sock := None\<rparr>),
                 trace := trace st @ [RegisterIncrSync (sock (heap st sess)) a1 a2 a3 a4 a5],
                 serverStat :=
                   (if acceptIncr (replMgr st) a1 a2 a3 a4 a5
                    then (serverStat st)\<lparr>syncPartialOk := syncPartialOk (serverStat st) + 1\<rparr>
                    else (serverStat st)\<lparr>syncPartialErr := syncPartialErr (serverStat st) + 1\<rparr>)\<rparr>)"
    using a
    by (simp add: processRequest_def processResolved_def Let_def borrowConn_def k)
next
  fix name f
  assume "precheck env st sess = Inr name
          \<and> (name = ''fullsync'' \<or> name = ''incrsync'' \<or> name = ''quit'')"
  then show "processRequest (env\<lparr>runSessionCmd := f\<rparr>) st sess now
      = processRequest env st sess now"
    by (auto simp: processRequest_def processResolved_def split: sum.splits)
next
  fix name st1
  assume a: "isRunning st \<and> precheck env st sess = Inr name
          \<and> (name = ''fullsync'' \<or> name = ''incrsync'' \<or> name = ''quit'')
          \<and> replyMonitors st sess now = Inr st1 \<and> \<not> netSession (heap st sess)"
  then have r: "replyMonitors st sess now = Inr st1" by simp
  note k = replyMonitors_keeps [OF r]
  show "processRequest env st sess now = Inl InvariantFailed"
    using a by (auto simp: processRequest_def processResolved_def k)
next
  fix st1
  assume a: "isRunning st \<and> precheck env st sess = Inr ''fullsync''
          \<and> replyMonitors st sess now = Inr st1 \<and> length (args (heap st sess)) \<noteq> 4"
  then have r: "replyMonitors st sess now = Inr st1" by simp
  note k = replyMonitors_keeps [OF r]
  show "processRequest env st sess now = Inl InvariantFailed"
    using a by (simp add: processRequest_def processResolved_def Let_def k)
next
  fix st1
  assume a: "isRunning st \<and> precheck env st sess = Inr ''incrsync''
          \<and> replyMonitors st sess now = Inr st1 \<and> length (args (heap st sess)) \<noteq> 6"
  then have r: "replyMonitors st sess now = Inr st1" by simp
  note k = replyMonitors_keeps [OF r]
  show "processRequest env st sess now = Inl InvariantFailed"
    using a by (simp add: processRequest_def processResolved_def Let_def k)
next
  fix name a
  assume "isRunning st \<and> precheck env st sess = Inr name
          \<and> replyMonitors st sess now = Inl a"
  then show "processRequest env st sess now = Inl a"
    by (simp add: processRequest_def)
qed

text \<open>
  The amended claim on the example server with two monitors: a server that is not
  running, an unknown command, \<^verbatim>\<open>quit\<close>, \<^verbatim>\<open>ping\<close> (which succeeds) and \<^verbatim>\<open>set\<close> (which
  the example registry fails) of session 7; a \<^verbatim>\<open>fullsync\<close> and an \<^verbatim>\<open>incrsync\<close> of
  session 7, which return false, leave the response of the session empty and return the
  same under a registry whose \<^verbatim>\<open>runSessionCmd\<close> would stop the server; and a
  \<^verbatim>\<open>fullsync\<close> with two arguments, which fails the \<^verbatim>\<open>INVARIANT\<close>.
\<close>

theorem processRequest_dispatch_witness:
  "processRequest exampleEnv ((exampleMonitored [''ping''])\<lparr>isRunning := False\<rparr>) 7 12000345
     = Inr (False, (exampleMonitored [''ping''])\<lparr>isRunning := False\<rparr>)
   \<and> (\<exists>st'. processRequest exampleEnv (exampleMonitored [''foo'']) 7 12000345 = Inr (True, st')
        \<and> respBuf (heap st' 7) = ''-ERR unknown command'' @ CRLF)
   \<and> (\<exists>st'. processRequest exampleEnv (exampleMonitored [''quit'']) 7 12000345 = Inr (True, st')
        \<and> closeAfterRsp (heap st' 7)
        \<and> respBuf (heap st' 7) = ''+OK'' @ CRLF)
   \<and> (\<exists>st'. processRequest exampleEnv (exampleMonitored [''ping'']) 7 12000345 = Inr (True, st')
        \<and> respBuf (heap st' 7) = ''+PONG'' @ CRLF)
   \<and> (\<exists>st'. processRequest exampleEnv (exampleMonitored [''set'', ''x'', ''1'']) 7 12000345
          = Inr (True, st')
        \<and> respBuf (heap st' 7) = ''-ERR not supported'' @ CRLF)
   \<and> (\<exists>st'. processRequest exampleEnv (exampleMonitored [''fullsync'', ''0'', ''1'', ''2''])
               7 12000345 = Inr (False, st')
        \<and> respBuf (heap st' 7) = []
        \<and> sock (heap st' 7) = None
        \<and> trace st' = [SupplyFullSync (Some 9) ''0'' ''1'' ''2''])
   \<and> (\<exists>st'. processRequest exampleEnv
               (exampleMonitored [''incrsync'', ''0'', ''1'', ''100'', ''10.0.0.9'', ''6379''])
               7 12000345 = Inr (False, st')
        \<and> respBuf (heap st' 7) = []
        \<and> sock (heap st' 7) = None
        \<and> trace st' = [RegisterIncrSync (Some 9) ''0'' ''1'' ''100'' ''10.0.0.9'' ''6379''])
   \<and> processRequest (exampleEnv\<lparr>runSessionCmd := (\<lambda>st a. (Inr ''+X'', st\<lparr>isRunning := False\<rparr>))\<rparr>)
        (exampleMonitored [''fullsync'', ''0'', ''1'', ''2'']) 7 12000345
       = processRequest exampleEnv (exampleMonitored [''fullsync'', ''0'', ''1'', ''2''])
           7 12000345
   \<and> processRequest exampleEnv (exampleMonitored [''fullsync'', ''0'']) 7 12000345
       = Inl InvariantFailed"
proof -
  have e: "isRunning (exampleMonitored av)" "monitors (exampleMonitored av) = [3, 5]"
    "heap (exampleMonitored av) 7 = exampleSession 7 av"
    "trace (exampleMonitored av) = []" for av
    by (simp_all add: exampleMonitored_def exampleServer_def)
  have g: "netSession (exampleSession 7 av)" "args (exampleSession 7 av) = av"
    "ctx (exampleSession 7 av) \<noteq> None" "respBuf (exampleSession 7 av) = []"
    "sock (exampleSession 7 av) = Some 9" for av
    by (simp_all add: exampleSession_def)
  have x: "fmtOK exampleEnv = ''+OK'' @ CRLF" "toString exampleEnv = snd"
    "errorReply exampleEnv = (\<lambda>s. ''-ERR '' @ s @ CRLF)"
    by (simp_all add: exampleEnv_def)
  have ret: "\<exists>st1. replyMonitors (exampleMonitored av) 7 12000345 = Inr st1" for av
    by (rule replyMonitors_returns) (simp add: e g)
  have buf: "heap st1 7 = exampleSession 7 av"
    if "replyMonitors (exampleMonitored av) 7 12000345 = Inr st1" for av st1
    using replyMonitors_other_buf [OF that, of 7] by (simp add: e)
  note D = processRequest_dispatch [where env = exampleEnv and sess = 7 and now = 12000345]
  \<comment> \<open>not running\<close>
  have 1: "processRequest exampleEnv ((exampleMonitored [''ping''])\<lparr>isRunning := False\<rparr>) 7 12000345
      = Inr (False, (exampleMonitored [''ping''])\<lparr>isRunning := False\<rparr>)"
    by (rule D [THEN conjunct1, rule_format]) simp
  \<comment> \<open>precheck fails\<close>
  have pfoo: "isRunning (exampleMonitored [''foo''])
      \<and> precheck exampleEnv (exampleMonitored [''foo'']) 7 = Inl (ERR_PARSEPKT, ''unknown command'')"
    by (simp add: exampleEnv_def e g)
  note D [THEN conjunct2, THEN conjunct1, rule_format, OF pfoo]
  then have 2: "\<exists>st'. processRequest exampleEnv (exampleMonitored [''foo'']) 7 12000345 = Inr (True, st')
        \<and> respBuf (heap st' 7) = ''-ERR unknown command'' @ CRLF"
    by (simp add: setResponseAt_def setResponse_def x e g)
  \<comment> \<open>quit\<close>
  from ret obtain q1 where q1: "replyMonitors (exampleMonitored [''quit'']) 7 12000345 = Inr q1"
    by blast
  have pquit: "isRunning (exampleMonitored [''quit''])
      \<and> precheck exampleEnv (exampleMonitored [''quit'']) 7 = Inr ''quit''
      \<and> replyMonitors (exampleMonitored [''quit'']) 7 12000345 = Inr q1
      \<and> netSession (heap (exampleMonitored [''quit'']) 7)"
    by (simp add: exampleEnv_def e g q1)
  note D [THEN conjunct2, THEN conjunct2, THEN conjunct1, rule_format, OF pquit]
  then have 3: "\<exists>st'. processRequest exampleEnv (exampleMonitored [''quit'']) 7 12000345 = Inr (True, st')
        \<and> closeAfterRsp (heap st' 7) \<and> respBuf (heap st' 7) = ''+OK'' @ CRLF"
    by (simp add: buf [OF q1] g x)
  \<comment> \<open>ping\<close>
  from ret obtain p1 where p1: "replyMonitors (exampleMonitored [''ping'']) 7 12000345 = Inr p1"
    by blast
  have pping: "isRunning (exampleMonitored [''ping''])
      \<and> precheck exampleEnv (exampleMonitored [''ping'']) 7 = Inr ''ping''
      \<and> ''ping'' \<noteq> ''fullsync'' \<and> ''ping'' \<noteq> ''incrsync'' \<and> ''ping'' \<noteq> ''quit''
      \<and> replyMonitors (exampleMonitored [''ping'']) 7 12000345 = Inr p1
      \<and> runSessionCmd exampleEnv p1 7 = (Inr (''+PONG'' @ CRLF), p1)"
    by (simp add: exampleEnv_def e g p1 buf [OF p1])
  note D [THEN conjunct2, THEN conjunct2, THEN conjunct2, THEN conjunct1, rule_format, OF pping]
  then have 4: "\<exists>st'. processRequest exampleEnv (exampleMonitored [''ping'']) 7 12000345 = Inr (True, st')
        \<and> respBuf (heap st' 7) = ''+PONG'' @ CRLF"
    by (simp add: setResponseAt_def setResponse_def buf [OF p1] g)
  \<comment> \<open>a command that fails\<close>
  from ret obtain s1 where s1:
    "replyMonitors (exampleMonitored [''set'', ''x'', ''1'']) 7 12000345 = Inr s1"
    by blast
  have pset: "isRunning (exampleMonitored [''set'', ''x'', ''1''])
      \<and> precheck exampleEnv (exampleMonitored [''set'', ''x'', ''1'']) 7 = Inr ''set''
      \<and> ''set'' \<noteq> ''fullsync'' \<and> ''set'' \<noteq> ''incrsync'' \<and> ''set'' \<noteq> ''quit''
      \<and> replyMonitors (exampleMonitored [''set'', ''x'', ''1'']) 7 12000345 = Inr s1
      \<and> runSessionCmd exampleEnv s1 7 = (Inl (ERR_INTERNAL, ''not supported''), s1)"
    by (simp add: exampleEnv_def e g s1 buf [OF s1])
  note D [THEN conjunct2, THEN conjunct2, THEN conjunct2, THEN conjunct1, rule_format, OF pset]
  then have 5: "\<exists>st'. processRequest exampleEnv (exampleMonitored [''set'', ''x'', ''1'']) 7 12000345
          = Inr (True, st')
        \<and> respBuf (heap st' 7) = ''-ERR not supported'' @ CRLF"
    by (simp add: setResponseAt_def setResponse_def buf [OF s1] g x exampleEnv_def)
  \<comment> \<open>fullsync\<close>
  let ?f = "exampleMonitored [''fullsync'', ''0'', ''1'', ''2'']"
  from ret obtain f1 where f1: "replyMonitors ?f 7 12000345 = Inr f1"
    by blast
  have pfull: "isRunning ?f \<and> precheck exampleEnv ?f 7 = Inr ''fullsync''
      \<and> replyMonitors ?f 7 12000345 = Inr f1 \<and> netSession (heap ?f 7)
      \<and> args (heap ?f 7) = [''fullsync'', ''0'', ''1'', ''2'']"
    by (simp add: exampleEnv_def e g f1)
  note D [THEN conjunct2, THEN conjunct2, THEN conjunct2, THEN conjunct2, THEN conjunct1,
      rule_format, OF pfull]
  then have 6: "\<exists>st'. processRequest exampleEnv ?f 7 12000345 = Inr (False, st')
        \<and> respBuf (heap st' 7) = []
        \<and> sock (heap st' 7) = None
        \<and> trace st' = [SupplyFullSync (Some 9) ''0'' ''1'' ''2'']"
    by (simp add: buf [OF f1] e g)
  \<comment> \<open>incrsync\<close>
  let ?i = "exampleMonitored [''incrsync'', ''0'', ''1'', ''100'', ''10.0.0.9'', ''6379'']"
  from ret obtain i1 where i1: "replyMonitors ?i 7 12000345 = Inr i1"
    by blast
  have pincr: "isRunning ?i \<and> precheck exampleEnv ?i 7 = Inr ''incrsync''
      \<and> replyMonitors ?i 7 12000345 = Inr i1 \<and> netSession (heap ?i 7)
      \<and> args (heap ?i 7) = [''incrsync'', ''0'', ''1'', ''100'', ''10.0.0.9'', ''6379'']"
    by (simp add: exampleEnv_def e g i1)
  note D [THEN conjunct2, THEN conjunct2, THEN conjunct2, THEN conjunct2, THEN conjunct2,
      THEN conjunct1, rule_format, OF pincr]
  then have 7: "\<exists>st'. processRequest exampleEnv ?i 7 12000345 = Inr (False, st')
        \<and> respBuf (heap st' 7) = []
        \<and> sock (heap st' 7) = None
        \<and> trace st' = [RegisterIncrSync (Some 9) ''0'' ''1'' ''100'' ''10.0.0.9'' ''6379'']"
    by (simp add: buf [OF i1] e g)
  \<comment> \<open>the command is not run\<close>
  have pind: "precheck exampleEnv ?f 7 = Inr ''fullsync''
      \<and> (''fullsync'' = ''fullsync'' \<or> ''fullsync'' = ''incrsync'' \<or> ''fullsync'' = ''quit'')"
    by (simp add: exampleEnv_def e g)
  note 8 = D [THEN conjunct2, THEN conjunct2, THEN conjunct2, THEN conjunct2, THEN conjunct2,
      THEN conjunct2, THEN conjunct1, rule_format, OF pind,
      of "\<lambda>st a. (Inr ''+X'', st\<lparr>isRunning := False\<rparr>)"]
  \<comment> \<open>a fullsync with the wrong number of arguments\<close>
  let ?s = "exampleMonitored [''fullsync'', ''0'']"
  from ret obtain t1 where t1: "replyMonitors ?s 7 12000345 = Inr t1"
    by blast
  have pshort: "isRunning ?s \<and> precheck exampleEnv ?s 7 = Inr ''fullsync''
      \<and> replyMonitors ?s 7 12000345 = Inr t1 \<and> length (args (heap ?s 7)) \<noteq> 4"
    by (simp add: exampleEnv_def e g t1)
  note 9 = D [THEN conjunct2, THEN conjunct2, THEN conjunct2, THEN conjunct2, THEN conjunct2,
      THEN conjunct2, THEN conjunct2, THEN conjunct2, THEN conjunct1, rule_format, OF pshort]
  from 1 2 3 4 5 6 7 8 9 show ?thesis by blast
qed

end
